theory Spec2Isabelle
  imports Complex_Main "HOL-Library.Log_Nat"
begin

section \<open>Asset depreciation schedule engine (erpnext, asset\_depreciation\_schedule.py)\<close>

text \<open>
  The development embeds the schedule generator, the period amount calculator, the
  pro-rata calculator, the accumulated-depreciation reconciler and the uniqueness
  validation of \<^verbatim>\<open>asset_depreciation_schedule.py\<close>.

  Numbers: the money amounts, which Python holds in floats, are idealised as exact
  rationals (\<^typ>\<open>rat\<close>); \<^verbatim>\<open>flt(x)\<close> without a precision is then the identity, and an
  unset (\<^verbatim>\<open>None\<close>) numeric field reads as \<open>0\<close>, which is what both \<^verbatim>\<open>flt\<close> and
  Python's truth test make of it. \<^verbatim>\<open>cint\<close> is the identity on \<^typ>\<open>int\<close>.
  One float computation is not idealised: the test
  \<^verbatim>\<open>schedule_idx % (12 / cint(frequency_of_depreciation)) == 0\<close> (and \<^verbatim>\<open>== 1\<close>) of
  \<^verbatim>\<open>get_wdv_or_dd_depr_amount\<close> compares a float remainder by equality, so its quotient
  and remainder are computed as Python computes them, in IEEE 754 binary64.
\<close>

subsection \<open>Errors\<close>

datatype error =
    ZeroDivisionError
  | TypeError
  | IndexError
  | UnboundLocalError
  | ValidationError
  | DuplicateScheduleError
  | OverflowError

subsection \<open>Helpers of frappe.utils\<close>

text \<open>
  Modelled from the spec: \<^verbatim>\<open>flt(x, precision)\<close> of frappe.utils is not under src/.
  It rounds to \<open>precision\<close> decimal places ("exact reconciliation of rounding error ...
  to the asset's configured numeric precision"); ties go to the even neighbour. The
  theorems below use only that the result is within half a unit of the argument and
  that rounding a rounded value changes nothing.
\<close>

definition round_half_even :: "rat \<Rightarrow> int" where
  "round_half_even x =
     (let f = \<lfloor>x\<rfloor>; d = x - of_int f
      in if d < 1 / 2 then f
         else if 1 / 2 < d then f + 1
         else if even f then f else f + 1)"

definition flt_prec :: "rat \<Rightarrow> nat \<Rightarrow> rat" where
  "flt_prec x p = of_int (round_half_even (x * 10 ^ p)) / 10 ^ p"

text \<open>
  Modelled from the spec: the date helpers of frappe.utils (\<^verbatim>\<open>getdate\<close>,
  \<^verbatim>\<open>add_months\<close>, \<^verbatim>\<open>add_days\<close>, \<^verbatim>\<open>date_diff\<close>, \<^verbatim>\<open>month_diff\<close>,
  \<^verbatim>\<open>get_first_day\<close>, \<^verbatim>\<open>get_last_day\<close>, \<^verbatim>\<open>is_last_day_of_the_month\<close>) are not
  under src/. They are the proleptic Gregorian calendar of Python's \<^verbatim>\<open>datetime.date\<close>:
  adding months keeps the day of the month, clamped to the length of the target month
  ("adding index * frequency\_months months"), and differences count calendar days.
\<close>

datatype date = Date (year: int) (month: int) (day: int)

definition is_leap :: "int \<Rightarrow> bool" where
  "is_leap y = (y mod 4 = 0 \<and> (y mod 100 \<noteq> 0 \<or> y mod 400 = 0))"

definition days_in_month :: "int \<Rightarrow> int \<Rightarrow> int" where
  "days_in_month y m =
     (if m = 2 then (if is_leap y then 29 else 28)
      else if m = 4 \<or> m = 6 \<or> m = 9 \<or> m = 11 then 30 else 31)"

definition days_before_year :: "int \<Rightarrow> int" where
  "days_before_year y = (y - 1) * 365 + (y - 1) div 4 - (y - 1) div 100 + (y - 1) div 400"

definition days_before_month :: "int \<Rightarrow> int \<Rightarrow> int" where
  "days_before_month y m = sum_list (map (days_in_month y) [1..m - 1])"

definition toordinal :: "date \<Rightarrow> int" where
  "toordinal dt = days_before_year (year dt) + days_before_month (year dt) (month dt) + day dt"

definition date_diff :: "date \<Rightarrow> date \<Rightarrow> int" where
  "date_diff ed_date st_date = toordinal ed_date - toordinal st_date"

definition month_diff :: "date \<Rightarrow> date \<Rightarrow> int" where
  "month_diff ed_date st_date =
     (year ed_date - year st_date) * 12 + month ed_date - month st_date + 1"

definition add_months :: "date \<Rightarrow> int \<Rightarrow> date" where
  "add_months dt months =
     (let t = year dt * 12 + (month dt - 1) + months;
          y = t div 12;
          m = t mod 12 + 1
      in Date y m (min (day dt) (days_in_month y m)))"

definition next_day :: "date \<Rightarrow> date" where
  "next_day dt =
     (if day dt < days_in_month (year dt) (month dt) then Date (year dt) (month dt) (day dt + 1)
      else if month dt < 12 then Date (year dt) (month dt + 1) 1
      else Date (year dt + 1) 1 1)"

definition prev_day :: "date \<Rightarrow> date" where
  "prev_day dt =
     (if 1 < day dt then Date (year dt) (month dt) (day dt - 1)
      else if 1 < month dt then Date (year dt) (month dt - 1) (days_in_month (year dt) (month dt - 1))
      else Date (year dt - 1) 12 31)"

definition add_days :: "date \<Rightarrow> int \<Rightarrow> date" where
  "add_days dt days =
     (if 0 \<le> days then (next_day ^^ nat days) dt else (prev_day ^^ nat (- days)) dt)"

definition get_first_day :: "date \<Rightarrow> date" where
  "get_first_day dt = Date (year dt) (month dt) 1"

definition get_last_day :: "date \<Rightarrow> date" where
  "get_last_day dt = Date (year dt) (month dt) (days_in_month (year dt) (month dt))"

definition is_last_day_of_the_month :: "date \<Rightarrow> bool" where
  "is_last_day_of_the_month dt = (get_last_day dt = dt)"

text \<open>\<^verbatim>\<open>getdate(None)\<close> is the current date, which is a parameter here.\<close>

definition getdate :: "date \<Rightarrow> date option \<Rightarrow> date" where
  "getdate today d = (case d of None \<Rightarrow> today | Some x \<Rightarrow> x)"

text \<open>Source: \<^verbatim>\<open>is_first_day_of_the_month\<close>.\<close>

definition is_first_day_of_the_month :: "date \<Rightarrow> bool" where
  "is_first_day_of_the_month dt = (get_first_day dt = dt)"

text \<open>Division of idealised floats: division by zero raises.\<close>

definition py_div :: "rat \<Rightarrow> rat \<Rightarrow> error + rat" where
  "py_div a b = (if b = 0 then Inl ZeroDivisionError else Inr (a / b))"

subsection \<open>Python floats (IEEE 754 binary64) for the period-index test\<close>

text \<open>
  A binary64 number is \<open>0\<close> or \<open>m * 2 ^ (e - 52)\<close> with an integer \<open>m\<close> of at most 53 bits
  and \<open>- 1022 \<le> e \<le> 1023\<close>; it is represented here by the rational it denotes (the
  sign of a zero plays no part in \<^verbatim>\<open>==\<close>). \<open>pow2 k\<close> is \<open>2\<close> to the integer power \<open>k\<close>.
  \<open>float_exponent x\<close> is the binary exponent of \<open>x \<noteq> 0\<close>: the \<open>e\<close> with
  \<open>2 ^ e \<le> \<bar>x\<bar> < 2 ^ (e + 1)\<close>, found from the bit lengths of numerator and denominator,
  whose difference is \<open>e\<close> or \<open>e + 1\<close>. \<open>float_round x\<close> is the multiple of the unit in the
  last place, \<open>2 ^ (max e (- 1022) - 52)\<close>, nearest to \<open>x\<close>, ties going to the even
  multiple (below \<open>2 ^ (- 1022)\<close> the unit is that of the subnormal numbers). \<open>to_float\<close>
  raises \<^verbatim>\<open>OverflowError\<close> when the rounded value is beyond the largest binary64 number,
  that is when its exponent is 1024 or more.
\<close>

definition pow2 :: "int \<Rightarrow> rat" where
  "pow2 k = (if 0 \<le> k then 2 ^ nat k else 1 / 2 ^ nat (- k))"

definition float_exponent :: "rat \<Rightarrow> int" where
  "float_exponent x =
     (case quotient_of \<bar>x\<bar> of
        (p, q) \<Rightarrow> (let e = bitlen p - bitlen q in if pow2 e \<le> \<bar>x\<bar> then e else e - 1))"

definition float_round :: "rat \<Rightarrow> rat" where
  "float_round x =
     (if x = 0 then 0
      else (let ulp = pow2 (max (float_exponent x) (- 1022) - 52)
            in of_int (round_half_even (x / ulp)) * ulp))"

definition to_float :: "rat \<Rightarrow> error + rat" where
  "to_float x =
     (let y = float_round x
      in if y \<noteq> 0 \<and> 1024 \<le> float_exponent y then Inl OverflowError else Inr y)"

text \<open>
  Python's \<^verbatim>\<open>a / b\<close> on two ints: the exact quotient, correctly rounded to binary64;
  division by zero raises.
\<close>

definition int_true_divide :: "int \<Rightarrow> int \<Rightarrow> error + rat" where
  "int_true_divide a b =
     (if b = 0 then Inl ZeroDivisionError else to_float (of_int a / of_int b))"

text \<open>
  C's \<^verbatim>\<open>fmod\<close> on binary64 numbers: \<open>x - y * trunc (x / y)\<close>, which is itself a binary64
  number and is delivered without rounding.
\<close>

definition fmod :: "rat \<Rightarrow> rat \<Rightarrow> rat" where
  "fmod x y = (let t = x / y in x - y * of_int (if 0 \<le> t then \<lfloor>t\<rfloor> else \<lceil>t\<rceil>))"

text \<open>
  Python's \<^verbatim>\<open>vx % wx\<close> on floats: a zero divisor raises; otherwise the result is
  \<^verbatim>\<open>fmod(vx, wx)\<close>, to which the divisor is added (a float addition, hence rounded)
  when it is not zero and its sign differs from the divisor's.
\<close>

definition float_rem :: "rat \<Rightarrow> rat \<Rightarrow> error + rat" where
  "float_rem vx wx =
     (if wx = 0 then Inl ZeroDivisionError
      else (let m = fmod vx wx
            in if m \<noteq> 0 \<and> (wx < 0) \<noteq> (m < 0) then Inr (float_round (m + wx))
               else Inr m))"

text \<open>
  Python's \<^verbatim>\<open>n % wx\<close> for an int \<open>n\<close> and a float \<open>wx\<close>: the int is converted to a float
  first (rounded to nearest, \<^verbatim>\<open>OverflowError\<close> when too large).
\<close>

definition int_rem_float :: "int \<Rightarrow> rat \<Rightarrow> error + rat" where
  "int_rem_float n wx =
     (case to_float (of_int n) of Inl e \<Rightarrow> Inl e | Inr vx \<Rightarrow> float_rem vx wx)"

subsection \<open>Period amount calculator: written down value and double declining balance\<close>

definition get_wdv_or_dd_depr_amount ::
  "rat \<Rightarrow> rat \<Rightarrow> int \<Rightarrow> int \<Rightarrow> rat \<Rightarrow> bool \<Rightarrow> error + rat" where
  "get_wdv_or_dd_depr_amount depreciable_value rate_of_depreciation frequency_of_depreciation
       schedule_idx prev_depreciation_amount has_wdv_or_dd_non_yearly_pro_rata =
     (if frequency_of_depreciation = 12 then
        Inr (depreciable_value * (rate_of_depreciation / 100))
      else if has_wdv_or_dd_non_yearly_pro_rata then
        (if schedule_idx = 0 then
           Inr (depreciable_value * (rate_of_depreciation / 100))
         else
           (case int_true_divide 12 frequency_of_depreciation of
              Inl e \<Rightarrow> Inl e
            | Inr q \<Rightarrow>
              (case int_rem_float schedule_idx q of
                 Inl e \<Rightarrow> Inl e
               | Inr r \<Rightarrow>
                 if r = 1 then
                   Inr (depreciable_value * of_int frequency_of_depreciation
                          * (rate_of_depreciation / 1200))
                 else Inr prev_depreciation_amount)))
      else
        (case int_true_divide 12 frequency_of_depreciation of
           Inl e \<Rightarrow> Inl e
         | Inr q \<Rightarrow>
           (case int_rem_float schedule_idx q of
              Inl e \<Rightarrow> Inl e
            | Inr r \<Rightarrow>
              if r = 0 then
                Inr (depreciable_value * of_int frequency_of_depreciation
                       * (rate_of_depreciation / 1200))
              else Inr prev_depreciation_amount)))"

subsection \<open>Data model\<close>

text \<open>
  The asset snapshot. \<open>to_date\<close> and the three \<^verbatim>\<open>flags\<close> entries are the attributes
  the engine reads from \<^verbatim>\<open>asset_doc\<close>; \<open>precision_gross_purchase_amount\<close> is
  \<^verbatim>\<open>asset_doc.precision("gross_purchase_amount")\<close>.
\<close>

record asset =
  available_for_use_date :: "date option"
  number_of_depreciations_booked :: int
  gross_purchase_amount :: rat
  opening_accumulated_depreciation :: rat
  docstatus :: int
  to_date :: "date option"
  increase_in_asset_life :: bool
  increase_in_asset_value_due_to_repair :: bool
  decrease_in_asset_value_due_to_value_adjustment :: bool
  precision_gross_purchase_amount :: nat

text \<open>The finance book policy row (\<^verbatim>\<open>row\<close>, \<^verbatim>\<open>fb_row\<close> in the source).\<close>

record finance_book_row =
  depreciation_method :: string
  total_number_of_depreciations :: int
  frequency_of_depreciation :: int
  rate_of_depreciation :: rat
  expected_value_after_useful_life :: rat
  daily_prorata_based :: bool
  depreciation_start_date :: date
  value_after_depreciation :: rat

text \<open>
  A schedule row. \<open>idx\<close> is the 1-based position frappe gives to a child row;
  a fresh row has no accumulated amount and no journal entry.
\<close>

record depr_row =
  idx :: int
  schedule_date :: date
  depreciation_amount :: rat
  accumulated_depreciation_amount :: "rat option"
  journal_entry :: "string option"

text \<open>
  The schedule document (\<^verbatim>\<open>self\<close>). Fields that share a name with a field of the
  asset or of the policy row carry the prefix \<open>self_\<close>. The two precisions are
  \<^verbatim>\<open>d.precision("depreciation_amount")\<close> and
  \<^verbatim>\<open>d.precision("accumulated_depreciation_amount")\<close>, the same for every row.
\<close>

record asset_depreciation_schedule =
  name :: string
  asset :: string
  finance_book :: "string option"
  self_docstatus :: int
  depreciation_schedule :: "depr_row list"
  self_opening_accumulated_depreciation :: rat
  self_number_of_depreciations_booked :: int
  self_depreciation_method :: string
  precision_depreciation_amount :: nat
  precision_accumulated_depreciation_amount :: nat

text \<open>Python's truth test on \<^verbatim>\<open>journal_entry\<close>: set and not the empty string.\<close>

definition has_journal_entry :: "depr_row \<Rightarrow> bool" where
  "has_journal_entry d = (case journal_entry d of None \<Rightarrow> False | Some s \<Rightarrow> s \<noteq> [])"

subsection \<open>Pro-rata calculator\<close>

definition get_total_days :: "date \<Rightarrow> int \<Rightarrow> int" where
  "get_total_days dt frequency =
     (let period_start_date = add_months dt (frequency * (- 1));
          period_start_date =
            (if is_last_day_of_the_month dt then get_last_day period_start_date
             else period_start_date)
      in date_diff dt period_start_date)"

definition get_pro_rata_amt ::
  "finance_book_row \<Rightarrow> rat \<Rightarrow> date \<Rightarrow> date \<Rightarrow> bool \<Rightarrow> error + (rat \<times> int \<times> int)" where
  "get_pro_rata_amt row amount from_date to_date' has_wdv_or_dd_non_yearly_pro_rata =
     (let days = date_diff to_date' from_date;
          months = month_diff to_date' from_date;
          total_days =
            (if has_wdv_or_dd_non_yearly_pro_rata then get_total_days to_date' 12
             else get_total_days to_date' (frequency_of_depreciation row))
      in case py_div (amount * of_int days) (of_int total_days) of
           Inl e \<Rightarrow> Inl e
         | Inr a \<Rightarrow> Inr (a, days, months))"

definition get_modified_available_for_use_date ::
  "date \<Rightarrow> asset \<Rightarrow> finance_book_row \<Rightarrow> bool \<Rightarrow> date" where
  "get_modified_available_for_use_date today asset_doc row wdv_or_dd_non_yearly =
     (if wdv_or_dd_non_yearly then
        add_months (getdate today (available_for_use_date asset_doc))
          (number_of_depreciations_booked asset_doc * 12)
      else
        add_months (getdate today (available_for_use_date asset_doc))
          (number_of_depreciations_booked asset_doc * frequency_of_depreciation row))"

definition check_is_pro_rata :: "date \<Rightarrow> asset \<Rightarrow> finance_book_row \<Rightarrow> bool \<Rightarrow> bool" where
  "check_is_pro_rata today asset_doc row wdv_or_dd_non_yearly =
     (let from_date = get_modified_available_for_use_date today asset_doc row wdv_or_dd_non_yearly;
          days = date_diff (depreciation_start_date row) from_date + 1;
          total_days =
            (if wdv_or_dd_non_yearly then get_total_days (depreciation_start_date row) 12
             else get_total_days (depreciation_start_date row) (frequency_of_depreciation row))
      in days < total_days)"

subsection \<open>Period amount calculator: straight line and manual, and the dispatch\<close>

definition get_straight_line_or_manual_depr_amount ::
  "date \<Rightarrow> asset \<Rightarrow> finance_book_row \<Rightarrow> int \<Rightarrow> int \<Rightarrow> error + rat" where
  "get_straight_line_or_manual_depr_amount today asset_doc row schedule_idx
       number_of_pending_depreciations =
     (if increase_in_asset_life asset_doc then
        py_div (value_after_depreciation row - expected_value_after_useful_life row)
          (of_int (date_diff (getdate today (to_date asset_doc))
                     (getdate today (available_for_use_date asset_doc))) / 365)
      else if increase_in_asset_value_due_to_repair asset_doc then
        py_div (value_after_depreciation row - expected_value_after_useful_life row)
          (of_int (total_number_of_depreciations row))
      else if decrease_in_asset_value_due_to_value_adjustment asset_doc then
        (if daily_prorata_based row then
           (case py_div (value_after_depreciation row - expected_value_after_useful_life row)
                   (of_int (date_diff
                      (get_last_day (add_months (depreciation_start_date row)
                         ((total_number_of_depreciations row
                             - number_of_depreciations_booked asset_doc - 1)
                          * frequency_of_depreciation row)))
                      (add_days (get_last_day (add_months (depreciation_start_date row)
                         ((total_number_of_depreciations row
                             - number_of_depreciations_booked asset_doc
                             - number_of_pending_depreciations - 1)
                          * frequency_of_depreciation row))) 1))) of
              Inl e \<Rightarrow> Inl e
            | Inr daily_depr_amount \<Rightarrow>
              (let to_date' = get_last_day (add_months (depreciation_start_date row)
                                (schedule_idx * frequency_of_depreciation row));
                   from_date = add_days (get_last_day (add_months (depreciation_start_date row)
                                ((schedule_idx - 1) * frequency_of_depreciation row))) 1
               in Inr (daily_depr_amount * of_int (date_diff to_date' from_date + 1))))
         else
           py_div (value_after_depreciation row - expected_value_after_useful_life row)
             (of_int number_of_pending_depreciations))
      else
        (if daily_prorata_based row then
           (case py_div (gross_purchase_amount asset_doc - opening_accumulated_depreciation asset_doc
                          - expected_value_after_useful_life row)
                   (of_int (date_diff
                      (get_last_day (add_months (depreciation_start_date row)
                         ((total_number_of_depreciations row
                             - number_of_depreciations_booked asset_doc - 1)
                          * frequency_of_depreciation row)))
                      (add_days (get_last_day (add_months (depreciation_start_date row)
                         (- 1 * frequency_of_depreciation row))) 1))) of
              Inl e \<Rightarrow> Inl e
            | Inr daily_depr_amount \<Rightarrow>
              (let to_date' = get_last_day (add_months (depreciation_start_date row)
                                (schedule_idx * frequency_of_depreciation row));
                   from_date = add_days (get_last_day (add_months (depreciation_start_date row)
                                ((schedule_idx - 1) * frequency_of_depreciation row))) 1
               in Inr (daily_depr_amount * of_int (date_diff to_date' from_date + 1))))
         else
           py_div (gross_purchase_amount asset_doc - opening_accumulated_depreciation asset_doc
                     - expected_value_after_useful_life row)
             (of_int (total_number_of_depreciations row
                        - number_of_depreciations_booked asset_doc))))"

text \<open>
  The regional hook \<^verbatim>\<open>get_updated_rate_of_depreciation_for_wdv_and_dd\<close>, in its default
  form: the rate of the policy row.
\<close>

definition get_updated_rate_of_depreciation_for_wdv_and_dd ::
  "asset \<Rightarrow> rat \<Rightarrow> finance_book_row \<Rightarrow> rat" where
  "get_updated_rate_of_depreciation_for_wdv_and_dd asset_doc depreciable_value fb_row =
     rate_of_depreciation fb_row"

definition get_depreciation_amount ::
  "date \<Rightarrow> asset \<Rightarrow> rat \<Rightarrow> finance_book_row \<Rightarrow> int \<Rightarrow> rat \<Rightarrow> bool \<Rightarrow> int \<Rightarrow> error + rat" where
  "get_depreciation_amount today asset_doc depreciable_value fb_row schedule_idx
       prev_depreciation_amount has_wdv_or_dd_non_yearly_pro_rata number_of_pending_depreciations =
     (if depreciation_method fb_row = ''Straight Line'' \<or> depreciation_method fb_row = ''Manual'' then
        get_straight_line_or_manual_depr_amount today asset_doc fb_row schedule_idx
          number_of_pending_depreciations
      else
        (let rate = get_updated_rate_of_depreciation_for_wdv_and_dd asset_doc depreciable_value fb_row
         in get_wdv_or_dd_depr_amount depreciable_value rate (frequency_of_depreciation fb_row)
              schedule_idx prev_depreciation_amount has_wdv_or_dd_non_yearly_pro_rata))"

subsection \<open>Schedule generator\<close>

text \<open>
  Modelled from the spec: \<^verbatim>\<open>Document.append\<close> of frappe is not under src/. It adds the
  new child row at the end of the ordered sequence ("appends rows to the schedule") and
  numbers it with its 1-based position; the other fields of the fresh row are unset.
\<close>

definition add_depr_schedule_row ::
  "asset_depreciation_schedule \<Rightarrow> date \<Rightarrow> rat \<Rightarrow> asset_depreciation_schedule" where
  "add_depr_schedule_row self sched_date amount =
     self\<lparr>depreciation_schedule :=
            depreciation_schedule self @
              [\<lparr>idx = int (length (depreciation_schedule self)) + 1,
                schedule_date = sched_date,
                depreciation_amount = amount,
                accumulated_depreciation_amount = None,
                journal_entry = None\<rparr>]\<rparr>"

definition get_depreciation_amount_for_first_row :: "asset_depreciation_schedule \<Rightarrow> error + rat" where
  "get_depreciation_amount_for_first_row self =
     (case depreciation_schedule self of
        [] \<Rightarrow> Inl IndexError
      | d # _ \<Rightarrow> Inr (depreciation_amount d))"

definition get_adjusted_depreciation_amount ::
  "asset_depreciation_schedule \<Rightarrow> rat \<Rightarrow> rat \<Rightarrow> error + rat" where
  "get_adjusted_depreciation_amount self depreciation_amount_without_pro_rata
       depreciation_amount_for_last_row =
     (if self_opening_accumulated_depreciation self = 0 then
        (case get_depreciation_amount_for_first_row self of
           Inl e \<Rightarrow> Inl e
         | Inr depreciation_amount_for_first_row \<Rightarrow>
           if depreciation_amount_for_first_row + depreciation_amount_for_last_row
                \<noteq> depreciation_amount_without_pro_rata
           then Inr (depreciation_amount_without_pro_rata - depreciation_amount_for_first_row)
           else Inr depreciation_amount_for_last_row)
      else Inr depreciation_amount_for_last_row)"

text \<open>
  \<^verbatim>\<open>clear_depr_schedule\<close>: the loop keeps the rows up to the first one without a journal
  entry; \<open>start\<close> is assigned only when such a row is met.
\<close>

fun clear_depr_schedule_loop :: "depr_row list \<Rightarrow> int \<Rightarrow> depr_row list \<Rightarrow> int \<times> depr_row list" where
  "clear_depr_schedule_loop [] num_of_depreciations_completed depr_schedule = (0, depr_schedule)"
| "clear_depr_schedule_loop (schedule # rest) num_of_depreciations_completed depr_schedule =
     (if has_journal_entry schedule then
        clear_depr_schedule_loop rest (num_of_depreciations_completed + 1)
          (depr_schedule @ [schedule])
      else (num_of_depreciations_completed, depr_schedule))"

definition clear_depr_schedule ::
  "asset_depreciation_schedule \<Rightarrow> int \<times> asset_depreciation_schedule" where
  "clear_depr_schedule self =
     (case clear_depr_schedule_loop (depreciation_schedule self) 0 [] of
        (start, depr_schedule) \<Rightarrow> (start, self\<lparr>depreciation_schedule := depr_schedule\<rparr>))"

text \<open>
  The state of the period loop of \<^verbatim>\<open>_make_depr_schedule\<close>: the two documents it
  mutates, its local variables that live across iterations (\<open>schedule_date\<close> is unbound
  until first assigned), and whether \<^verbatim>\<open>break\<close> was executed.
\<close>

record loop_state =
  ls_self :: asset_depreciation_schedule
  ls_asset_doc :: asset
  ls_value_after_depreciation :: rat
  ls_skip_row :: bool
  ls_schedule_date :: "date option"
  ls_break :: bool

text \<open>The local variables fixed before the loop starts.\<close>

record loop_locals =
  has_pro_rata :: bool
  has_wdv_or_dd_non_yearly_pro_rata :: bool
  final_number_of_depreciations :: int
  number_of_pending_depreciations :: int
  should_get_last_day :: bool

text \<open>Lines 268--290: the asset is being sold or scrapped.\<close>

definition disposal_iteration ::
  "date \<Rightarrow> finance_book_row \<Rightarrow> date \<Rightarrow> rat \<Rightarrow> loop_state \<Rightarrow> error + loop_state" where
  "disposal_iteration today row date_of_disposal amount s =
     (let from_date =
            add_months (getdate today (available_for_use_date (ls_asset_doc s)))
              (number_of_depreciations_booked (ls_asset_doc s) * frequency_of_depreciation row);
          from_date =
            (if depreciation_schedule (ls_self s) \<noteq> []
             then schedule_date (last (depreciation_schedule (ls_self s)))
             else from_date)
      in case get_pro_rata_amt row amount from_date date_of_disposal False of
           Inl e \<Rightarrow> Inl e
         | Inr (amount', days, months) \<Rightarrow>
           Inr (s\<lparr>ls_self :=
                    (if 0 < amount' then add_depr_schedule_row (ls_self s) date_of_disposal amount'
                     else ls_self s),
                  ls_break := True\<rparr>))"

text \<open>
  Lines 292--352: the pro-rata treatment of the first and of the last row. The result is
  the period amount, the schedule date and the asset (whose \<open>to_date\<close> the last-row
  branch sets).
\<close>

definition boundary_rows ::
  "date \<Rightarrow> finance_book_row \<Rightarrow> loop_locals \<Rightarrow> int \<Rightarrow> rat \<Rightarrow> loop_state
     \<Rightarrow> error + (rat \<times> date option \<times> asset)" where
  "boundary_rows today row L n amount s =
     (let self = ls_self s; asset_doc = ls_asset_doc s in
      if n = 0 \<and> (has_pro_rata L \<or> has_wdv_or_dd_non_yearly_pro_rata L)
           \<and> self_opening_accumulated_depreciation self = 0 then
        (let from_date = add_days (getdate today (available_for_use_date asset_doc)) (- 1)
         in case get_pro_rata_amt row amount from_date (depreciation_start_date row)
                   (has_wdv_or_dd_non_yearly_pro_rata L) of
              Inl e \<Rightarrow> Inl e
            | Inr (amount', days, months) \<Rightarrow> Inr (amount', ls_schedule_date s, asset_doc))
      else if n = 0 \<and> has_wdv_or_dd_non_yearly_pro_rata L
                \<and> self_opening_accumulated_depreciation self \<noteq> 0 then
        (let from_date =
               (if \<not> is_first_day_of_the_month (getdate today (available_for_use_date asset_doc))
                then get_last_day
                       (add_months (getdate today (available_for_use_date asset_doc))
                          ((self_number_of_depreciations_booked self - 1)
                           * frequency_of_depreciation row))
                else add_months
                       (add_days (getdate today (available_for_use_date asset_doc)) (- 1))
                       (self_number_of_depreciations_booked self * frequency_of_depreciation row))
         in case get_pro_rata_amt row amount from_date (depreciation_start_date row)
                   (has_wdv_or_dd_non_yearly_pro_rata L) of
              Inl e \<Rightarrow> Inl e
            | Inr (amount', days, months) \<Rightarrow> Inr (amount', ls_schedule_date s, asset_doc))
      else if has_pro_rata L \<and> n = final_number_of_depreciations L - 1 then
        (let asset_doc =
               (if \<not> increase_in_asset_life asset_doc then
                  asset_doc\<lparr>to_date :=
                    Some (add_months (getdate today (available_for_use_date asset_doc))
                            ((n + self_number_of_depreciations_booked self)
                             * frequency_of_depreciation row))\<rparr>
                else asset_doc);
             depreciation_amount_without_pro_rata = amount
         in case ls_schedule_date s of
              None \<Rightarrow> Inl UnboundLocalError
            | Some sched_date \<Rightarrow>
              (case get_pro_rata_amt row amount sched_date (getdate today (to_date asset_doc))
                      (has_wdv_or_dd_non_yearly_pro_rata L) of
                 Inl e \<Rightarrow> Inl e
               | Inr (amount', days, months) \<Rightarrow>
                 (case get_adjusted_depreciation_amount self
                         depreciation_amount_without_pro_rata amount' of
                    Inl e \<Rightarrow> Inl e
                  | Inr amount'' \<Rightarrow>
                    Inr (amount'', Some (add_days sched_date days), asset_doc))))
      else Inr (amount, ls_schedule_date s, asset_doc))"

text \<open>
  Lines 354--375: zero amounts are skipped; the running value is reduced by the rounded
  amount; the amount is adjusted against the expected value after useful life; the row
  is appended when its rounded amount is positive.
\<close>

definition append_iteration ::
  "finance_book_row \<Rightarrow> loop_locals \<Rightarrow> int \<Rightarrow> rat \<Rightarrow> loop_state \<Rightarrow> error + loop_state" where
  "append_iteration row L n amount s =
     (if amount = 0 then Inr s
      else
        (let value_after = ls_value_after_depreciation s
               - flt_prec amount (precision_gross_purchase_amount (ls_asset_doc s));
             adjust =
               (expected_value_after_useful_life row \<noteq> 0
                \<and> ((n = final_number_of_depreciations L - 1
                      \<and> value_after \<noteq> expected_value_after_useful_life row)
                     \<or> value_after < expected_value_after_useful_life row));
             amount' =
               (if adjust then amount + (value_after - expected_value_after_useful_life row)
                else amount);
             s' = s\<lparr>ls_value_after_depreciation := value_after,
                     ls_skip_row := (if adjust then True else ls_skip_row s)\<rparr>
         in if 0 < flt_prec amount' (precision_gross_purchase_amount (ls_asset_doc s)) then
              (case ls_schedule_date s of
                 None \<Rightarrow> Inl UnboundLocalError
               | Some sched_date \<Rightarrow>
                 Inr (s'\<lparr>ls_self := add_depr_schedule_row (ls_self s) sched_date amount'\<rparr>))
            else Inr s'))"

text \<open>One pass through the body of \<^verbatim>\<open>for n in range(start, final_number_of_depreciations)\<close>.\<close>

definition depr_schedule_iteration ::
  "date \<Rightarrow> finance_book_row \<Rightarrow> date option \<Rightarrow> loop_locals \<Rightarrow> int \<Rightarrow> loop_state
     \<Rightarrow> error + loop_state" where
  "depr_schedule_iteration today row date_of_disposal L n s =
     (if ls_skip_row s then Inr s
      else
        (let rows = depreciation_schedule (ls_self s);
             prev_depreciation_amount =
               (if 0 < n \<and> n - 1 < int (length rows) then depreciation_amount (rows ! nat (n - 1))
                else 0)
         in case get_depreciation_amount today (ls_asset_doc s) (ls_value_after_depreciation s)
                   row n prev_depreciation_amount (has_wdv_or_dd_non_yearly_pro_rata L)
                   (number_of_pending_depreciations L) of
              Inl e \<Rightarrow> Inl e
            | Inr amount \<Rightarrow>
              (let s1 =
                     (if \<not> has_pro_rata L
                         \<or> (n < final_number_of_depreciations L - 1
                             \<or> final_number_of_depreciations L = 2) then
                        (let sched_date = add_months (depreciation_start_date row)
                                            (n * frequency_of_depreciation row);
                             sched_date = (if should_get_last_day L then get_last_day sched_date
                                           else sched_date)
                         in s\<lparr>ls_schedule_date := Some sched_date\<rparr>)
                      else s)
               in case date_of_disposal of
                    Some d \<Rightarrow> disposal_iteration today row d amount s1
                  | None \<Rightarrow>
                    (case boundary_rows today row L n amount s1 of
                       Inl e \<Rightarrow> Inl e
                     | Inr (amount', sched_date, asset_doc) \<Rightarrow>
                       append_iteration row L n amount'
                         (s1\<lparr>ls_schedule_date := sched_date, ls_asset_doc := asset_doc\<rparr>)))))"

fun depr_schedule_loop ::
  "date \<Rightarrow> finance_book_row \<Rightarrow> date option \<Rightarrow> loop_locals \<Rightarrow> int list \<Rightarrow> loop_state
     \<Rightarrow> error + loop_state" where
  "depr_schedule_loop today row date_of_disposal L [] s = Inr s"
| "depr_schedule_loop today row date_of_disposal L (n # ns) s =
     (if ls_break s then Inr s
      else
        (case depr_schedule_iteration today row date_of_disposal L n s of
           Inl e \<Rightarrow> Inl e
         | Inr s' \<Rightarrow> depr_schedule_loop today row date_of_disposal L ns s'))"

definition get_value_after_depreciation_for_making_schedule ::
  "asset \<Rightarrow> finance_book_row \<Rightarrow> rat" where
  "get_value_after_depreciation_for_making_schedule asset_doc fb_row =
     (if docstatus asset_doc = 1 \<and> value_after_depreciation fb_row \<noteq> 0 then
        value_after_depreciation fb_row
      else gross_purchase_amount asset_doc - opening_accumulated_depreciation asset_doc)"

text \<open>
  Lines 214--236 of \<^verbatim>\<open>_make_depr_schedule\<close>: the local variables computed before the
  loop, from the policy row whose \<open>value_after_depreciation\<close> has been set.
\<close>

definition init_loop_locals ::
  "date \<Rightarrow> asset_depreciation_schedule \<Rightarrow> asset \<Rightarrow> finance_book_row \<Rightarrow> int \<Rightarrow> loop_locals" where
  "init_loop_locals today self asset_doc row start =
     (let final = total_number_of_depreciations row - self_number_of_depreciations_booked self;
          pro_rata = check_is_pro_rata today asset_doc row False;
          final = (if pro_rata then final + 1 else final);
          wdv_pro_rata =
            (if (depreciation_method row = ''Written Down Value''
                 \<or> depreciation_method row = ''Double Declining Balance'')
                \<and> frequency_of_depreciation row \<noteq> 12
             then check_is_pro_rata today asset_doc row True else False)
      in \<lparr>has_pro_rata = pro_rata,
          has_wdv_or_dd_non_yearly_pro_rata = wdv_pro_rata,
          final_number_of_depreciations = final,
          number_of_pending_depreciations = final - start,
          should_get_last_day = is_last_day_of_the_month (depreciation_start_date row)\<rparr>)"

text \<open>
  \<^verbatim>\<open>_make_depr_schedule\<close>. \<^verbatim>\<open>asset_doc.validate_asset_finance_books\<close> belongs to the
  Asset document, which is not under src/: it is the parameter \<open>validate\<close>, which either
  raises or hands back the asset and the policy row, possibly changed. The write of the
  policy row to the database (\<^verbatim>\<open>row.db_update()\<close>) is outside the model. An unset
  \<open>value_after_depreciation\<close> argument is \<open>0\<close>.
\<close>

definition make_depr_schedule_inner ::
  "(asset \<Rightarrow> finance_book_row \<Rightarrow> error + (asset \<times> finance_book_row)) \<Rightarrow> date
     \<Rightarrow> asset_depreciation_schedule \<Rightarrow> asset \<Rightarrow> finance_book_row \<Rightarrow> int \<Rightarrow> date option \<Rightarrow> rat
     \<Rightarrow> error + (asset_depreciation_schedule \<times> asset \<times> finance_book_row)" where
  "make_depr_schedule_inner validate today self asset_doc0 row0 start date_of_disposal
       value_after_depreciation_arg =
     (case validate asset_doc0 row0 of
        Inl e \<Rightarrow> Inl e
      | Inr (asset_doc, row1) \<Rightarrow>
        (let value_after =
               (if value_after_depreciation_arg = 0
                then get_value_after_depreciation_for_making_schedule asset_doc row1
                else value_after_depreciation_arg);
             row = row1\<lparr>value_after_depreciation := value_after\<rparr>;
             L = init_loop_locals today self asset_doc row start
         in case depr_schedule_loop today row date_of_disposal L
                   [start..final_number_of_depreciations L - 1]
                   \<lparr>ls_self = self, ls_asset_doc = asset_doc,
                    ls_value_after_depreciation = value_after, ls_skip_row = False,
                    ls_schedule_date = None, ls_break = False\<rparr> of
              Inl e \<Rightarrow> Inl e
            | Inr s \<Rightarrow> Inr (ls_self s, ls_asset_doc s, row)))"

definition make_depr_schedule ::
  "(asset \<Rightarrow> finance_book_row \<Rightarrow> error + (asset \<times> finance_book_row)) \<Rightarrow> date
     \<Rightarrow> asset_depreciation_schedule \<Rightarrow> asset \<Rightarrow> finance_book_row \<Rightarrow> date option \<Rightarrow> rat
     \<Rightarrow> error + (asset_depreciation_schedule \<times> asset \<times> finance_book_row)" where
  "make_depr_schedule validate today self asset_doc row date_of_disposal
       value_after_depreciation_arg =
     (case available_for_use_date asset_doc of
        None \<Rightarrow> Inr (self, asset_doc, row)
      | Some _ \<Rightarrow>
        (case clear_depr_schedule self of
           (start, self') \<Rightarrow>
             make_depr_schedule_inner validate today self' asset_doc row start date_of_disposal
               value_after_depreciation_arg))"

subsection \<open>Accumulated-depreciation reconciler\<close>

text \<open>
  The state of the loop of \<^verbatim>\<open>set_accumulated_depreciation\<close>: the rows, updated in
  place, the running total (\<^verbatim>\<open>None\<close> until first assigned) and the running value.
\<close>

record accumulation_state =
  as_rows :: "depr_row list"
  as_accumulated_depreciation :: "rat option"
  as_value_after_depreciation :: rat

definition straight_line_idx :: "asset_depreciation_schedule \<Rightarrow> int list" where
  "straight_line_idx self =
     (if self_depreciation_method self = ''Straight Line'' \<or> self_depreciation_method self = ''Manual''
      then map idx (depreciation_schedule self) else [])"

text \<open>\<^verbatim>\<open>straight_line_idx and i == max(straight_line_idx) - 1\<close>.\<close>

definition is_max_straight_line_idx :: "int list \<Rightarrow> nat \<Rightarrow> bool" where
  "is_max_straight_line_idx sl_idx i =
     (case sl_idx of [] \<Rightarrow> False | x # xs \<Rightarrow> int i = fold max xs x - 1)"

definition set_accumulated_depreciation_iteration ::
  "asset_depreciation_schedule \<Rightarrow> asset \<Rightarrow> finance_book_row \<Rightarrow> date option \<Rightarrow> date option
     \<Rightarrow> bool \<Rightarrow> int list \<Rightarrow> nat \<Rightarrow> accumulation_state \<Rightarrow> error + accumulation_state" where
  "set_accumulated_depreciation_iteration self asset_doc row date_of_disposal date_of_return
       ignore_booked_entry sl_idx i s =
     (let d = as_rows s ! i in
      if ignore_booked_entry \<and> has_journal_entry d then Inr s
      else
        (let accumulated =
               (if as_accumulated_depreciation s = None \<or> as_accumulated_depreciation s = Some 0 then
                  (if 0 < i \<and> decrease_in_asset_value_due_to_value_adjustment asset_doc
                   then accumulated_depreciation_amount (as_rows s ! (i - 1))
                   else Some (self_opening_accumulated_depreciation self))
                else as_accumulated_depreciation s);
             amount = flt_prec (depreciation_amount d) (precision_depreciation_amount self);
             value_after = as_value_after_depreciation s - amount;
             amount' =
               (if is_max_straight_line_idx sl_idx i \<and> date_of_disposal = None
                   \<and> date_of_return = None
                then amount
                       + flt_prec (value_after - expected_value_after_useful_life row)
                           (precision_depreciation_amount self)
                else amount)
         in case accumulated of
              None \<Rightarrow> Inl TypeError
            | Some a \<Rightarrow>
              Inr \<lparr>as_rows =
                     (as_rows s)
                       [i := d\<lparr>depreciation_amount := amount',
                              accumulated_depreciation_amount :=
                                Some (flt_prec (a + amount')
                                        (precision_accumulated_depreciation_amount self))\<rparr>],
                   as_accumulated_depreciation = Some (a + amount'),
                   as_value_after_depreciation = value_after\<rparr>))"

fun set_accumulated_depreciation_loop ::
  "asset_depreciation_schedule \<Rightarrow> asset \<Rightarrow> finance_book_row \<Rightarrow> date option \<Rightarrow> date option
     \<Rightarrow> bool \<Rightarrow> int list \<Rightarrow> nat list \<Rightarrow> accumulation_state \<Rightarrow> error + accumulation_state" where
  "set_accumulated_depreciation_loop self asset_doc row date_of_disposal date_of_return
       ignore_booked_entry sl_idx [] s = Inr s"
| "set_accumulated_depreciation_loop self asset_doc row date_of_disposal date_of_return
       ignore_booked_entry sl_idx (i # is) s =
     (case set_accumulated_depreciation_iteration self asset_doc row date_of_disposal
             date_of_return ignore_booked_entry sl_idx i s of
        Inl e \<Rightarrow> Inl e
      | Inr s' \<Rightarrow>
        set_accumulated_depreciation_loop self asset_doc row date_of_disposal date_of_return
          ignore_booked_entry sl_idx is s')"

definition set_accumulated_depreciation ::
  "asset_depreciation_schedule \<Rightarrow> asset \<Rightarrow> finance_book_row \<Rightarrow> date option \<Rightarrow> date option
     \<Rightarrow> bool \<Rightarrow> error + asset_depreciation_schedule" where
  "set_accumulated_depreciation self asset_doc row date_of_disposal date_of_return
       ignore_booked_entry =
     (case set_accumulated_depreciation_loop self asset_doc row date_of_disposal date_of_return
             ignore_booked_entry (straight_line_idx self)
             [0..<length (depreciation_schedule self)]
             \<lparr>as_rows = depreciation_schedule self,
              as_accumulated_depreciation = None,
              as_value_after_depreciation = value_after_depreciation row\<rparr> of
        Inl e \<Rightarrow> Inl e
      | Inr s \<Rightarrow> Inr (self\<lparr>depreciation_schedule := as_rows s\<rparr>))"

text \<open>
  Regeneration: \<^verbatim>\<open>make_depr_schedule\<close> followed by \<^verbatim>\<open>set_accumulated_depreciation\<close>,
  as \<^verbatim>\<open>prepare_draft_asset_depr_schedule_data\<close> (lines 109--110, where
  \<open>ignore_booked_entry\<close> is false and no value is passed) and
  \<^verbatim>\<open>make_new_active_asset_depr_schedules_and_cancel_current_ones\<close> (lines 790--795) call
  them.
\<close>

definition regenerate ::
  "(asset \<Rightarrow> finance_book_row \<Rightarrow> error + (asset \<times> finance_book_row)) \<Rightarrow> date
     \<Rightarrow> asset_depreciation_schedule \<Rightarrow> asset \<Rightarrow> finance_book_row \<Rightarrow> date option \<Rightarrow> date option
     \<Rightarrow> rat \<Rightarrow> bool \<Rightarrow> error + asset_depreciation_schedule" where
  "regenerate validate today self asset_doc row date_of_disposal date_of_return
       value_after_depreciation_arg ignore_booked_entry =
     (case make_depr_schedule validate today self asset_doc row date_of_disposal
             value_after_depreciation_arg of
        Inl e \<Rightarrow> Inl e
      | Inr (self', asset_doc', row') \<Rightarrow>
        set_accumulated_depreciation self' asset_doc' row' date_of_disposal date_of_return
          ignore_booked_entry)"

subsection \<open>Uniqueness validation\<close>

text \<open>
  Modelled from the spec: \<^verbatim>\<open>frappe.db.exists\<close> is not under src/. The table of
  schedules is a list of documents; \<open>exists\<close> returns the name of a stored document
  that satisfies the filters, the first in storage order, or nothing. The filter
  \<^verbatim>\<open>["finance_book", "is", "not set"]\<close> holds for an unset or empty finance book.
\<close>

definition is_set :: "string option \<Rightarrow> bool" where
  "is_set v = (case v of None \<Rightarrow> False | Some s \<Rightarrow> s \<noteq> [])"

definition finance_book_filter :: "string option \<Rightarrow> asset_depreciation_schedule \<Rightarrow> bool" where
  "finance_book_filter fb doc =
     (if is_set fb then finance_book doc = fb else \<not> is_set (finance_book doc))"

definition db_exists ::
  "asset_depreciation_schedule list \<Rightarrow> (asset_depreciation_schedule \<Rightarrow> bool) \<Rightarrow> string option" where
  "db_exists table filters = map_option name (find filters table)"

definition validate_another_asset_depr_schedule_does_not_exist ::
  "asset_depreciation_schedule list \<Rightarrow> asset_depreciation_schedule \<Rightarrow> error + unit" where
  "validate_another_asset_depr_schedule_does_not_exist table self =
     (case db_exists table
             (\<lambda>doc. asset doc = asset self \<and> finance_book_filter (finance_book self) doc
                    \<and> self_docstatus doc < 2) of
        None \<Rightarrow> Inr ()
      | Some asset_depr_schedule \<Rightarrow>
        if asset_depr_schedule \<noteq> [] \<and> asset_depr_schedule \<noteq> name self
        then Inl DuplicateScheduleError else Inr ())"

subsection \<open>Notions used in the statements\<close>

text \<open>A value is at precision \<open>p\<close> when rounding it to \<open>p\<close> places changes nothing.\<close>

definition at_precision :: "nat \<Rightarrow> rat \<Rightarrow> bool" where
  "at_precision p x = (flt_prec x p = x)"


text \<open>A row is processed by the reconciler unless it is booked and booked rows are skipped.\<close>

definition processed :: "bool \<Rightarrow> depr_row \<Rightarrow> bool" where
  "processed ignore_booked_entry d = (\<not> (ignore_booked_entry \<and> has_journal_entry d))"

text \<open>
  The three values one processed iteration of the reconciler computes: the running
  total it continues from, the amount it writes back, and the state it leaves.
\<close>

definition running_total ::
  "asset_depreciation_schedule \<Rightarrow> asset \<Rightarrow> nat \<Rightarrow> accumulation_state \<Rightarrow> rat option" where
  "running_total self a i s =
     (if as_accumulated_depreciation s = None \<or> as_accumulated_depreciation s = Some 0 then
        (if 0 < i \<and> decrease_in_asset_value_due_to_value_adjustment a
         then accumulated_depreciation_amount (as_rows s ! (i - 1))
         else Some (self_opening_accumulated_depreciation self))
      else as_accumulated_depreciation s)"

definition reconciled_amount ::
  "asset_depreciation_schedule \<Rightarrow> finance_book_row \<Rightarrow> date option \<Rightarrow> date option \<Rightarrow> int list
     \<Rightarrow> nat \<Rightarrow> accumulation_state \<Rightarrow> rat" where
  "reconciled_amount self row dod dor sl i s =
     (if is_max_straight_line_idx sl i \<and> dod = None \<and> dor = None
      then flt_prec (depreciation_amount (as_rows s ! i)) (precision_depreciation_amount self)
           + flt_prec (as_value_after_depreciation s
                         - flt_prec (depreciation_amount (as_rows s ! i))
                             (precision_depreciation_amount self)
                         - expected_value_after_useful_life row)
               (precision_depreciation_amount self)
      else flt_prec (depreciation_amount (as_rows s ! i)) (precision_depreciation_amount self))"

definition updated_state ::
  "asset_depreciation_schedule \<Rightarrow> finance_book_row \<Rightarrow> date option \<Rightarrow> date option \<Rightarrow> int list
     \<Rightarrow> nat \<Rightarrow> accumulation_state \<Rightarrow> rat \<Rightarrow> accumulation_state" where
  "updated_state self row dod dor sl i s c =
     \<lparr>as_rows = (as_rows s)
               [i := (as_rows s ! i)
                  \<lparr>depreciation_amount := reconciled_amount self row dod dor sl i s,
                   accumulated_depreciation_amount :=
                     Some (flt_prec (c + reconciled_amount self row dod dor sl i s)
                             (precision_accumulated_depreciation_amount self))\<rparr>],
      as_accumulated_depreciation = Some (c + reconciled_amount self row dod dor sl i s),
      as_value_after_depreciation =
               as_value_after_depreciation s
                 - flt_prec (depreciation_amount (as_rows s ! i))
                     (precision_depreciation_amount self)\<rparr>"

text \<open>The rounded amounts the reconciler subtracts from the running value.\<close>

definition deducted :: "asset_depreciation_schedule \<Rightarrow> bool \<Rightarrow> depr_row list \<Rightarrow> rat" where
  "deducted self ign rows =
     sum_list (map (\<lambda>d. flt_prec (depreciation_amount d) (precision_depreciation_amount self))
                 (filter (processed ign) rows))"

text \<open>
  Monotonic accumulation, from a starting total: each row's accumulated amount is the
  total before it plus its own amount.
\<close>

fun accumulates :: "rat \<Rightarrow> depr_row list \<Rightarrow> bool" where
  "accumulates c [] = True"
| "accumulates c (d # ds) =
     (accumulated_depreciation_amount d = Some (c + depreciation_amount d)
      \<and> accumulates (c + depreciation_amount d) ds)"

text \<open>The rows carry their 1-based positions as \<open>idx\<close>, as frappe numbers child rows.\<close>

definition idx_in_order :: "depr_row list \<Rightarrow> bool" where
  "idx_in_order rows = (map idx rows = map int [1..<Suc (length rows)])"

text \<open>
  A schedule extends another when it differs only by rows added at the end, fresh
  (without journal entry) and numbered on from the rows already there.
\<close>

definition extends :: "asset_depreciation_schedule \<Rightarrow> asset_depreciation_schedule \<Rightarrow> bool" where
  "extends x y =
     (\<exists>new. y = x\<lparr>depreciation_schedule := depreciation_schedule x @ new\<rparr>
            \<and> (\<forall>d\<in>set new. journal_entry d = None)
            \<and> map idx new =
                map int [Suc (length (depreciation_schedule x))..<
                         Suc (length (depreciation_schedule x) + length new)])"

text \<open>
  The date a disposal is pro-rated from (lines 270--275): the schedule date of the last
  row the schedule holds, or, when it holds none, the available-for-use date moved on by
  the booked periods.
\<close>

definition disposal_from_date ::
  "date \<Rightarrow> asset \<Rightarrow> finance_book_row \<Rightarrow> asset_depreciation_schedule \<Rightarrow> date" where
  "disposal_from_date today asset_doc row self =
     (if depreciation_schedule self \<noteq> []
      then schedule_date (last (depreciation_schedule self))
      else add_months (getdate today (available_for_use_date asset_doc))
             (number_of_depreciations_booked asset_doc * frequency_of_depreciation row))"

text \<open>
  The uniqueness invariant: two stored schedules for the same asset and the same finance
  book (an unset and an empty finance book being the same), neither of them cancelled,
  are the same document.
\<close>

definition fb_key :: "string option \<Rightarrow> string option" where
  "fb_key v = (if is_set v then v else None)"

definition same_pair :: "asset_depreciation_schedule \<Rightarrow> asset_depreciation_schedule \<Rightarrow> bool" where
  "same_pair d1 d2 =
     (asset d1 = asset d2 \<and> fb_key (finance_book d1) = fb_key (finance_book d2))"

definition non_cancelled :: "asset_depreciation_schedule \<Rightarrow> bool" where
  "non_cancelled d = (self_docstatus d < 2)"

definition at_most_one_schedule :: "asset_depreciation_schedule list \<Rightarrow> bool" where
  "at_most_one_schedule table =
     (\<forall>d1\<in>set table. \<forall>d2\<in>set table.
        same_pair d1 d2 \<and> non_cancelled d1 \<and> non_cancelled d2 \<longrightarrow> name d1 = name d2)"

text \<open>Projections of results, for stating concrete runs.\<close>

definition amounts_of :: "asset_depreciation_schedule \<Rightarrow> rat list" where
  "amounts_of self = map depreciation_amount (depreciation_schedule self)"

definition made_amounts ::
  "error + (asset_depreciation_schedule \<times> asset \<times> finance_book_row) \<Rightarrow> error + rat list" where
  "made_amounts r = (case r of Inl e \<Rightarrow> Inl e | Inr (self, a, row) \<Rightarrow> Inr (amounts_of self))"

definition reconciled_amounts :: "error + asset_depreciation_schedule \<Rightarrow> error + rat list" where
  "reconciled_amounts r = (case r of Inl e \<Rightarrow> Inl e | Inr self \<Rightarrow> Inr (amounts_of self))"

definition reconciled_accumulated ::
  "error + asset_depreciation_schedule \<Rightarrow> error + rat option list" where
  "reconciled_accumulated r =
     (case r of Inl e \<Rightarrow> Inl e
      | Inr self \<Rightarrow> Inr (map accumulated_depreciation_amount (depreciation_schedule self)))"

definition reconciled_bookings ::
  "error + asset_depreciation_schedule \<Rightarrow> error + (date \<times> rat \<times> string option) list" where
  "reconciled_bookings r =
     (case r of Inl e \<Rightarrow> Inl e
      | Inr self \<Rightarrow>
        Inr (map (\<lambda>d. (schedule_date d, depreciation_amount d, journal_entry d))
               (depreciation_schedule self)))"

subsection \<open>Concrete inputs\<close>

text \<open>
  An asset of 1000 available from 1 January 2020, a written-down-value policy of two
  yearly periods at 50 percent starting on 31 December 2020, and an empty draft
  schedule. All amounts that arise from them are exact binary fractions.
\<close>

definition validate_ok :: "asset \<Rightarrow> finance_book_row \<Rightarrow> error + (asset \<times> finance_book_row)" where
  "validate_ok a r = Inr (a, r)"

definition ex_today :: date where
  "ex_today = Date 2024 1 1"

definition ex_asset :: asset where
  "ex_asset =
     \<lparr>available_for_use_date = Some (Date 2020 1 1), number_of_depreciations_booked = 0,
      gross_purchase_amount = 1000, opening_accumulated_depreciation = 0, docstatus = 0,
      to_date = None, increase_in_asset_life = False,
      increase_in_asset_value_due_to_repair = False,
      decrease_in_asset_value_due_to_value_adjustment = False,
      precision_gross_purchase_amount = 2\<rparr>"

definition ex_row :: finance_book_row where
  "ex_row =
     \<lparr>depreciation_method = ''Written Down Value'', total_number_of_depreciations = 2,
      frequency_of_depreciation = 12, rate_of_depreciation = 50,
      expected_value_after_useful_life = 0, daily_prorata_based = False,
      depreciation_start_date = Date 2020 12 31, value_after_depreciation = 0\<rparr>"

definition ex_self :: asset_depreciation_schedule where
  "ex_self =
     \<lparr>name = ''ADS-0001'', asset = ''ASSET-0001'', finance_book = None, self_docstatus = 0,
      depreciation_schedule = [], self_opening_accumulated_depreciation = 0,
      self_number_of_depreciations_booked = 0,
      self_depreciation_method = ''Written Down Value'',
      precision_depreciation_amount = 2, precision_accumulated_depreciation_amount = 2\<rparr>"

text \<open>The same policy under a method name the engine does not know.\<close>

definition ex_row_unknown :: finance_book_row where
  "ex_row_unknown = ex_row\<lparr>depreciation_method := ''Sum of Years''\<rparr>"

text \<open>The asset without an available-for-use date.\<close>

definition ex_asset_no_date :: asset where
  "ex_asset_no_date = ex_asset\<lparr>available_for_use_date := None\<rparr>"

text \<open>
  A straight-line schedule of three rows of 100 each, numbered 1 to 3, to be reconciled
  against a value of 400 and no residual value; and the schedule the reconciler makes
  of it.
\<close>

definition ex_rows3 :: "depr_row list" where
  "ex_rows3 =
     [\<lparr>idx = 1, schedule_date = Date 2020 12 31, depreciation_amount = 100,
       accumulated_depreciation_amount = None, journal_entry = None\<rparr>,
      \<lparr>idx = 2, schedule_date = Date 2021 12 31, depreciation_amount = 100,
       accumulated_depreciation_amount = None, journal_entry = None\<rparr>,
      \<lparr>idx = 3, schedule_date = Date 2022 12 31, depreciation_amount = 100,
       accumulated_depreciation_amount = None, journal_entry = None\<rparr>]"

definition ex_self_sl :: asset_depreciation_schedule where
  "ex_self_sl =
     ex_self\<lparr>self_depreciation_method := ''Straight Line'', depreciation_schedule := ex_rows3\<rparr>"

definition ex_row_sl :: finance_book_row where
  "ex_row_sl =
     ex_row\<lparr>depreciation_method := ''Straight Line'', total_number_of_depreciations := 3,
            value_after_depreciation := 400\<rparr>"

definition ex_self_sl_reconciled :: asset_depreciation_schedule where
  "ex_self_sl_reconciled =
     ex_self_sl\<lparr>depreciation_schedule :=
       [\<lparr>idx = 1, schedule_date = Date 2020 12 31, depreciation_amount = 100,
         accumulated_depreciation_amount = Some 100, journal_entry = None\<rparr>,
        \<lparr>idx = 2, schedule_date = Date 2021 12 31, depreciation_amount = 100,
         accumulated_depreciation_amount = Some 200, journal_entry = None\<rparr>,
        \<lparr>idx = 3, schedule_date = Date 2022 12 31, depreciation_amount = 200,
         accumulated_depreciation_amount = Some 400, journal_entry = None\<rparr>]\<rparr>"

text \<open>
  A schedule whose first row is booked (journal entry JE-0001, accumulated 100) and whose
  second row is not.
\<close>

definition ex_rows_booked :: "depr_row list" where
  "ex_rows_booked =
     [\<lparr>idx = 1, schedule_date = Date 2020 12 31, depreciation_amount = 100,
       accumulated_depreciation_amount = Some 100, journal_entry = Some ''JE-0001''\<rparr>,
      \<lparr>idx = 2, schedule_date = Date 2021 12 31, depreciation_amount = 100,
       accumulated_depreciation_amount = None, journal_entry = None\<rparr>]"

definition ex_self_booked :: asset_depreciation_schedule where
  "ex_self_booked = ex_self\<lparr>depreciation_schedule := ex_rows_booked\<rparr>"

text \<open>
  The straight-line policy of two yearly periods for the asset of 1000, an empty
  straight-line draft, and the schedule that regeneration makes of them.
\<close>

definition ex_row_sl2 :: finance_book_row where
  "ex_row_sl2 = ex_row\<lparr>depreciation_method := ''Straight Line''\<rparr>"



text \<open>
  An asset of 300 under a straight-line policy of three yearly periods, with a schedule
  whose first row is booked, whose second is not, and whose third is booked again, out of
  step (150 on 30 June 2022).
\<close>

definition ex_asset300 :: asset where
  "ex_asset300 = ex_asset\<lparr>gross_purchase_amount := 300\<rparr>"

definition ex_row_sl3 :: finance_book_row where
  "ex_row_sl3 =
     ex_row\<lparr>depreciation_method := ''Straight Line'', total_number_of_depreciations := 3\<rparr>"

definition ex_self_gap :: asset_depreciation_schedule where
  "ex_self_gap =
     ex_self\<lparr>self_depreciation_method := ''Straight Line'',
       depreciation_schedule :=
         [\<lparr>idx = 1, schedule_date = Date 2020 12 31, depreciation_amount = 100,
           accumulated_depreciation_amount = Some 100, journal_entry = Some ''JE-0001''\<rparr>,
          \<lparr>idx = 2, schedule_date = Date 2021 12 31, depreciation_amount = 100,
           accumulated_depreciation_amount = Some 200, journal_entry = None\<rparr>,
          \<lparr>idx = 3, schedule_date = Date 2022 6 30, depreciation_amount = 150,
           accumulated_depreciation_amount = Some 350, journal_entry = Some ''JE-0003''\<rparr>]\<rparr>"

text \<open>The schedule with a booked first row, regenerated with booked rows skipped.\<close>

definition ex_self_booked_regenerated :: asset_depreciation_schedule where
  "ex_self_booked_regenerated =
     ex_self\<lparr>depreciation_schedule :=
       [\<lparr>idx = 1, schedule_date = Date 2020 12 31, depreciation_amount = 100,
         accumulated_depreciation_amount = Some 100, journal_entry = Some ''JE-0001''\<rparr>,
        \<lparr>idx = 2, schedule_date = Date 2021 12 31, depreciation_amount = 500,
         accumulated_depreciation_amount = Some 500, journal_entry = None\<rparr>]\<rparr>"

text \<open>A disposal on 1 July 2020, 182 days after the asset became available.\<close>

definition ex_disposal :: date where
  "ex_disposal = Date 2020 7 1"

definition ex_row_made :: finance_book_row where
  "ex_row_made = ex_row\<lparr>value_after_depreciation := 1000\<rparr>"

definition ex_locals :: loop_locals where
  "ex_locals = init_loop_locals ex_today ex_self ex_asset ex_row_made 0"

text \<open>
  An existing asset: available from 1 July 2020, so that the first period is partial, with
  an opening accumulated depreciation of 100, under the straight-line policy of two
  yearly periods.
\<close>

definition ex_asset_existing :: asset where
  "ex_asset_existing =
     ex_asset\<lparr>available_for_use_date := Some (Date 2020 7 1),
              opening_accumulated_depreciation := 100\<rparr>"

definition ex_self_existing :: asset_depreciation_schedule where
  "ex_self_existing =
     ex_self\<lparr>self_depreciation_method := ''Straight Line'',
             self_opening_accumulated_depreciation := 100\<rparr>"

definition ex_row_existing :: finance_book_row where
  "ex_row_existing = ex_row_sl2\<lparr>value_after_depreciation := 900\<rparr>"

definition ex_locals_existing :: loop_locals where
  "ex_locals_existing =
     init_loop_locals ex_today ex_self_existing ex_asset_existing ex_row_existing 0"

definition ex_state_existing :: loop_state where
  "ex_state_existing =
     \<lparr>ls_self = ex_self_existing, ls_asset_doc = ex_asset_existing,
      ls_value_after_depreciation = 900, ls_skip_row = False,
      ls_schedule_date = None, ls_break = False\<rparr>"




text \<open>Another draft schedule for the same asset and finance book.\<close>

definition ex_other :: asset_depreciation_schedule where
  "ex_other = ex_self\<lparr>name := ''ADS-0002''\<rparr>"

text \<open>
  The asset under a value adjustment (the decrease-in-asset-value flag set), and the
  schedule with a booked first row as the reconciler leaves it then, booked rows skipped.
\<close>

definition ex_asset_adjusted :: asset where
  "ex_asset_adjusted = ex_asset\<lparr>decrease_in_asset_value_due_to_value_adjustment := True\<rparr>"

definition ex_self_booked_adjusted :: asset_depreciation_schedule where
  "ex_self_booked_adjusted =
     ex_self\<lparr>depreciation_schedule :=
       [\<lparr>idx = 1, schedule_date = Date 2020 12 31, depreciation_amount = 100,
         accumulated_depreciation_amount = Some 100, journal_entry = Some ''JE-0001''\<rparr>,
        \<lparr>idx = 2, schedule_date = Date 2021 12 31, depreciation_amount = 100,
         accumulated_depreciation_amount = Some 200, journal_entry = None\<rparr>]\<rparr>"

text \<open>
  The written-down-value policy with no period at all, with the policy row and the loop
  variables that generation makes of it.
\<close>

definition ex_row_no_period :: finance_book_row where
  "ex_row_no_period = ex_row\<lparr>total_number_of_depreciations := 0\<rparr>"

definition ex_row_no_period_made :: finance_book_row where
  "ex_row_no_period_made = ex_row_no_period\<lparr>value_after_depreciation := 1000\<rparr>"

definition ex_locals_no_period :: loop_locals where
  "ex_locals_no_period = init_loop_locals ex_today ex_self ex_asset ex_row_no_period_made 0"

text \<open>
  A written-down-value schedule with an opening accumulated depreciation of 100, under a
  policy of 95 percent a year with a residual value of 100, for the asset of 1000 that
  is available from 2020-07-01 and has 100 of opening accumulated depreciation.
\<close>

definition ex_self_residual :: asset_depreciation_schedule where
  "ex_self_residual = ex_self\<lparr>self_opening_accumulated_depreciation := 100\<rparr>"

definition ex_row_wdv95 :: finance_book_row where
  "ex_row_wdv95 = ex_row\<lparr>rate_of_depreciation := 95, expected_value_after_useful_life := 100\<rparr>"

definition ex_locals_wdv95 :: loop_locals where
  "ex_locals_wdv95 =
     init_loop_locals ex_today ex_self_residual ex_asset_existing
       (ex_row_wdv95\<lparr>value_after_depreciation := 900\<rparr>) 0"

subsection \<open>Rounding\<close>



lemma round_half_even_of_int: "round_half_even (of_int k) = k"
  unfolding round_half_even_def Let_def by simp


lemma at_precision_iff: "at_precision p x \<longleftrightarrow> (\<exists>k::int. x = of_int k / 10 ^ p)"
proof
  assume "at_precision p x"
  then show "\<exists>k::int. x = of_int k / 10 ^ p"
    unfolding at_precision_def flt_prec_def by metis
next
  assume "\<exists>k::int. x = of_int k / 10 ^ p"
  then obtain k :: int where "x = of_int k / 10 ^ p" by blast
  then show "at_precision p x"
    unfolding at_precision_def flt_prec_def by (simp add: round_half_even_of_int)
qed

lemma at_precision_flt_prec: "at_precision p (flt_prec x p)"
  unfolding at_precision_iff flt_prec_def by blast

lemma at_precision_add: "at_precision p x \<Longrightarrow> at_precision p y \<Longrightarrow> at_precision p (x + y)"
  unfolding at_precision_iff
proof -
  assume "\<exists>k::int. x = of_int k / 10 ^ p" "\<exists>k::int. y = of_int k / 10 ^ p"
  then obtain k l :: int where "x = of_int k / 10 ^ p" "y = of_int l / 10 ^ p" by blast
  then have "x + y = of_int (k + l) / 10 ^ p" by (simp add: add_divide_distrib)
  then show "\<exists>k::int. x + y = of_int k / 10 ^ p" by blast
qed

lemma at_precision_mono: "p \<le> q \<Longrightarrow> at_precision p x \<Longrightarrow> at_precision q x"
  unfolding at_precision_iff
proof -
  assume pq: "p \<le> q" and "\<exists>k::int. x = of_int k / 10 ^ p"
  then obtain k :: int where x: "x = of_int k / 10 ^ p" by blast
  have "(10::rat) ^ q = 10 ^ p * 10 ^ (q - p)" using pq by (simp flip: power_add)
  then have "x = of_int (k * 10 ^ (q - p)) / 10 ^ q" using x by simp
  then show "\<exists>k::int. x = of_int k / 10 ^ q" by blast
qed

lemma flt_prec_nonneg: "0 \<le> x \<Longrightarrow> 0 \<le> flt_prec x p"
proof -
  assume "0 \<le> x"
  then have "0 \<le> x * 10 ^ p" by simp
  then have "0 \<le> round_half_even (x * 10 ^ p)"
    unfolding round_half_even_def Let_def by (auto split: if_splits) 
  then show ?thesis unfolding flt_prec_def by simp
qed

subsection \<open>Binary64 numbers and remainders\<close>














lemma divisors_of_twelve_exact:
  assumes "f \<in> {1, 2, 3, 4, 6}"
  shows "float_round (12 / of_int f) = 12 / of_int f"
proof -
  have "float_round (12 / of_int (1::int)) = 12 / of_int (1::int)" by code_simp
  moreover have "float_round (12 / of_int (2::int)) = 12 / of_int (2::int)" by code_simp
  moreover have "float_round (12 / of_int (3::int)) = 12 / of_int (3::int)" by code_simp
  moreover have "float_round (12 / of_int (4::int)) = 12 / of_int (4::int)" by code_simp
  moreover have "float_round (12 / of_int (6::int)) = 12 / of_int (6::int)" by code_simp
  ultimately show ?thesis using assms by auto
qed

subsection \<open>The reconciler, step by step\<close>

lemma sad_iteration_skip:
  "\<not> processed ign (as_rows s ! i) \<Longrightarrow>
   set_accumulated_depreciation_iteration self a row dod dor ign sl i s = Inr s"
  by (simp add: set_accumulated_depreciation_iteration_def processed_def Let_def)

lemma sad_iteration_unfold:
  "processed ign (as_rows s ! i) \<Longrightarrow>
   set_accumulated_depreciation_iteration self a row dod dor ign sl i s =
     (case running_total self a i s of
        None \<Rightarrow> Inl TypeError
      | Some c \<Rightarrow> Inr (updated_state self row dod dor sl i s c))"
proof -
  assume "processed ign (as_rows s ! i)"
  then have np: "(ign \<and> has_journal_entry (as_rows s ! i)) = False"
    by (simp add: processed_def)
  show ?thesis
    unfolding set_accumulated_depreciation_iteration_def Let_def np if_False
      running_total_def reconciled_amount_def updated_state_def
    by (rule refl)
qed

lemma updated_state_simps:
  "as_accumulated_depreciation (updated_state self row dod dor sl i s c) =
     Some (c + reconciled_amount self row dod dor sl i s)"
  "as_value_after_depreciation (updated_state self row dod dor sl i s c) =
     as_value_after_depreciation s
       - flt_prec (depreciation_amount (as_rows s ! i)) (precision_depreciation_amount self)"
  "length (as_rows (updated_state self row dod dor sl i s c)) = length (as_rows s)"
  "j \<noteq> i \<Longrightarrow> as_rows (updated_state self row dod dor sl i s c) ! j = as_rows s ! j"
  "i < length (as_rows s) \<Longrightarrow>
     as_rows (updated_state self row dod dor sl i s c) ! i =
       (as_rows s ! i)
         \<lparr>depreciation_amount := reconciled_amount self row dod dor sl i s,
          accumulated_depreciation_amount :=
            Some (flt_prec (c + reconciled_amount self row dod dor sl i s)
                    (precision_accumulated_depreciation_amount self))\<rparr>"
  by (simp_all add: updated_state_def)

lemma updated_state_static:
  "schedule_date (as_rows (updated_state self row dod dor sl i s c) ! j)
     = schedule_date (as_rows s ! j)"
  "journal_entry (as_rows (updated_state self row dod dor sl i s c) ! j)
     = journal_entry (as_rows s ! j)"
  "idx (as_rows (updated_state self row dod dor sl i s c) ! j) = idx (as_rows s ! j)"
proof -
  consider "j \<noteq> i" | "j = i" "i < length (as_rows s)" | "j = i" "length (as_rows s) \<le> i"
    by linarith
  then have "schedule_date (as_rows (updated_state self row dod dor sl i s c) ! j)
     = schedule_date (as_rows s ! j) \<and>
    journal_entry (as_rows (updated_state self row dod dor sl i s c) ! j)
     = journal_entry (as_rows s ! j) \<and>
    idx (as_rows (updated_state self row dod dor sl i s c) ! j) = idx (as_rows s ! j)"
  proof cases
    case 1
    then show ?thesis by (simp add: updated_state_simps)
  next
    case 2
    then show ?thesis by (simp add: updated_state_simps)
  next
    case 3
    then show ?thesis by (simp add: updated_state_def list_update_beyond)
  qed
  then show "schedule_date (as_rows (updated_state self row dod dor sl i s c) ! j)
     = schedule_date (as_rows s ! j)"
  "journal_entry (as_rows (updated_state self row dod dor sl i s c) ! j)
     = journal_entry (as_rows s ! j)"
  "idx (as_rows (updated_state self row dod dor sl i s c) ! j) = idx (as_rows s ! j)"
    by simp_all
qed

lemma sad_iteration_cases:
  assumes "set_accumulated_depreciation_iteration self a row dod dor ign sl i s = Inr s'"
  obtains (skipped) "\<not> processed ign (as_rows s ! i)" "s' = s"
  | (updated) c where "processed ign (as_rows s ! i)" "running_total self a i s = Some c"
      "s' = updated_state self row dod dor sl i s c"
proof (cases "processed ign (as_rows s ! i)")
  case False
  have "set_accumulated_depreciation_iteration self a row dod dor ign sl i s = Inr s"
    by (rule sad_iteration_skip[OF False])
  then have "Inr s' = (Inr s :: error + accumulation_state)"
    by (simp only: assms)
  then have "s' = s" by (simp only: sum.inject)
  then show ?thesis by (rule skipped[OF False])
next
  case True
  show ?thesis
  proof (cases "running_total self a i s")
    case None
    have "set_accumulated_depreciation_iteration self a row dod dor ign sl i s = Inl TypeError"
      by (simp only: sad_iteration_unfold[OF True] None option.case)
    then have "Inr s' = (Inl TypeError :: error + accumulation_state)"
      by (simp only: assms)
    then show ?thesis by simp
  next
    case (Some c)
    have "set_accumulated_depreciation_iteration self a row dod dor ign sl i s =
            Inr (updated_state self row dod dor sl i s c)"
      by (simp only: sad_iteration_unfold[OF True] Some option.case)
    then have "Inr s' = (Inr (updated_state self row dod dor sl i s c)
                          :: error + accumulation_state)"
      by (simp only: assms)
    then have "s' = updated_state self row dod dor sl i s c" by (simp only: sum.inject)
    then show ?thesis by (rule updated[OF True Some])
  qed
qed

lemma sad_iteration_length:
  assumes "set_accumulated_depreciation_iteration self a row dod dor ign sl i s = Inr s'"
  shows "length (as_rows s') = length (as_rows s)"
  using assms by (cases rule: sad_iteration_cases) (simp_all add: updated_state_simps)

lemma sad_iteration_other:
  assumes "set_accumulated_depreciation_iteration self a row dod dor ign sl i s = Inr s'"
    and "j \<noteq> i"
  shows "as_rows s' ! j = as_rows s ! j"
  using assms by (cases rule: sad_iteration_cases) (simp_all add: updated_state_simps)

lemma sad_iteration_static:
  assumes "set_accumulated_depreciation_iteration self a row dod dor ign sl i s = Inr s'"
  shows "schedule_date (as_rows s' ! j) = schedule_date (as_rows s ! j)
   \<and> journal_entry (as_rows s' ! j) = journal_entry (as_rows s ! j)
   \<and> idx (as_rows s' ! j) = idx (as_rows s ! j)"
  using assms by (cases rule: sad_iteration_cases) (simp_all add: updated_state_static)

lemma sad_loop_Cons_Inr:
  assumes "set_accumulated_depreciation_loop self a row dod dor ign sl (i # is) s = Inr s'"
  obtains s1 where
    "set_accumulated_depreciation_iteration self a row dod dor ign sl i s = Inr s1"
    "set_accumulated_depreciation_loop self a row dod dor ign sl is s1 = Inr s'"
proof (cases "set_accumulated_depreciation_iteration self a row dod dor ign sl i s")
  case (Inl e)
  with assms show ?thesis by simp
next
  case (Inr s1)
  with assms have "set_accumulated_depreciation_loop self a row dod dor ign sl is s1 = Inr s'"
    by simp
  with Inr show ?thesis by (rule that)
qed

lemma sad_loop_append:
  "set_accumulated_depreciation_loop self a row dod dor ign sl (xs @ ys) s =
     (case set_accumulated_depreciation_loop self a row dod dor ign sl xs s of
        Inl e \<Rightarrow> Inl e
      | Inr s' \<Rightarrow> set_accumulated_depreciation_loop self a row dod dor ign sl ys s')"
proof (induction xs arbitrary: s)
  case Nil
  show ?case by simp
next
  case (Cons x xs)
  show ?case
    by (cases "set_accumulated_depreciation_iteration self a row dod dor ign sl x s")
       (simp_all add: Cons.IH)
qed

lemma sad_loop_snoc_Inr:
  assumes "set_accumulated_depreciation_loop self a row dod dor ign sl (xs @ [i]) s = Inr s'"
  obtains s1 where
    "set_accumulated_depreciation_loop self a row dod dor ign sl xs s = Inr s1"
    "set_accumulated_depreciation_iteration self a row dod dor ign sl i s1 = Inr s'"
proof (cases "set_accumulated_depreciation_loop self a row dod dor ign sl xs s")
  case (Inl e)
  with assms show ?thesis by (simp add: sad_loop_append)
next
  case (Inr s1)
  with assms have
    "set_accumulated_depreciation_loop self a row dod dor ign sl [i] s1 = Inr s'"
    by (simp add: sad_loop_append)
  then have "set_accumulated_depreciation_iteration self a row dod dor ign sl i s1 = Inr s'"
    by (cases "set_accumulated_depreciation_iteration self a row dod dor ign sl i s1") simp_all
  with Inr show ?thesis by (rule that)
qed

lemma sad_loop_length:
  "set_accumulated_depreciation_loop self a row dod dor ign sl is s = Inr s' \<Longrightarrow>
   length (as_rows s') = length (as_rows s)"
proof (induction "is" arbitrary: s)
  case Nil
  then show ?case by simp
next
  case (Cons i "is")
  from Cons.prems obtain s1 where
    s1: "set_accumulated_depreciation_iteration self a row dod dor ign sl i s = Inr s1"
    and rest: "set_accumulated_depreciation_loop self a row dod dor ign sl is s1 = Inr s'"
    by (rule sad_loop_Cons_Inr)
  from Cons.IH[OF rest] sad_iteration_length[OF s1] show ?case by simp
qed

lemma sad_loop_other:
  "set_accumulated_depreciation_loop self a row dod dor ign sl is s = Inr s' \<Longrightarrow>
   j \<notin> set is \<Longrightarrow> as_rows s' ! j = as_rows s ! j"
proof (induction "is" arbitrary: s)
  case Nil
  then show ?case by simp
next
  case (Cons i "is")
  from Cons.prems(1) obtain s1 where
    s1: "set_accumulated_depreciation_iteration self a row dod dor ign sl i s = Inr s1"
    and rest: "set_accumulated_depreciation_loop self a row dod dor ign sl is s1 = Inr s'"
    by (rule sad_loop_Cons_Inr)
  from Cons.prems(2) have ji: "j \<noteq> i" and jis: "j \<notin> set is" by simp_all
  from Cons.IH[OF rest jis] sad_iteration_other[OF s1 ji] show ?case by simp
qed

lemma sad_loop_static:
  "set_accumulated_depreciation_loop self a row dod dor ign sl is s = Inr s' \<Longrightarrow>
   schedule_date (as_rows s' ! j) = schedule_date (as_rows s ! j)
   \<and> journal_entry (as_rows s' ! j) = journal_entry (as_rows s ! j)
   \<and> idx (as_rows s' ! j) = idx (as_rows s ! j)"
proof (induction "is" arbitrary: s)
  case Nil
  then show ?case by simp
next
  case (Cons i "is")
  from Cons.prems(1) obtain s1 where
    s1: "set_accumulated_depreciation_iteration self a row dod dor ign sl i s = Inr s1"
    and rest: "set_accumulated_depreciation_loop self a row dod dor ign sl is s1 = Inr s'"
    by (rule sad_loop_Cons_Inr)
  from Cons.IH[OF rest] sad_iteration_static[OF s1, of j] show ?case by simp
qed

lemma deducted_snoc:
  "deducted self ign (rows @ [d]) =
     deducted self ign rows
     + (if processed ign d then flt_prec (depreciation_amount d) (precision_depreciation_amount self)
        else 0)"
  by (simp add: deducted_def)

lemma sad_prefix:
  assumes "k \<le> length rows0"
    and "set_accumulated_depreciation_loop self a row dod dor ign sl [0..<k]
           \<lparr>as_rows = rows0, as_accumulated_depreciation = None,
            as_value_after_depreciation = V\<rparr> = Inr s"
  shows "as_value_after_depreciation s = V - deducted self ign (take k rows0)
         \<and> (\<forall>j\<ge>k. as_rows s ! j = rows0 ! j) \<and> length (as_rows s) = length rows0"
  using assms
proof (induction k arbitrary: s)
  case 0
  from "0.prems"(2) have "s = \<lparr>as_rows = rows0, as_accumulated_depreciation = None,
            as_value_after_depreciation = V\<rparr>" by simp
  then show ?case by (simp add: deducted_def)
next
  case (Suc k)
  from Suc.prems(2) have "set_accumulated_depreciation_loop self a row dod dor ign sl ([0..<k] @ [k])
           \<lparr>as_rows = rows0, as_accumulated_depreciation = None,
            as_value_after_depreciation = V\<rparr> = Inr s" by simp
  then obtain s1 where
    pre: "set_accumulated_depreciation_loop self a row dod dor ign sl [0..<k]
           \<lparr>as_rows = rows0, as_accumulated_depreciation = None,
            as_value_after_depreciation = V\<rparr> = Inr s1"
    and step: "set_accumulated_depreciation_iteration self a row dod dor ign sl k s1 = Inr s"
    by (rule sad_loop_snoc_Inr)
  from Suc.prems(1) have k: "k < length rows0" and k': "k \<le> length rows0" by simp_all
  from Suc.IH[OF k' pre] have
    v1: "as_value_after_depreciation s1 = V - deducted self ign (take k rows0)"
    and r1: "\<forall>j\<ge>k. as_rows s1 ! j = rows0 ! j"
    and l1: "length (as_rows s1) = length rows0" by simp_all
  have rk: "as_rows s1 ! k = rows0 ! k" using r1 by simp
  have tk: "take (Suc k) rows0 = take k rows0 @ [rows0 ! k]"
    using k by (simp add: take_Suc_conv_app_nth)
  have val: "as_value_after_depreciation s = V - deducted self ign (take (Suc k) rows0)"
    using step
  proof (cases rule: sad_iteration_cases)
    case skipped
    then show ?thesis using rk v1 by (simp add: tk deducted_snoc)
  next
    case (updated c)
    then show ?thesis using rk v1 by (simp add: tk deducted_snoc updated_state_simps)
  qed
  have "\<forall>j\<ge>Suc k. as_rows s ! j = rows0 ! j"
    using sad_iteration_other[OF step] r1 by simp
  with val sad_iteration_length[OF step] l1 show ?case by simp
qed

lemma fold_max_upt: "fold max (map int [Suc m..<Suc n]) (int m) = int (max m n)"
proof (induction n)
  case 0
  then show ?case by simp
next
  case (Suc n)
  show ?case
  proof (cases "Suc m \<le> Suc n")
    case True
    then have "[Suc m..<Suc (Suc n)] = [Suc m..<Suc n] @ [Suc n]" by simp
    then show ?thesis using Suc True by (simp add: max_def)
  next
    case False
    then show ?thesis using Suc by (simp add: max_def)
  qed
qed

lemma is_max_idx_in_order:
  assumes "idx_in_order rows"
  shows "is_max_straight_line_idx (map idx rows) i \<longleftrightarrow> Suc i = length rows"
proof (cases rows)
  case Nil
  then show ?thesis by (simp add: is_max_straight_line_idx_def)
next
  case (Cons d ds)
  have "map idx rows = int 1 # map int [Suc 1..<Suc (length rows)]"
    using assms Cons by (simp add: idx_in_order_def upt_conv_Cons del: upt_Suc)
  then have "is_max_straight_line_idx (map idx rows) i
               \<longleftrightarrow> int i = fold max (map int [Suc 1..<Suc (length rows)]) (int 1) - 1"
    by (simp add: is_max_straight_line_idx_def)
  also have "\<dots> \<longleftrightarrow> int i = int (max 1 (length rows)) - 1"
    by (simp only: fold_max_upt)
  also have "\<dots> \<longleftrightarrow> Suc i = length rows" using Cons by (auto simp: max_def)
  finally show ?thesis .
qed

lemma sad_split_at:
  assumes "i < n"
    and "set_accumulated_depreciation_loop self a row dod dor ign sl [0..<n] s0 = Inr sf"
  obtains si si' where
    "set_accumulated_depreciation_loop self a row dod dor ign sl [0..<i] s0 = Inr si"
    "set_accumulated_depreciation_iteration self a row dod dor ign sl i si = Inr si'"
    "set_accumulated_depreciation_loop self a row dod dor ign sl [Suc i..<n] si' = Inr sf"
proof -
  have "[0..<i + (n - i)] = [0..<i] @ [i..<i + (n - i)]"
    by (rule upt_add_eq_append) simp
  moreover have "i + (n - i) = n" using assms(1) by simp
  moreover have "[i..<n] = i # [Suc i..<n]" using assms(1) by (rule upt_conv_Cons)
  ultimately have "[0..<n] = [0..<i] @ (i # [Suc i..<n])" by simp
  with assms(2) have e:
    "set_accumulated_depreciation_loop self a row dod dor ign sl ([0..<i] @ (i # [Suc i..<n])) s0
       = Inr sf" by simp
  show ?thesis
  proof (cases "set_accumulated_depreciation_loop self a row dod dor ign sl [0..<i] s0")
    case (Inl e')
    with e show ?thesis by (simp add: sad_loop_append)
  next
    case (Inr si)
    with e have "set_accumulated_depreciation_loop self a row dod dor ign sl (i # [Suc i..<n]) si
       = Inr sf" by (simp add: sad_loop_append)
    then obtain si' where
      "set_accumulated_depreciation_iteration self a row dod dor ign sl i si = Inr si'"
      "set_accumulated_depreciation_loop self a row dod dor ign sl [Suc i..<n] si' = Inr sf"
      by (rule sad_loop_Cons_Inr)
    with Inr show ?thesis by (rule that)
  qed
qed

text \<open>The amount the reconciler leaves in row i.\<close>

lemma sad_row_amount:
  assumes i: "i < length rows0"
    and run: "set_accumulated_depreciation_loop self a row dod dor ign sl [0..<length rows0]
           \<lparr>as_rows = rows0, as_accumulated_depreciation = None,
            as_value_after_depreciation = V\<rparr> = Inr sf"
  shows "depreciation_amount (as_rows sf ! i) =
          (if processed ign (rows0 ! i) then
             flt_prec (depreciation_amount (rows0 ! i)) (precision_depreciation_amount self)
             + (if is_max_straight_line_idx sl i \<and> dod = None \<and> dor = None
                then flt_prec (V - deducted self ign (take (Suc i) rows0)
                                 - expected_value_after_useful_life row)
                       (precision_depreciation_amount self)
                else 0)
           else depreciation_amount (rows0 ! i))"
proof -
  from i run obtain si si' where
    pre: "set_accumulated_depreciation_loop self a row dod dor ign sl [0..<i]
           \<lparr>as_rows = rows0, as_accumulated_depreciation = None,
            as_value_after_depreciation = V\<rparr> = Inr si"
    and step: "set_accumulated_depreciation_iteration self a row dod dor ign sl i si = Inr si'"
    and post: "set_accumulated_depreciation_loop self a row dod dor ign sl [Suc i..<length rows0] si'
                 = Inr sf"
    by (rule sad_split_at)
  from i have i': "i \<le> length rows0" by simp
  from sad_prefix[OF i' pre] have
    v: "as_value_after_depreciation si = V - deducted self ign (take i rows0)"
    and r: "as_rows si ! i = rows0 ! i"
    and l: "length (as_rows si) = length rows0" by simp_all
  have fin: "as_rows sf ! i = as_rows si' ! i"
    by (rule sad_loop_other[OF post]) simp
  have tk: "take (Suc i) rows0 = take i rows0 @ [rows0 ! i]"
    using i by (simp add: take_Suc_conv_app_nth)
  from step show ?thesis
  proof (cases rule: sad_iteration_cases)
    case skipped
    then show ?thesis using fin r by simp
  next
    case (updated c)
    from updated(1) r have p: "processed ign (rows0 ! i)" by simp
    have am: "depreciation_amount (as_rows si' ! i) = reconciled_amount self row dod dor sl i si"
      using updated(3) i l by (simp add: updated_state_simps)
    have val: "as_value_after_depreciation si
                 - flt_prec (depreciation_amount (rows0 ! i)) (precision_depreciation_amount self)
               = V - deducted self ign (take (Suc i) rows0)"
      using v p by (simp add: tk deducted_snoc)
    have "reconciled_amount self row dod dor sl i si =
            flt_prec (depreciation_amount (rows0 ! i)) (precision_depreciation_amount self)
             + (if is_max_straight_line_idx sl i \<and> dod = None \<and> dor = None
                then flt_prec (V - deducted self ign (take (Suc i) rows0)
                                 - expected_value_after_useful_life row)
                       (precision_depreciation_amount self)
                else 0)"
      unfolding reconciled_amount_def r val by simp
    with am fin p show ?thesis by simp
  qed
qed

lemma accumulates_snoc:
  "accumulates c (xs @ [d]) \<longleftrightarrow>
     accumulates c xs
     \<and> accumulated_depreciation_amount d =
         Some (c + sum_list (map depreciation_amount xs) + depreciation_amount d)"
  by (induction xs arbitrary: c) (auto simp: add.assoc)

lemma accumulates_last:
  "accumulates c xs \<Longrightarrow> xs \<noteq> [] \<Longrightarrow>
   accumulated_depreciation_amount (last xs) = Some (c + sum_list (map depreciation_amount xs))"
  by (induction xs arbitrary: c) (auto simp: add.assoc)

lemma reconciled_amount_at_precision:
  "at_precision (precision_depreciation_amount self) (reconciled_amount self row dod dor sl i s)"
  unfolding reconciled_amount_def
  by (simp add: at_precision_add at_precision_flt_prec)

lemma sad_chain_prefix:
  assumes sl_last: "\<And>j. is_max_straight_line_idx sl j \<Longrightarrow> Suc j = length rows0"
    and nonneg: "\<forall>d\<in>set rows0. 0 \<le> depreciation_amount d"
    and op: "0 \<le> self_opening_accumulated_depreciation self"
    and prec: "precision_depreciation_amount self \<le> precision_accumulated_depreciation_amount self"
    and opp: "at_precision (precision_accumulated_depreciation_amount self)
                (self_opening_accumulated_depreciation self)"
    and k: "k \<le> length rows0"
    and run: "set_accumulated_depreciation_loop self a row dod dor False sl [0..<k]
           \<lparr>as_rows = rows0, as_accumulated_depreciation = None,
            as_value_after_depreciation = V\<rparr> = Inr s"
  shows "accumulates (self_opening_accumulated_depreciation self) (take k (as_rows s))
        \<and> as_accumulated_depreciation s =
            (if k = 0 then None
             else Some (self_opening_accumulated_depreciation self
                          + sum_list (map depreciation_amount (take k (as_rows s)))))
        \<and> at_precision (precision_accumulated_depreciation_amount self)
            (self_opening_accumulated_depreciation self
               + sum_list (map depreciation_amount (take k (as_rows s))))
        \<and> (k < length rows0 \<longrightarrow> (\<forall>d\<in>set (take k (as_rows s)). 0 \<le> depreciation_amount d))"
  using k run
proof (induction k arbitrary: s)
  case 0
  from "0.prems"(2) have "s = \<lparr>as_rows = rows0, as_accumulated_depreciation = None,
            as_value_after_depreciation = V\<rparr>" by simp
  then show ?case using opp by simp
next
  case (Suc k)
  let ?o = "self_opening_accumulated_depreciation self"
  let ?pc = "precision_accumulated_depreciation_amount self"
  from Suc.prems(2) have "set_accumulated_depreciation_loop self a row dod dor False sl ([0..<k] @ [k])
           \<lparr>as_rows = rows0, as_accumulated_depreciation = None,
            as_value_after_depreciation = V\<rparr> = Inr s" by simp
  then obtain s1 where
    pre: "set_accumulated_depreciation_loop self a row dod dor False sl [0..<k]
           \<lparr>as_rows = rows0, as_accumulated_depreciation = None,
            as_value_after_depreciation = V\<rparr> = Inr s1"
    and step: "set_accumulated_depreciation_iteration self a row dod dor False sl k s1 = Inr s"
    by (rule sad_loop_snoc_Inr)
  from Suc.prems(1) have kn: "k < length rows0" and k': "k \<le> length rows0" by simp_all
  let ?xs = "take k (as_rows s1)"
  let ?R = "?o + sum_list (map depreciation_amount ?xs)"
  from Suc.IH[OF k' pre] kn have
    A1: "accumulates ?o ?xs"
    and B1: "as_accumulated_depreciation s1 = (if k = 0 then None else Some ?R)"
    and C1: "at_precision ?pc ?R"
    and D1: "\<forall>d\<in>set ?xs. 0 \<le> depreciation_amount d" by simp_all
  from sad_prefix[OF k' pre] have
    rk: "as_rows s1 ! k = rows0 ! k" and l1: "length (as_rows s1) = length rows0" by simp_all
  have proc: "processed False (as_rows s1 ! k)" by (simp add: processed_def)
  from step obtain c where
    rt: "running_total self a k s1 = Some c"
    and s: "s = updated_state self row dod dor sl k s1 c"
    using proc by (cases rule: sad_iteration_cases) simp_all
  let ?am = "reconciled_amount self row dod dor sl k s1"
  have c: "c = ?R"
  proof (cases "k = 0")
    case True
    with rt B1 show ?thesis by (simp add: running_total_def)
  next
    case False
    then have xs: "?xs \<noteq> []" using kn l1 by auto
    have lenx: "length ?xs = k" using kn l1 by simp
    have "last ?xs = ?xs ! (length ?xs - 1)" using xs by (rule last_conv_nth)
    also have "\<dots> = ?xs ! (k - 1)" by (simp only: lenx)
    also have "\<dots> = as_rows s1 ! (k - 1)" using False by simp
    finally have lastx: "last ?xs = as_rows s1 ! (k - 1)" .
    show ?thesis
    proof (cases "?R = 0")
      case R0: True
      show ?thesis
      proof (cases "decrease_in_asset_value_due_to_value_adjustment a")
        case True
        from accumulates_last[OF A1 xs] lastx
        have "accumulated_depreciation_amount (as_rows s1 ! (k - 1)) = Some ?R" by simp
        with rt B1 False R0 True show ?thesis by (simp add: running_total_def)
      next
        case flag: False
        have "0 \<le> sum_list (map depreciation_amount ?xs)"
          by (rule sum_list_nonneg) (use D1 in auto)
        with R0 op have "?o = 0" by linarith
        with rt B1 False R0 flag show ?thesis by (simp add: running_total_def)
      qed
    next
      case False
      with rt B1 \<open>k \<noteq> 0\<close> show ?thesis by (simp add: running_total_def)
    qed
  qed
  have amp: "at_precision ?pc ?am"
    by (rule at_precision_mono[OF prec reconciled_amount_at_precision])
  have Rp: "at_precision ?pc (?R + ?am)" by (rule at_precision_add[OF C1 amp])
  then have fl: "flt_prec (?R + ?am) ?pc = ?R + ?am" by (simp add: at_precision_def)
  let ?d = "(as_rows s1 ! k)\<lparr>depreciation_amount := ?am,
              accumulated_depreciation_amount := Some (?R + ?am)\<rparr>"
  have rows: "as_rows s = (as_rows s1)[k := ?d]"
    using s c fl by (simp add: updated_state_def)
  have tk: "take (Suc k) (as_rows s) = ?xs @ [?d]"
    using kn l1 unfolding rows by (simp add: take_Suc_conv_app_nth)
  have acc: "as_accumulated_depreciation s = Some (?R + ?am)"
    using s c by (simp add: updated_state_simps)
  have P1: "accumulates ?o (take (Suc k) (as_rows s))"
    unfolding tk accumulates_snoc using A1 by simp
  have P2: "as_accumulated_depreciation s =
              Some (?o + sum_list (map depreciation_amount (take (Suc k) (as_rows s))))"
    unfolding tk using acc by simp
  have P3: "at_precision ?pc (?o + sum_list (map depreciation_amount (take (Suc k) (as_rows s))))"
    unfolding tk using Rp by (simp add: add.assoc)
  have P4: "Suc k < length rows0 \<longrightarrow>
              (\<forall>d\<in>set (take (Suc k) (as_rows s)). 0 \<le> depreciation_amount d)"
  proof
    assume sk: "Suc k < length rows0"
    then have "\<not> is_max_straight_line_idx sl k" using sl_last[of k] by auto
    then have "?am = flt_prec (depreciation_amount (rows0 ! k)) (precision_depreciation_amount self)"
      by (simp add: reconciled_amount_def rk)
    moreover have "0 \<le> depreciation_amount (rows0 ! k)" using nonneg kn by simp
    ultimately have "0 \<le> ?am" by (simp add: flt_prec_nonneg)
    then show "\<forall>d\<in>set (take (Suc k) (as_rows s)). 0 \<le> depreciation_amount d"
      unfolding tk using D1 by simp
  qed
  from P1 P2 P3 P4 show ?case by simp
qed

lemma sad_Inr:
  assumes "set_accumulated_depreciation self a row dod dor ign = Inr self'"
  obtains s where
    "set_accumulated_depreciation_loop self a row dod dor ign (straight_line_idx self)
       [0..<length (depreciation_schedule self)]
       \<lparr>as_rows = depreciation_schedule self, as_accumulated_depreciation = None,
        as_value_after_depreciation = value_after_depreciation row\<rparr> = Inr s"
    "self' = self\<lparr>depreciation_schedule := as_rows s\<rparr>"
proof (cases "set_accumulated_depreciation_loop self a row dod dor ign (straight_line_idx self)
       [0..<length (depreciation_schedule self)]
       \<lparr>as_rows = depreciation_schedule self, as_accumulated_depreciation = None,
        as_value_after_depreciation = value_after_depreciation row\<rparr>")
  case (Inl e)
  with assms show ?thesis by (simp add: set_accumulated_depreciation_def)
next
  case (Inr s)
  with assms have "self' = self\<lparr>depreciation_schedule := as_rows s\<rparr>"
    by (simp add: set_accumulated_depreciation_def)
  with Inr show ?thesis by (rule that)
qed

lemma is_max_straight_line_idx_last:
  assumes "idx_in_order (depreciation_schedule self)"
    and "is_max_straight_line_idx (straight_line_idx self) j"
  shows "Suc j = length (depreciation_schedule self)"
proof (cases "self_depreciation_method self = ''Straight Line''
              \<or> self_depreciation_method self = ''Manual''")
  case True
  then have "straight_line_idx self = map idx (depreciation_schedule self)"
    by (auto simp: straight_line_idx_def)
  with assms show ?thesis by (simp add: is_max_idx_in_order)
next
  case False
  then have "straight_line_idx self = []" by (simp add: straight_line_idx_def)
  with assms(2) show ?thesis by (simp add: is_max_straight_line_idx_def)
qed

lemma sad_loop_all_skipped:
  assumes "\<forall>j<b. \<not> processed ign (as_rows s ! j)"
  shows "set_accumulated_depreciation_loop self a row dod dor ign sl [0..<b] s = Inr s"
  using assms
proof (induction b)
  case 0
  show ?case by simp
next
  case (Suc b)
  then have pre: "set_accumulated_depreciation_loop self a row dod dor ign sl [0..<b] s = Inr s"
    by simp
  from Suc.prems have "\<not> processed ign (as_rows s ! b)" by simp
  then have "set_accumulated_depreciation_iteration self a row dod dor ign sl b s = Inr s"
    by (rule sad_iteration_skip)
  then show ?case by (simp add: sad_loop_append pre)
qed

lemma sad_chain_after_booked:
  assumes flag: "decrease_in_asset_value_due_to_value_adjustment a"
    and b: "0 < b"
    and skipped: "\<forall>j<b. \<not> processed ign (rows0 ! j)"
    and unbooked: "\<forall>j\<ge>b. j < length rows0 \<longrightarrow> processed ign (rows0 ! j)"
    and c0: "accumulated_depreciation_amount (rows0 ! (b - 1)) = Some c0"
    and prec: "precision_depreciation_amount self \<le> precision_accumulated_depreciation_amount self"
    and c0p: "at_precision (precision_accumulated_depreciation_amount self) c0"
    and k: "b + m \<le> length rows0"
    and run: "set_accumulated_depreciation_loop self a row dod dor ign sl [0..<b + m]
           \<lparr>as_rows = rows0, as_accumulated_depreciation = None,
            as_value_after_depreciation = V\<rparr> = Inr s"
  shows "accumulates c0 (take m (drop b (as_rows s)))
        \<and> as_accumulated_depreciation s =
            (if m = 0 then None
             else Some (c0 + sum_list (map depreciation_amount (take m (drop b (as_rows s))))))
        \<and> at_precision (precision_accumulated_depreciation_amount self)
            (c0 + sum_list (map depreciation_amount (take m (drop b (as_rows s)))))
        \<and> as_rows s ! (b - 1) = rows0 ! (b - 1)"
  using k run
proof (induction m arbitrary: s)
  case 0
  let ?s0 = "\<lparr>as_rows = rows0, as_accumulated_depreciation = None,
            as_value_after_depreciation = V\<rparr>"
  have "set_accumulated_depreciation_loop self a row dod dor ign sl [0..<b] ?s0 = Inr ?s0"
    by (rule sad_loop_all_skipped) (simp add: skipped)
  with "0.prems"(2) have "s = ?s0" by simp
  then show ?case using c0p by simp
next
  case (Suc m)
  let ?pc = "precision_accumulated_depreciation_amount self"
  let ?k = "b + m"
  from Suc.prems(2) have "set_accumulated_depreciation_loop self a row dod dor ign sl
           ([0..<?k] @ [?k])
           \<lparr>as_rows = rows0, as_accumulated_depreciation = None,
            as_value_after_depreciation = V\<rparr> = Inr s" by simp
  then obtain s1 where
    pre: "set_accumulated_depreciation_loop self a row dod dor ign sl [0..<?k]
           \<lparr>as_rows = rows0, as_accumulated_depreciation = None,
            as_value_after_depreciation = V\<rparr> = Inr s1"
    and step: "set_accumulated_depreciation_iteration self a row dod dor ign sl ?k s1 = Inr s"
    by (rule sad_loop_snoc_Inr)
  from Suc.prems(1) have kn: "?k < length rows0" and k': "?k \<le> length rows0" by simp_all
  let ?ys = "drop b (as_rows s1)"
  let ?xs = "take m ?ys"
  let ?R = "c0 + sum_list (map depreciation_amount ?xs)"
  from Suc.IH[OF k' pre] have
    A1: "accumulates c0 ?xs"
    and B1: "as_accumulated_depreciation s1 = (if m = 0 then None else Some ?R)"
    and C1: "at_precision ?pc ?R"
    and D1: "as_rows s1 ! (b - 1) = rows0 ! (b - 1)" by simp_all
  from sad_prefix[OF k' pre] have
    rk: "as_rows s1 ! ?k = rows0 ! ?k" and l1: "length (as_rows s1) = length rows0" by simp_all
  have proc: "processed ign (as_rows s1 ! ?k)" using unbooked kn rk by simp
  from step obtain c where
    rt: "running_total self a ?k s1 = Some c"
    and s: "s = updated_state self row dod dor sl ?k s1 c"
    using proc by (cases rule: sad_iteration_cases) simp_all
  let ?am = "reconciled_amount self row dod dor sl ?k s1"
  have leny: "m < length ?ys" using kn l1 by simp
  have c: "c = ?R"
  proof (cases "m = 0")
    case True
    with rt B1 flag b D1 c0 show ?thesis by (simp add: running_total_def)
  next
    case False
    then have xs: "?xs \<noteq> []" using leny by auto
    have lenx: "length ?xs = m" using leny by simp
    have "last ?xs = ?xs ! (length ?xs - 1)" using xs by (rule last_conv_nth)
    also have "\<dots> = ?xs ! (m - 1)" by (simp only: lenx)
    also have "\<dots> = ?ys ! (m - 1)" using False by simp
    also have "\<dots> = as_rows s1 ! (b + (m - 1))" using kn l1 by simp
    also have "b + (m - 1) = ?k - 1" using False by simp
    finally have lastx: "last ?xs = as_rows s1 ! (?k - 1)" .
    from accumulates_last[OF A1 xs] lastx
    have prevacc: "accumulated_depreciation_amount (as_rows s1 ! (?k - 1)) = Some ?R" by simp
    show ?thesis
    proof (cases "?R = 0")
      case True
      with rt B1 False flag b prevacc show ?thesis by (simp add: running_total_def)
    next
      case R: False
      with rt B1 False show ?thesis by (simp add: running_total_def)
    qed
  qed
  have amp: "at_precision ?pc ?am"
    by (rule at_precision_mono[OF prec reconciled_amount_at_precision])
  have Rp: "at_precision ?pc (?R + ?am)" by (rule at_precision_add[OF C1 amp])
  then have fl: "flt_prec (?R + ?am) ?pc = ?R + ?am" by (simp add: at_precision_def)
  let ?d = "(as_rows s1 ! ?k)\<lparr>depreciation_amount := ?am,
              accumulated_depreciation_amount := Some (?R + ?am)\<rparr>"
  have rows: "as_rows s = (as_rows s1)[?k := ?d]"
    using s c fl by (simp add: updated_state_def)
  have dr: "drop b (as_rows s) = ?ys[m := ?d]"
    unfolding rows by (simp add: drop_update_swap)
  have ym: "?ys ! m = as_rows s1 ! ?k" using kn l1 by simp
  have tk: "take (Suc m) (drop b (as_rows s)) = ?xs @ [?d]"
    unfolding dr using leny by (simp add: take_Suc_conv_app_nth)
  have acc: "as_accumulated_depreciation s = Some (?R + ?am)"
    using s c by (simp add: updated_state_simps)
  have P1: "accumulates c0 (take (Suc m) (drop b (as_rows s)))"
    unfolding tk accumulates_snoc using A1 by simp
  have P2: "as_accumulated_depreciation s =
              Some (c0 + sum_list (map depreciation_amount (take (Suc m) (drop b (as_rows s)))))"
    unfolding tk using acc by simp
  have P3: "at_precision ?pc (c0 + sum_list (map depreciation_amount
                                      (take (Suc m) (drop b (as_rows s)))))"
    unfolding tk using Rp by (simp add: add.assoc)
  have P4: "as_rows s ! (b - 1) = rows0 ! (b - 1)"
    unfolding rows using D1 b by simp
  from P1 P2 P3 P4 show ?case by simp
qed

subsection \<open>The generator only appends rows\<close>

lemma extends_refl: "extends x x"
  unfolding extends_def by (rule exI[of _ "[]"]) simp

lemma extends_add_row: "extends x (add_depr_schedule_row x d amt)"
  unfolding extends_def add_depr_schedule_row_def
  by (rule exI[of _ "[\<lparr>idx = int (length (depreciation_schedule x)) + 1, schedule_date = d,
                       depreciation_amount = amt, accumulated_depreciation_amount = None,
                       journal_entry = None\<rparr>]"]) simp

lemma extends_trans:
  assumes "extends x y" and "extends y z"
  shows "extends x z"
proof -
  from assms(1) obtain n1 where
    y: "y = x\<lparr>depreciation_schedule := depreciation_schedule x @ n1\<rparr>"
    and j1: "\<forall>d\<in>set n1. journal_entry d = None"
    and i1: "map idx n1 = map int [Suc (length (depreciation_schedule x))..<
                         Suc (length (depreciation_schedule x) + length n1)]"
    unfolding extends_def by blast
  from assms(2) obtain n2 where
    z: "z = y\<lparr>depreciation_schedule := depreciation_schedule y @ n2\<rparr>"
    and j2: "\<forall>d\<in>set n2. journal_entry d = None"
    and i2: "map idx n2 = map int [Suc (length (depreciation_schedule y))..<
                         Suc (length (depreciation_schedule y) + length n2)]"
    unfolding extends_def by blast
  let ?l = "length (depreciation_schedule x)"
  have ly: "length (depreciation_schedule y) = ?l + length n1" using y by simp
  have z': "z = x\<lparr>depreciation_schedule := depreciation_schedule x @ (n1 @ n2)\<rparr>"
    using y z by simp
  have "[Suc ?l..<Suc (?l + length n1) + length n2]
          = [Suc ?l..<Suc (?l + length n1)] @ [Suc (?l + length n1)..<Suc (?l + length n1) + length n2]"
    by (rule upt_add_eq_append) simp
  then have "map idx (n1 @ n2) = map int [Suc ?l..<Suc (?l + length (n1 @ n2))]"
    using i1 i2 ly by (simp add: add.assoc)
  moreover have "\<forall>d\<in>set (n1 @ n2). journal_entry d = None" using j1 j2 by auto
  ultimately show ?thesis unfolding extends_def using z' by blast
qed

lemma disposal_iteration_extends:
  assumes "disposal_iteration today row dd amount s = Inr s'"
  shows "extends (ls_self s) (ls_self s')"
proof -
  let ?from = "(let from_date =
            add_months (getdate today (available_for_use_date (ls_asset_doc s)))
              (number_of_depreciations_booked (ls_asset_doc s) * frequency_of_depreciation row);
          from_date =
            (if depreciation_schedule (ls_self s) \<noteq> []
             then schedule_date (last (depreciation_schedule (ls_self s)))
             else from_date) in from_date)"
  show ?thesis
  proof (cases "get_pro_rata_amt row amount ?from dd False")
    case (Inl e)
    with assms show ?thesis by (simp add: disposal_iteration_def Let_def)
  next
    case (Inr t)
    obtain amount' days months where t: "t = (amount', days, months)" by (cases t)
    from assms Inr t have
      "ls_self s' = (if 0 < amount' then add_depr_schedule_row (ls_self s) dd amount'
                     else ls_self s)"
      by (auto simp: disposal_iteration_def Let_def)
    then show ?thesis by (simp add: extends_refl extends_add_row)
  qed
qed

lemma append_iteration_extends:
  assumes "append_iteration row L n amount s = Inr s'"
  shows "extends (ls_self s) (ls_self s')"
  using assms
  by (auto simp: append_iteration_def Let_def extends_refl extends_add_row
           split: if_splits option.splits)

lemma boundary_rows_asset:
  assumes "boundary_rows today row L n amount s = Inr (amount', sd, asset_doc)"
  shows "asset_doc = ls_asset_doc s \<or> (\<exists>d. asset_doc = (ls_asset_doc s)\<lparr>to_date := d\<rparr>)"
  using assms
  by (auto simp: boundary_rows_def Let_def split: if_splits option.splits sum.splits)


lemma depr_schedule_iteration_extends:
  assumes "depr_schedule_iteration today row dod L n s = Inr s'"
  shows "extends (ls_self s) (ls_self s')"
proof (cases "ls_skip_row s")
  case True
  with assms have "s' = s" by (simp add: depr_schedule_iteration_def)
  then show ?thesis by (simp add: extends_refl)
next
  case False
  let ?prev = "(if 0 < n \<and> n - 1 < int (length (depreciation_schedule (ls_self s)))
                then depreciation_amount (depreciation_schedule (ls_self s) ! nat (n - 1))
                else 0)"
  let ?s1 = "(if \<not> has_pro_rata L
                         \<or> (n < final_number_of_depreciations L - 1
                             \<or> final_number_of_depreciations L = 2) then
                        (let sched_date = add_months (depreciation_start_date row)
                                            (n * frequency_of_depreciation row);
                             sched_date = (if should_get_last_day L then get_last_day sched_date
                                           else sched_date)
                         in s\<lparr>ls_schedule_date := Some sched_date\<rparr>)
                      else s)"
  have s1: "ls_self ?s1 = ls_self s" by (simp add: Let_def)
  show ?thesis
  proof (cases "get_depreciation_amount today (ls_asset_doc s) (ls_value_after_depreciation s)
                   row n ?prev (has_wdv_or_dd_non_yearly_pro_rata L)
                   (number_of_pending_depreciations L)")
    case (Inl e)
    with assms False show ?thesis by (simp add: depr_schedule_iteration_def Let_def)
  next
    case (Inr amount)
    show ?thesis
    proof (cases dod)
      case (Some d)
      with assms False Inr have "disposal_iteration today row d amount ?s1 = Inr s'"
        by (simp add: depr_schedule_iteration_def Let_def)
      from disposal_iteration_extends[OF this] s1 show ?thesis by simp
    next
      case None
      show ?thesis
      proof (cases "boundary_rows today row L n amount ?s1")
        case (Inl e)
        with assms False Inr None show ?thesis
          by (simp add: depr_schedule_iteration_def Let_def)
      next
        case b: (Inr t)
        obtain amount' sd asset_doc where t: "t = (amount', sd, asset_doc)" by (cases t)
        from assms False Inr None b t have
          "append_iteration row L n amount'
             (?s1\<lparr>ls_schedule_date := sd, ls_asset_doc := asset_doc\<rparr>) = Inr s'"
          by (simp add: depr_schedule_iteration_def Let_def)
        from append_iteration_extends[OF this] s1 show ?thesis by simp
      qed
    qed
  qed
qed

lemma depr_schedule_loop_extends:
  "depr_schedule_loop today row dod L ns s = Inr s' \<Longrightarrow> extends (ls_self s) (ls_self s')"
proof (induction ns arbitrary: s)
  case Nil
  then show ?case by (simp add: extends_refl)
next
  case (Cons n ns)
  show ?case
  proof (cases "ls_break s")
    case True
    with Cons.prems show ?thesis by (simp add: extends_refl)
  next
    case False
    show ?thesis
    proof (cases "depr_schedule_iteration today row dod L n s")
      case (Inl e)
      with Cons.prems False show ?thesis by simp
    next
      case (Inr s1)
      with Cons.prems False have "depr_schedule_loop today row dod L ns s1 = Inr s'" by simp
      from Cons.IH[OF this] depr_schedule_iteration_extends[OF Inr] show ?thesis
        by (rule extends_trans[rotated])
    qed
  qed
qed

lemma make_depr_schedule_inner_result:
  assumes v: "validate asset_doc row = Inr (asset1, row1)"
    and run: "make_depr_schedule_inner validate today self asset_doc row start dod arg
                = Inr (self', asset', row')"
  shows "extends self self'"
    and "row' = row1\<lparr>value_after_depreciation :=
                  (if arg = 0 then get_value_after_depreciation_for_making_schedule asset1 row1
                   else arg)\<rparr>"
proof -
  let ?V = "(if arg = 0 then get_value_after_depreciation_for_making_schedule asset1 row1
                   else arg)"
  let ?row = "row1\<lparr>value_after_depreciation := ?V\<rparr>"
  let ?L = "init_loop_locals today self asset1 ?row start"
  let ?s0 = "\<lparr>ls_self = self, ls_asset_doc = asset1,
                    ls_value_after_depreciation = ?V, ls_skip_row = False,
                    ls_schedule_date = None, ls_break = False\<rparr>"
  show "extends self self'" and "row' = ?row"
  proof (atomize (full), cases "depr_schedule_loop today ?row dod ?L
                   [start..final_number_of_depreciations ?L - 1] ?s0")
    case (Inl e)
    with v run show "extends self self' \<and> row' = ?row"
      by (simp add: make_depr_schedule_inner_def Let_def)
  next
    case (Inr s)
    with v run have "self' = ls_self s" "row' = ?row"
      by (simp_all add: make_depr_schedule_inner_def Let_def)
    with depr_schedule_loop_extends[OF Inr] show "extends self self' \<and> row' = ?row" by simp
  qed
qed

lemma clear_depr_schedule_loop_rows:
  "snd (clear_depr_schedule_loop rows n acc) = acc @ takeWhile has_journal_entry rows"
  by (induction rows arbitrary: n acc) simp_all

lemma clear_depr_schedule_loop_start:
  "fst (clear_depr_schedule_loop rows n acc) =
     (if \<forall>d\<in>set rows. has_journal_entry d then 0
      else n + int (length (takeWhile has_journal_entry rows)))"
  by (induction rows arbitrary: n acc) simp_all

lemma clear_depr_schedule_result:
  "clear_depr_schedule self =
     (if \<forall>d\<in>set (depreciation_schedule self). has_journal_entry d then 0
      else int (length (takeWhile has_journal_entry (depreciation_schedule self))),
      self\<lparr>depreciation_schedule := takeWhile has_journal_entry (depreciation_schedule self)\<rparr>)"
proof -
  obtain st ds where c: "clear_depr_schedule_loop (depreciation_schedule self) 0 [] = (st, ds)"
    by (cases "clear_depr_schedule_loop (depreciation_schedule self) 0 []")
  from c clear_depr_schedule_loop_rows[of "depreciation_schedule self" 0 "[]"]
  have ds: "ds = takeWhile has_journal_entry (depreciation_schedule self)" by simp
  from c clear_depr_schedule_loop_start[of "depreciation_schedule self" 0 "[]"]
  have st: "st = (if \<forall>d\<in>set (depreciation_schedule self). has_journal_entry d then 0
      else int (length (takeWhile has_journal_entry (depreciation_schedule self))))" by simp
  show ?thesis unfolding clear_depr_schedule_def c using ds st by simp
qed

lemma idx_in_order_take: "idx_in_order rows \<Longrightarrow> idx_in_order (take k rows)"
proof -
  assume a: "idx_in_order rows"
  have "map idx (take k rows) = take k (map idx rows)" by (simp add: take_map)
  also have "\<dots> = take k (map int [1..<Suc (length rows)])"
    using a by (simp add: idx_in_order_def)
  also have "\<dots> = map int (take k [1..<Suc (length rows)])" by (simp add: take_map)
  also have "take k [1..<Suc (length rows)] = [1..<Suc (min k (length rows))]"
  proof (cases "k \<le> length rows")
    case True
    then have "1 + k \<le> Suc (length rows)" by simp
    then have "take k [1..<Suc (length rows)] = [1..<1 + k]" by (rule take_upt)
    then show ?thesis using True by (simp add: min_def del: upt_Suc)
  next
    case False
    then have "length [1..<Suc (length rows)] \<le> k" by (simp del: upt_Suc)
    then have "take k [1..<Suc (length rows)] = [1..<Suc (length rows)]" by (rule take_all)
    then show ?thesis using False by (simp add: min_def del: upt_Suc)
  qed
  finally show ?thesis by (simp add: idx_in_order_def min.commute del: upt_Suc)
qed

lemma idx_in_order_takeWhile: "idx_in_order rows \<Longrightarrow> idx_in_order (takeWhile P rows)"
  using idx_in_order_take[of rows "length (takeWhile P rows)"]
  by (simp add: takeWhile_eq_take[symmetric])

lemma extends_idx_in_order:
  assumes "extends x y" and "idx_in_order (depreciation_schedule x)"
  shows "idx_in_order (depreciation_schedule y)"
proof -
  from assms(1) obtain new where
    y: "y = x\<lparr>depreciation_schedule := depreciation_schedule x @ new\<rparr>"
    and i: "map idx new = map int [Suc (length (depreciation_schedule x))..<
                         Suc (length (depreciation_schedule x) + length new)]"
    unfolding extends_def by blast
  let ?l = "length (depreciation_schedule x)"
  have "[1..<Suc ?l + length new] = [1..<Suc ?l] @ [Suc ?l..<Suc ?l + length new]"
    by (rule upt_add_eq_append) simp
  then show ?thesis using assms(2) y i by (simp add: idx_in_order_def)
qed

subsection \<open>The amounts the reconciler writes\<close>

lemma sad_chain:
  assumes run: "set_accumulated_depreciation self a row dod dor False = Inr self'"
    and ord: "idx_in_order (depreciation_schedule self)"
    and nonneg: "\<forall>d\<in>set (depreciation_schedule self). 0 \<le> depreciation_amount d"
    and op: "0 \<le> self_opening_accumulated_depreciation self"
    and prec: "precision_depreciation_amount self \<le> precision_accumulated_depreciation_amount self"
    and opp: "at_precision (precision_accumulated_depreciation_amount self)
                (self_opening_accumulated_depreciation self)"
  shows "accumulates (self_opening_accumulated_depreciation self) (depreciation_schedule self')"
proof -
  let ?rows = "depreciation_schedule self"
  from run obtain s where
    loop: "set_accumulated_depreciation_loop self a row dod dor False (straight_line_idx self)
       [0..<length ?rows]
       \<lparr>as_rows = ?rows, as_accumulated_depreciation = None,
        as_value_after_depreciation = value_after_depreciation row\<rparr> = Inr s"
    and self': "self' = self\<lparr>depreciation_schedule := as_rows s\<rparr>"
    by (rule sad_Inr)
  have len: "length (as_rows s) = length ?rows"
    using sad_loop_length[OF loop] by simp
  have "accumulates (self_opening_accumulated_depreciation self)
          (take (length ?rows) (as_rows s))"
    using sad_chain_prefix[OF is_max_straight_line_idx_last[OF ord] nonneg op prec opp
            order_refl loop]
    by simp
  with len self' show ?thesis by simp
qed

lemma sad_amounts:
  assumes m: "self_depreciation_method self = ''Straight Line''
              \<or> self_depreciation_method self = ''Manual''"
    and ord: "idx_in_order (depreciation_schedule self)"
    and run: "set_accumulated_depreciation self a row None None ign = Inr self'"
  shows "length (depreciation_schedule self') = length (depreciation_schedule self)
     \<and> (\<forall>i<length (depreciation_schedule self).
          depreciation_amount (depreciation_schedule self' ! i) =
            (if processed ign (depreciation_schedule self ! i) then
               flt_prec (depreciation_amount (depreciation_schedule self ! i))
                 (precision_depreciation_amount self)
               + (if Suc i = length (depreciation_schedule self)
                  then flt_prec (value_after_depreciation row
                                   - deducted self ign (depreciation_schedule self)
                                   - expected_value_after_useful_life row)
                         (precision_depreciation_amount self)
                  else 0)
             else depreciation_amount (depreciation_schedule self ! i)))"
proof -
  let ?rows = "depreciation_schedule self"
  from run obtain s where
    loop: "set_accumulated_depreciation_loop self a row None None ign (straight_line_idx self)
       [0..<length ?rows]
       \<lparr>as_rows = ?rows, as_accumulated_depreciation = None,
        as_value_after_depreciation = value_after_depreciation row\<rparr> = Inr s"
    and self': "self' = self\<lparr>depreciation_schedule := as_rows s\<rparr>"
    by (rule sad_Inr)
  have sl: "straight_line_idx self = map idx ?rows"
    using m by (auto simp: straight_line_idx_def)
  have len: "length (depreciation_schedule self') = length ?rows"
    using sad_loop_length[OF loop] self' by simp
  have "depreciation_amount (depreciation_schedule self' ! i) =
            (if processed ign (?rows ! i) then
               flt_prec (depreciation_amount (?rows ! i)) (precision_depreciation_amount self)
               + (if Suc i = length ?rows
                  then flt_prec (value_after_depreciation row - deducted self ign ?rows
                                   - expected_value_after_useful_life row)
                         (precision_depreciation_amount self)
                  else 0)
             else depreciation_amount (?rows ! i))" if i: "i < length ?rows" for i
  proof -
    have mx: "is_max_straight_line_idx (straight_line_idx self) i \<longleftrightarrow> Suc i = length ?rows"
      unfolding sl by (rule is_max_idx_in_order[OF ord])
    have tk: "Suc i = length ?rows \<Longrightarrow> take (Suc i) ?rows = ?rows" by simp
    from sad_row_amount[OF i loop] self' mx show ?thesis by (auto simp: tk)
  qed
  with len show ?thesis by simp
qed

subsection \<open>Regeneration\<close>

lemma regenerate_Inr:
  assumes "regenerate validate today self asset_doc row dod dor arg ign = Inr self'"
  obtains self2 asset2 row2 where
    "make_depr_schedule validate today self asset_doc row dod arg = Inr (self2, asset2, row2)"
    "set_accumulated_depreciation self2 asset2 row2 dod dor ign = Inr self'"
proof (cases "make_depr_schedule validate today self asset_doc row dod arg")
  case (Inl e)
  with assms show ?thesis by (simp add: regenerate_def)
next
  case (Inr t)
  obtain self2 asset2 row2 where t: "t = (self2, asset2, row2)" by (cases t)
  with assms Inr have "set_accumulated_depreciation self2 asset2 row2 dod dor ign = Inr self'"
    by (simp add: regenerate_def)
  with Inr t show ?thesis using that by simp
qed

lemma make_depr_schedule_result:
  assumes avail: "available_for_use_date asset_doc \<noteq> None"
    and v: "validate asset_doc row = Inr (asset1, row1)"
    and run: "make_depr_schedule validate today self asset_doc row dod arg
                = Inr (self2, asset2, row2)"
  shows "extends (self\<lparr>depreciation_schedule :=
                        takeWhile has_journal_entry (depreciation_schedule self)\<rparr>) self2"
    and "row2 = row1\<lparr>value_after_depreciation :=
                  (if arg = 0 then get_value_after_depreciation_for_making_schedule asset1 row1
                   else arg)\<rparr>"
proof -
  from avail obtain d where d: "available_for_use_date asset_doc = Some d" by auto
  let ?st = "(if \<forall>d\<in>set (depreciation_schedule self). has_journal_entry d then 0
      else int (length (takeWhile has_journal_entry (depreciation_schedule self))))"
  let ?self1 = "self\<lparr>depreciation_schedule :=
                        takeWhile has_journal_entry (depreciation_schedule self)\<rparr>"
  from run d have inner:
    "make_depr_schedule_inner validate today ?self1 asset_doc row ?st dod arg
       = Inr (self2, asset2, row2)"
    by (simp add: make_depr_schedule_def clear_depr_schedule_result)
  from make_depr_schedule_inner_result[OF v inner]
  show "extends ?self1 self2"
    and "row2 = row1\<lparr>value_after_depreciation :=
                  (if arg = 0 then get_value_after_depreciation_for_making_schedule asset1 row1
                   else arg)\<rparr>"
    by simp_all
qed

lemma extends_fields:
  assumes "extends x y"
  shows "self_depreciation_method y = self_depreciation_method x"
    and "precision_depreciation_amount y = precision_depreciation_amount x"
    and "precision_accumulated_depreciation_amount y = precision_accumulated_depreciation_amount x"
    and "self_opening_accumulated_depreciation y = self_opening_accumulated_depreciation x"
  using assms unfolding extends_def by auto



lemma make_depr_schedule_extends:
  assumes run: "make_depr_schedule validate today self asset_doc row dod arg
                = Inr (self2, asset2, row2)"
  shows "self2 = self
         \<or> extends (self\<lparr>depreciation_schedule :=
                        takeWhile has_journal_entry (depreciation_schedule self)\<rparr>) self2"
proof (cases "available_for_use_date asset_doc")
  case None
  with run show ?thesis by (simp add: make_depr_schedule_def)
next
  case (Some d)
  then have avail: "available_for_use_date asset_doc \<noteq> None" by simp
  show ?thesis
  proof (cases "validate asset_doc row")
    case (Inl e)
    with run Some show ?thesis
      by (simp add: make_depr_schedule_def clear_depr_schedule_result
            make_depr_schedule_inner_def)
  next
    case (Inr t)
    obtain asset1 row1 where "t = (asset1, row1)" by (cases t)
    with Inr have v: "validate asset_doc row = Inr (asset1, row1)" by simp
    from make_depr_schedule_result(1)[OF avail v run] show ?thesis by simp
  qed
qed

lemma extends_prefix:
  assumes "extends x y" and "i < length (depreciation_schedule x)"
  shows "depreciation_schedule y ! i = depreciation_schedule x ! i"
    and "i < length (depreciation_schedule y)"
  using assms unfolding extends_def by (auto simp: nth_append)

lemma sad_row_kept:
  assumes rc: "set_accumulated_depreciation self a row dod dor ign = Inr self'"
    and i: "i < length (depreciation_schedule self)"
  shows "i < length (depreciation_schedule self')"
    and "schedule_date (depreciation_schedule self' ! i)
           = schedule_date (depreciation_schedule self ! i)"
    and "journal_entry (depreciation_schedule self' ! i)
           = journal_entry (depreciation_schedule self ! i)"
    and "idx (depreciation_schedule self' ! i) = idx (depreciation_schedule self ! i)"
    and "depreciation_amount (depreciation_schedule self' ! i) =
          (if processed ign (depreciation_schedule self ! i) then
             flt_prec (depreciation_amount (depreciation_schedule self ! i))
               (precision_depreciation_amount self)
             + (if is_max_straight_line_idx (straight_line_idx self) i \<and> dod = None \<and> dor = None
                then flt_prec (value_after_depreciation row
                                 - deducted self ign (take (Suc i) (depreciation_schedule self))
                                 - expected_value_after_useful_life row)
                       (precision_depreciation_amount self)
                else 0)
           else depreciation_amount (depreciation_schedule self ! i))"
proof -
  from rc obtain s where
    loop: "set_accumulated_depreciation_loop self a row dod dor ign (straight_line_idx self)
       [0..<length (depreciation_schedule self)]
       \<lparr>as_rows = depreciation_schedule self, as_accumulated_depreciation = None,
        as_value_after_depreciation = value_after_depreciation row\<rparr> = Inr s"
    and self': "self' = self\<lparr>depreciation_schedule := as_rows s\<rparr>"
    by (rule sad_Inr)
  from sad_loop_length[OF loop] i self'
  show "i < length (depreciation_schedule self')" by simp
  from sad_loop_static[OF loop, of i] self'
  show "schedule_date (depreciation_schedule self' ! i)
           = schedule_date (depreciation_schedule self ! i)"
    and "journal_entry (depreciation_schedule self' ! i)
           = journal_entry (depreciation_schedule self ! i)"
    and "idx (depreciation_schedule self' ! i) = idx (depreciation_schedule self ! i)"
    by simp_all
  from sad_row_amount[OF i loop] self'
  show "depreciation_amount (depreciation_schedule self' ! i) =
          (if processed ign (depreciation_schedule self ! i) then
             flt_prec (depreciation_amount (depreciation_schedule self ! i))
               (precision_depreciation_amount self)
             + (if is_max_straight_line_idx (straight_line_idx self) i \<and> dod = None \<and> dor = None
                then flt_prec (value_after_depreciation row
                                 - deducted self ign (take (Suc i) (depreciation_schedule self))
                                 - expected_value_after_useful_life row)
                       (precision_depreciation_amount self)
                else 0)
           else depreciation_amount (depreciation_schedule self ! i))"
    by simp
qed

lemma takeWhile_nth_holds:
  "i < length (takeWhile P xs) \<Longrightarrow> P (xs ! i)"
  using nth_mem[of i "takeWhile P xs"] set_takeWhileD[of "takeWhile P xs ! i" P xs]
  by (simp add: takeWhile_nth)

subsection \<open>Disposal\<close>

lemma depr_schedule_loop_break:
  "ls_break s \<Longrightarrow> depr_schedule_loop today row dod L ns s = Inr s"
  by (cases ns) simp_all

lemma disposal_iteration_result:
  assumes "get_total_days dd (frequency_of_depreciation row) \<noteq> 0"
  shows "disposal_iteration today row dd amount s =
           Inr (s\<lparr>ls_self :=
                    (if 0 < amount * of_int (date_diff dd
                                (disposal_from_date today (ls_asset_doc s) row (ls_self s)))
                              / of_int (get_total_days dd (frequency_of_depreciation row))
                     then add_depr_schedule_row (ls_self s) dd
                            (amount * of_int (date_diff dd
                                (disposal_from_date today (ls_asset_doc s) row (ls_self s)))
                              / of_int (get_total_days dd (frequency_of_depreciation row)))
                     else ls_self s),
                  ls_break := True\<rparr>)"
  using assms
  by (simp add: disposal_iteration_def get_pro_rata_amt_def py_div_def Let_def
        disposal_from_date_def)

lemma depr_schedule_iteration_disposal:
  assumes ns: "\<not> ls_skip_row s"
    and amt: "get_depreciation_amount today (ls_asset_doc s) (ls_value_after_depreciation s)
                row n
                (if 0 < n \<and> n - 1 < int (length (depreciation_schedule (ls_self s)))
                 then depreciation_amount (depreciation_schedule (ls_self s) ! nat (n - 1))
                 else 0)
                (has_wdv_or_dd_non_yearly_pro_rata L) (number_of_pending_depreciations L)
              = Inr amount"
    and td: "get_total_days dd (frequency_of_depreciation row) \<noteq> 0"
  obtains s' where "depr_schedule_iteration today row (Some dd) L n s = Inr s'"
    "ls_break s'" "ls_asset_doc s' = ls_asset_doc s"
    "ls_self s' =
       (if 0 < amount * of_int (date_diff dd
                                (disposal_from_date today (ls_asset_doc s) row (ls_self s)))
                              / of_int (get_total_days dd (frequency_of_depreciation row))
                     then add_depr_schedule_row (ls_self s) dd
                            (amount * of_int (date_diff dd
                                (disposal_from_date today (ls_asset_doc s) row (ls_self s)))
                              / of_int (get_total_days dd (frequency_of_depreciation row)))
                     else ls_self s)"
proof -
  define s1 where "s1 = (if \<not> has_pro_rata L
                         \<or> (n < final_number_of_depreciations L - 1
                             \<or> final_number_of_depreciations L = 2) then
                        (let sched_date = add_months (depreciation_start_date row)
                                            (n * frequency_of_depreciation row);
                             sched_date = (if should_get_last_day L then get_last_day sched_date
                                           else sched_date)
                         in s\<lparr>ls_schedule_date := Some sched_date\<rparr>)
                      else s)"
  have s1: "ls_self s1 = ls_self s" "ls_asset_doc s1 = ls_asset_doc s"
    by (simp_all add: s1_def Let_def)
  have "depr_schedule_iteration today row (Some dd) L n s
              = disposal_iteration today row dd amount s1"
    using ns amt by (simp add: depr_schedule_iteration_def Let_def s1_def)
  then have it: "depr_schedule_iteration today row (Some dd) L n s
              = Inr (s1\<lparr>ls_self :=
                    (if 0 < amount * of_int (date_diff dd
                                (disposal_from_date today (ls_asset_doc s1) row (ls_self s1)))
                              / of_int (get_total_days dd (frequency_of_depreciation row))
                     then add_depr_schedule_row (ls_self s1) dd
                            (amount * of_int (date_diff dd
                                (disposal_from_date today (ls_asset_doc s1) row (ls_self s1)))
                              / of_int (get_total_days dd (frequency_of_depreciation row)))
                     else ls_self s1),
                  ls_break := True\<rparr>)"
    by (simp only: disposal_iteration_result[OF td])
  show ?thesis
    by (rule that[OF it]) (simp_all add: s1)
qed

subsection \<open>The period loop\<close>


lemma boundary_rows_plain:
  assumes "has_pro_rata L" and "\<not> has_wdv_or_dd_non_yearly_pro_rata L"
    and "self_opening_accumulated_depreciation (ls_self s) \<noteq> 0"
    and "1 < final_number_of_depreciations L"
  shows "boundary_rows today row L 0 amount s = Inr (amount, ls_schedule_date s, ls_asset_doc s)"
  using assms by (simp add: boundary_rows_def)

lemma depr_schedule_iteration_first_plain:
  assumes pr: "has_pro_rata L" and nw: "\<not> has_wdv_or_dd_non_yearly_pro_rata L"
    and op: "self_opening_accumulated_depreciation (ls_self s) \<noteq> 0"
    and ns: "\<not> ls_skip_row s"
    and fin: "1 < final_number_of_depreciations L"
    and amt: "get_depreciation_amount today (ls_asset_doc s) (ls_value_after_depreciation s)
                row 0 0 False (number_of_pending_depreciations L) = Inr amount"
    and d: "d = (if should_get_last_day L
                then get_last_day (add_months (depreciation_start_date row) 0)
                else add_months (depreciation_start_date row) 0)"
  shows "depr_schedule_iteration today row None L 0 s =
           append_iteration row L 0 amount (s\<lparr>ls_schedule_date := Some d\<rparr>)"
proof -
  have "self_opening_accumulated_depreciation (ls_self (s\<lparr>ls_schedule_date := Some d\<rparr>)) \<noteq> 0"
    using op by simp
  from boundary_rows_plain[OF pr nw this fin, of today row amount]
  have b: "boundary_rows today row L 0 amount (s\<lparr>ls_schedule_date := Some d\<rparr>)
             = Inr (amount, Some d, ls_asset_doc s)" by simp
  have s1: "(if \<not> has_pro_rata L
                       \<or> (0 < final_number_of_depreciations L - 1
                           \<or> final_number_of_depreciations L = 2) then
                      (let sched_date = add_months (depreciation_start_date row)
                                          (0 * frequency_of_depreciation row);
                           sched_date = (if should_get_last_day L then get_last_day sched_date
                                         else sched_date)
                       in s\<lparr>ls_schedule_date := Some sched_date\<rparr>)
                    else s) = s\<lparr>ls_schedule_date := Some d\<rparr>"
    using fin d by (simp add: Let_def)
  show ?thesis
    unfolding depr_schedule_iteration_def Let_def s1[unfolded Let_def]
    using ns amt nw by (simp add: b)
qed

lemma append_iteration_first:
  assumes fin: "1 < final_number_of_depreciations L"
    and V': "V' = V - flt_prec amount (precision_gross_purchase_amount asset_doc)"
    and adj: "adjust = (expected_value_after_useful_life row \<noteq> 0
                        \<and> V' < expected_value_after_useful_life row)"
    and amt': "amount' = (if adjust then amount + (V' - expected_value_after_useful_life row)
                          else amount)"
  shows "append_iteration row L 0 amount
           \<lparr>ls_self = self, ls_asset_doc = asset_doc, ls_value_after_depreciation = V,
            ls_skip_row = False, ls_schedule_date = Some d, ls_break = False\<rparr> =
         Inr \<lparr>ls_self =
                (if amount \<noteq> 0
                    \<and> 0 < flt_prec amount' (precision_gross_purchase_amount asset_doc)
                 then self\<lparr>depreciation_schedule :=
                        depreciation_schedule self @
                          [\<lparr>idx = int (length (depreciation_schedule self)) + 1,
                            schedule_date = d,
                            depreciation_amount = amount',
                            accumulated_depreciation_amount = None,
                            journal_entry = None\<rparr>]\<rparr>
                 else self),
              ls_asset_doc = asset_doc,
              ls_value_after_depreciation = (if amount = 0 then V else V'),
              ls_skip_row = (amount \<noteq> 0 \<and> adjust),
              ls_schedule_date = Some d, ls_break = False\<rparr>"
proof (cases "amount = 0")
  case True
  then show ?thesis by (simp add: append_iteration_def)
next
  case False
  have n: "(0::int) \<noteq> final_number_of_depreciations L - 1" using fin by simp
  show ?thesis
    using False n
    by (simp add: append_iteration_def Let_def add_depr_schedule_row_def V' adj amt')
qed

lemma disposal_one_row:
  assumes avail: "available_for_use_date asset_doc \<noteq> None"
    and v: "validate asset_doc row = Inr (asset_v, row_v)"
    and cl: "clear_depr_schedule self = (start, self_c)"
    and V: "V = (if arg = 0 then get_value_after_depreciation_for_making_schedule asset_v row_v
                 else arg)"
    and row_m: "row_m = row_v\<lparr>value_after_depreciation := V\<rparr>"
    and L: "L = init_loop_locals today self_c asset_v row_m start"
    and remaining: "start < final_number_of_depreciations L"
    and prev: "prev = (if 0 < start \<and> start - 1 < int (length (depreciation_schedule self_c))
                       then depreciation_amount (depreciation_schedule self_c ! nat (start - 1))
                       else 0)"
    and amt: "get_depreciation_amount today asset_v V row_m start prev
                (has_wdv_or_dd_non_yearly_pro_rata L) (number_of_pending_depreciations L)
              = Inr amount"
    and td: "get_total_days date_of_disposal (frequency_of_depreciation row_m) \<noteq> 0"
    and share: "share = amount
                  * of_int (date_diff date_of_disposal
                              (disposal_from_date today asset_v row_m self_c))
                  / of_int (get_total_days date_of_disposal (frequency_of_depreciation row_m))"
  shows "make_depr_schedule validate today self asset_doc row (Some date_of_disposal) arg =
           Inr (if 0 < share then add_depr_schedule_row self_c date_of_disposal share else self_c,
                asset_v, row_m)"
proof -
  let ?s0 = "\<lparr>ls_self = self_c, ls_asset_doc = asset_v,
              ls_value_after_depreciation = V, ls_skip_row = False,
              ls_schedule_date = None, ls_break = False\<rparr>"
  have ns: "\<not> ls_skip_row ?s0" by simp
  have amt0: "get_depreciation_amount today (ls_asset_doc ?s0) (ls_value_after_depreciation ?s0)
                row_m start
                (if 0 < start \<and> start - 1 < int (length (depreciation_schedule (ls_self ?s0)))
                 then depreciation_amount (depreciation_schedule (ls_self ?s0) ! nat (start - 1))
                 else 0)
                (has_wdv_or_dd_non_yearly_pro_rata L) (number_of_pending_depreciations L)
              = Inr amount"
    by (simp only: loop_state.select_convs amt[unfolded prev])
  from ns amt0 td obtain s' where
    it: "depr_schedule_iteration today row_m (Some date_of_disposal) L start ?s0 = Inr s'"
    and br: "ls_break s'"
    and as: "ls_asset_doc s' = ls_asset_doc ?s0"
    and sf: "ls_self s' =
       (if 0 < amount * of_int (date_diff date_of_disposal
                                (disposal_from_date today (ls_asset_doc ?s0) row_m (ls_self ?s0)))
                   / of_int (get_total_days date_of_disposal (frequency_of_depreciation row_m))
        then add_depr_schedule_row (ls_self ?s0) date_of_disposal
               (amount * of_int (date_diff date_of_disposal
                                (disposal_from_date today (ls_asset_doc ?s0) row_m (ls_self ?s0)))
                   / of_int (get_total_days date_of_disposal (frequency_of_depreciation row_m)))
        else ls_self ?s0)"
    by (rule depr_schedule_iteration_disposal)
  have range: "[start..final_number_of_depreciations L - 1]
                 = start # [start + 1..final_number_of_depreciations L - 1]"
    using remaining by (simp add: upto_rec1)
  have loop: "depr_schedule_loop today row_m (Some date_of_disposal) L
                [start..final_number_of_depreciations L - 1] ?s0 = Inr s'"
    unfolding range using it depr_schedule_loop_break[OF br] by simp
  from avail obtain d where d: "available_for_use_date asset_doc = Some d" by auto
  have "make_depr_schedule validate today self asset_doc row (Some date_of_disposal) arg
          = Inr (ls_self s', ls_asset_doc s', row_m)"
    using d cl v loop V row_m L
    by (simp add: make_depr_schedule_def make_depr_schedule_inner_def Let_def)
  then show ?thesis using sf as share by simp
qed

lemma disposal_no_pending_period:
  assumes avail: "available_for_use_date asset_doc \<noteq> None"
    and v: "validate asset_doc row = Inr (asset_v, row_v)"
    and cl: "clear_depr_schedule self = (start, self_c)"
    and V: "V = (if arg = 0 then get_value_after_depreciation_for_making_schedule asset_v row_v
                 else arg)"
    and row_m: "row_m = row_v\<lparr>value_after_depreciation := V\<rparr>"
    and L: "L = init_loop_locals today self_c asset_v row_m start"
    and none: "final_number_of_depreciations L \<le> start"
  shows "make_depr_schedule validate today self asset_doc row dod arg = Inr (self_c, asset_v, row_m)"
proof -
  have range: "[start..final_number_of_depreciations L - 1] = []"
    using none by simp
  from avail obtain d where d: "available_for_use_date asset_doc = Some d" by auto
  show ?thesis
    using d cl v V row_m L range
    by (simp add: make_depr_schedule_def make_depr_schedule_inner_def Let_def)
qed

subsection \<open>Uniqueness validation\<close>

lemma finance_book_filter_iff:
  "finance_book_filter (finance_book self) doc
     \<longleftrightarrow> fb_key (finance_book doc) = fb_key (finance_book self)"
  by (auto simp: finance_book_filter_def fb_key_def is_set_def split: option.splits)

lemma filter_iff:
  "(asset doc = asset self \<and> finance_book_filter (finance_book self) doc \<and> self_docstatus doc < 2)
     \<longleftrightarrow> (same_pair doc self \<and> non_cancelled doc)"
  by (simp add: finance_book_filter_iff same_pair_def non_cancelled_def)

lemma validate_another_unfold:
  "validate_another_asset_depr_schedule_does_not_exist table self =
     (case find (\<lambda>doc. same_pair doc self \<and> non_cancelled doc) table of
        None \<Rightarrow> Inr ()
      | Some d \<Rightarrow> if name d \<noteq> [] \<and> name d \<noteq> name self
                  then Inl DuplicateScheduleError else Inr ())"
  unfolding validate_another_asset_depr_schedule_does_not_exist_def db_exists_def filter_iff
  by (simp split: option.splits)

lemma same_pair_sym_trans:
  "same_pair a c \<Longrightarrow> same_pair b c \<Longrightarrow> same_pair a b"
  by (simp add: same_pair_def)

section \<open>The claims\<close>







text \<open>
  C7, as the code has it. A policy whose method is neither Straight Line nor Manual,
  recognised or not, is computed with the written-down-value formula at the policy's
  rate, and no error is raised for it. An asset without an available-for-use date
  makes \<^verbatim>\<open>make_depr_schedule\<close> return at once, without an error and with the
  schedule, the asset and the policy row as they were.
\<close>

theorem unknown_method_and_missing_date:
  "(depreciation_method fb_row \<noteq> ''Straight Line'' \<and> depreciation_method fb_row \<noteq> ''Manual''
      \<longrightarrow> get_depreciation_amount today a v fb_row n prev flag pending =
            get_wdv_or_dd_depr_amount v (rate_of_depreciation fb_row)
              (frequency_of_depreciation fb_row) n prev flag)
   \<and> (available_for_use_date a' = None
      \<longrightarrow> make_depr_schedule validate today' self a' row dod v' = Inr (self, a', row))"
  by (simp add: get_depreciation_amount_def get_updated_rate_of_depreciation_for_wdv_and_dd_def
        make_depr_schedule_def)

theorem unknown_method_and_missing_date_witness:
  "depreciation_method ex_row_unknown \<noteq> ''Straight Line''
   \<and> depreciation_method ex_row_unknown \<noteq> ''Manual''
   \<and> get_depreciation_amount ex_today ex_asset 1000 ex_row_unknown 0 0 False 2 = Inr 500
   \<and> available_for_use_date ex_asset_no_date = None
   \<and> make_depr_schedule validate_ok ex_today ex_self ex_asset_no_date ex_row None 0
       = Inr (ex_self, ex_asset_no_date, ex_row)"
proof -
  have m: "depreciation_method ex_row_unknown \<noteq> ''Straight Line''
           \<and> depreciation_method ex_row_unknown \<noteq> ''Manual''"
    by (simp add: ex_row_unknown_def ex_row_def)
  have w: "get_wdv_or_dd_depr_amount 1000 (rate_of_depreciation ex_row_unknown)
             (frequency_of_depreciation ex_row_unknown) 0 0 False = Inr 500"
    by (simp add: ex_row_unknown_def ex_row_def get_wdv_or_dd_depr_amount_def)
  have d: "available_for_use_date ex_asset_no_date = None"
    by (simp add: ex_asset_no_date_def)
  from unknown_method_and_missing_date[where fb_row = ex_row_unknown and today = ex_today
         and a = ex_asset and v = 1000 and n = 0 and prev = 0 and flag = False and pending = 2
         and a' = ex_asset_no_date and validate = validate_ok and today' = ex_today
         and self = ex_self and row = ex_row and dod = None and v' = 0] m w d
  show ?thesis by simp
qed

text \<open>
  C7 as stated fails: under the unknown method ``Sum of Years'' generation raises
  nothing and produces the two rows of the written-down-value schedule.
\<close>

theorem unknown_method_generates_rows:
  "made_amounts (make_depr_schedule validate_ok ex_today ex_self ex_asset ex_row_unknown None 0)
     = Inr [500, 250]"
  by code_simp

text \<open>
  C2, as the code has it. With the precision of the accumulated amount no coarser than
  the precision of the depreciation amount:

  \<^item> when booked rows are not skipped (\<open>ignore_booked_entry\<close> is false), with or without
    the decrease-in-asset-value flag, for a schedule whose rows are numbered by position,
    with a non-negative opening accumulated depreciation, expressed at the precision of
    the accumulated amount, and non-negative row amounts: the reconciler leaves every row
    with \<open>accumulated = accumulated of the previous row + amount\<close>, the first row
    starting from the opening accumulated depreciation;

  \<^item> when booked rows are skipped and the decrease-in-asset-value flag is set, for a
    schedule that begins with \<open>b > 0\<close> booked rows followed by unbooked rows only, the last
    booked row carrying an accumulated amount at that precision: the booked rows stay as
    they are, and every row from position \<open>b\<close> on is left with
    \<open>accumulated = accumulated of the previous row + amount\<close>.
\<close>

theorem accumulation_chain:
  assumes prec: "precision_depreciation_amount self \<le> precision_accumulated_depreciation_amount self"
  shows "(set_accumulated_depreciation self a row dod dor False = Inr self'
            \<and> idx_in_order (depreciation_schedule self)
            \<and> (\<forall>d\<in>set (depreciation_schedule self). 0 \<le> depreciation_amount d)
            \<and> 0 \<le> self_opening_accumulated_depreciation self
            \<and> at_precision (precision_accumulated_depreciation_amount self)
                  (self_opening_accumulated_depreciation self)
          \<longrightarrow> accumulates (self_opening_accumulated_depreciation self)
                (depreciation_schedule self'))
       \<and> (set_accumulated_depreciation self a row dod dor True = Inr self''
            \<and> decrease_in_asset_value_due_to_value_adjustment a
            \<and> 0 < b \<and> b \<le> length (depreciation_schedule self)
            \<and> (\<forall>j<b. has_journal_entry (depreciation_schedule self ! j))
            \<and> (\<forall>j\<ge>b. j < length (depreciation_schedule self)
                   \<longrightarrow> \<not> has_journal_entry (depreciation_schedule self ! j))
            \<and> accumulated_depreciation_amount (depreciation_schedule self ! (b - 1)) = Some carried
            \<and> at_precision (precision_accumulated_depreciation_amount self) carried
          \<longrightarrow> depreciation_schedule self'' ! (b - 1) = depreciation_schedule self ! (b - 1)
              \<and> accumulates carried (drop b (depreciation_schedule self'')))"
proof (rule conjI; rule impI)
  assume h: "set_accumulated_depreciation self a row dod dor False = Inr self'
            \<and> idx_in_order (depreciation_schedule self)
            \<and> (\<forall>d\<in>set (depreciation_schedule self). 0 \<le> depreciation_amount d)
            \<and> 0 \<le> self_opening_accumulated_depreciation self
            \<and> at_precision (precision_accumulated_depreciation_amount self)
                  (self_opening_accumulated_depreciation self)"
  then show "accumulates (self_opening_accumulated_depreciation self)
                (depreciation_schedule self')"
    using sad_chain[OF _ _ _ _ prec] by blast
next
  assume h: "set_accumulated_depreciation self a row dod dor True = Inr self''
            \<and> decrease_in_asset_value_due_to_value_adjustment a
            \<and> 0 < b \<and> b \<le> length (depreciation_schedule self)
            \<and> (\<forall>j<b. has_journal_entry (depreciation_schedule self ! j))
            \<and> (\<forall>j\<ge>b. j < length (depreciation_schedule self)
                   \<longrightarrow> \<not> has_journal_entry (depreciation_schedule self ! j))
            \<and> accumulated_depreciation_amount (depreciation_schedule self ! (b - 1)) = Some carried
            \<and> at_precision (precision_accumulated_depreciation_amount self) carried"
  let ?rows = "depreciation_schedule self"
  from h obtain s where
    loop: "set_accumulated_depreciation_loop self a row dod dor True (straight_line_idx self)
       [0..<length ?rows]
       \<lparr>as_rows = ?rows, as_accumulated_depreciation = None,
        as_value_after_depreciation = value_after_depreciation row\<rparr> = Inr s"
    and self'': "self'' = self\<lparr>depreciation_schedule := as_rows s\<rparr>"
    using sad_Inr by blast
  define m where "m = length ?rows - b"
  from h have bl: "b \<le> length ?rows" by simp
  then have len: "length ?rows = b + m" by (simp add: m_def)
  have len': "length (as_rows s) = length ?rows"
    using sad_loop_length[OF loop] by simp
  have sk: "\<forall>j<b. \<not> processed True (?rows ! j)" using h by (simp add: processed_def)
  have un: "\<forall>j\<ge>b. j < length ?rows \<longrightarrow> processed True (?rows ! j)"
    using h by (simp add: processed_def)
  from h have fl: "decrease_in_asset_value_due_to_value_adjustment a" and b0: "0 < b"
    and c0: "accumulated_depreciation_amount (?rows ! (b - 1)) = Some carried"
    and c0p: "at_precision (precision_accumulated_depreciation_amount self) carried"
    by simp_all
  have le: "b + m \<le> length ?rows" using len by simp
  have loop': "set_accumulated_depreciation_loop self a row dod dor True (straight_line_idx self)
       [0..<b + m]
       \<lparr>as_rows = ?rows, as_accumulated_depreciation = None,
        as_value_after_depreciation = value_after_depreciation row\<rparr> = Inr s"
    using loop by (simp only: len)
  have both: "accumulates carried (take m (drop b (as_rows s)))
      \<and> as_rows s ! (b - 1) = ?rows ! (b - 1)"
    using sad_chain_after_booked[OF fl b0 sk un c0 prec c0p le loop'] by blast
  have "length (drop b (as_rows s)) = m" using len' len by simp
  then have "take m (drop b (as_rows s)) = drop b (as_rows s)" by simp
  with both have "accumulates carried (drop b (as_rows s))"
    and "as_rows s ! (b - 1) = ?rows ! (b - 1)" by simp_all
  then show "depreciation_schedule self'' ! (b - 1) = depreciation_schedule self ! (b - 1)
              \<and> accumulates carried (drop b (depreciation_schedule self''))"
    using self'' len' by simp
qed

theorem accumulation_chain_witness:
  "precision_depreciation_amount ex_self_sl \<le> precision_accumulated_depreciation_amount ex_self_sl
   \<and> set_accumulated_depreciation ex_self_sl ex_asset ex_row_sl None None False
        = Inr ex_self_sl_reconciled
   \<and> idx_in_order (depreciation_schedule ex_self_sl)
   \<and> list_all (\<lambda>d. 0 \<le> depreciation_amount d) (depreciation_schedule ex_self_sl)
   \<and> 0 \<le> self_opening_accumulated_depreciation ex_self_sl
   \<and> at_precision (precision_accumulated_depreciation_amount ex_self_sl)
        (self_opening_accumulated_depreciation ex_self_sl)
   \<and> accumulates (self_opening_accumulated_depreciation ex_self_sl)
        (depreciation_schedule ex_self_sl_reconciled)
   \<and> precision_depreciation_amount ex_self_booked
        \<le> precision_accumulated_depreciation_amount ex_self_booked
   \<and> set_accumulated_depreciation ex_self_booked ex_asset_adjusted ex_row None None True
        = Inr ex_self_booked_adjusted
   \<and> decrease_in_asset_value_due_to_value_adjustment ex_asset_adjusted
   \<and> (0::nat) < 1 \<and> 1 \<le> length (depreciation_schedule ex_self_booked)
   \<and> list_all has_journal_entry (take 1 (depreciation_schedule ex_self_booked))
   \<and> list_all (\<lambda>d. \<not> has_journal_entry d) (drop 1 (depreciation_schedule ex_self_booked))
   \<and> accumulated_depreciation_amount (depreciation_schedule ex_self_booked ! (1 - 1)) = Some 100
   \<and> at_precision (precision_accumulated_depreciation_amount ex_self_booked) 100
   \<and> depreciation_schedule ex_self_booked_adjusted ! (1 - 1)
        = depreciation_schedule ex_self_booked ! (1 - 1)
   \<and> accumulates 100 (drop 1 (depreciation_schedule ex_self_booked_adjusted))"
proof -
  have p1: "precision_depreciation_amount ex_self_sl
              \<le> precision_accumulated_depreciation_amount ex_self_sl"
    by (simp add: ex_self_sl_def ex_self_def)
  have h1: "set_accumulated_depreciation ex_self_sl ex_asset ex_row_sl None None False
        = Inr ex_self_sl_reconciled"
    by code_simp
  have h2: "idx_in_order (depreciation_schedule ex_self_sl)"
    by code_simp
  have h3: "\<forall>d\<in>set (depreciation_schedule ex_self_sl). 0 \<le> depreciation_amount d"
    by (simp add: ex_self_sl_def ex_rows3_def)
  have h4: "0 \<le> self_opening_accumulated_depreciation ex_self_sl"
    by (simp add: ex_self_sl_def ex_self_def)
  have h6: "at_precision (precision_accumulated_depreciation_amount ex_self_sl)
        (self_opening_accumulated_depreciation ex_self_sl)"
    by code_simp
  from accumulation_chain[OF p1, where a = ex_asset and row = ex_row_sl and dod = None
         and dor = None and self' = ex_self_sl_reconciled] h1 h2 h3 h4 h6
  have c: "accumulates (self_opening_accumulated_depreciation ex_self_sl)
        (depreciation_schedule ex_self_sl_reconciled)" by blast
  from h3 have h3': "list_all (\<lambda>d. 0 \<le> depreciation_amount d) (depreciation_schedule ex_self_sl)"
    by (simp add: list_all_iff)
  have p2: "precision_depreciation_amount ex_self_booked
        \<le> precision_accumulated_depreciation_amount ex_self_booked"
    by (simp add: ex_self_booked_def ex_self_def)
  have g1: "set_accumulated_depreciation ex_self_booked ex_asset_adjusted ex_row None None True
        = Inr ex_self_booked_adjusted"
    by code_simp
  have g2: "decrease_in_asset_value_due_to_value_adjustment ex_asset_adjusted"
    by (simp add: ex_asset_adjusted_def)
  have rows: "depreciation_schedule ex_self_booked = ex_rows_booked"
    by (simp add: ex_self_booked_def)
  have g3: "(0::nat) < 1" and g4: "1 \<le> length (depreciation_schedule ex_self_booked)"
    by (simp_all add: rows ex_rows_booked_def)
  have g5: "\<forall>j<1. has_journal_entry (depreciation_schedule ex_self_booked ! j)"
    by (simp add: rows ex_rows_booked_def has_journal_entry_def)
  have g6: "\<forall>j\<ge>1. j < length (depreciation_schedule ex_self_booked)
                   \<longrightarrow> \<not> has_journal_entry (depreciation_schedule ex_self_booked ! j)"
  proof (intro allI impI)
    fix j :: nat
    assume "1 \<le> j" "j < length (depreciation_schedule ex_self_booked)"
    then have "j = 1" by (simp add: rows ex_rows_booked_def)
    then show "\<not> has_journal_entry (depreciation_schedule ex_self_booked ! j)"
      by (simp add: rows ex_rows_booked_def has_journal_entry_def)
  qed
  have g7: "accumulated_depreciation_amount (depreciation_schedule ex_self_booked ! (1 - 1))
              = Some 100"
    by (simp add: rows ex_rows_booked_def)
  have g8: "at_precision (precision_accumulated_depreciation_amount ex_self_booked) 100"
    by code_simp
  from accumulation_chain[OF p2, where a = ex_asset_adjusted and row = ex_row and dod = None
         and dor = None and self'' = ex_self_booked_adjusted and b = 1 and carried = 100]
       g1 g2 g3 g4 g5 g6 g7 g8
  have c2: "depreciation_schedule ex_self_booked_adjusted ! (1 - 1)
        = depreciation_schedule ex_self_booked ! (1 - 1)
   \<and> accumulates 100 (drop 1 (depreciation_schedule ex_self_booked_adjusted))"
    by blast
  have g5': "list_all has_journal_entry (take 1 (depreciation_schedule ex_self_booked))"
    by (simp add: rows ex_rows_booked_def has_journal_entry_def)
  have g6': "list_all (\<lambda>d. \<not> has_journal_entry d) (drop 1 (depreciation_schedule ex_self_booked))"
    by (simp add: rows ex_rows_booked_def has_journal_entry_def)
  show ?thesis using p1 h1 h2 h3' h4 h6 c p2 g1 g2 g3 g4 g5' g6' g7 g8 c2 by blast
qed

text \<open>
  C2 as stated fails when booked rows are skipped and the decrease-in-asset-value flag
  is not set: the first unskipped row restarts from the opening accumulated
  depreciation (here 0), not from the accumulated amount of the booked row before it.
  Both rows end with an accumulated amount of 100, though each has an amount of 100.
\<close>

theorem accumulation_restarts_after_skipped_rows:
  "reconciled_amounts
     (set_accumulated_depreciation ex_self_booked ex_asset ex_row None None True)
     = Inr [100, 100]
   \<and> reconciled_accumulated
     (set_accumulated_depreciation ex_self_booked ex_asset ex_row None None True)
     = Inr [Some 100, Some 100]"
  by code_simp

text \<open>
  C8, as the code has it. For a Straight Line or Manual schedule whose rows are numbered
  by position, reconciled with no disposal and no return date: every processed row's
  amount is rounded to the precision of the depreciation amount, and the last row (the
  row at position \<open>max(idx) - 1\<close>, counted from 0), when processed, is in addition
  given the rounded difference between the running value after all processed rows and
  the expected value after useful life. Rows skipped as booked keep their amount.
\<close>

theorem reconciler_adjusts_last_row:
  assumes m: "self_depreciation_method self = ''Straight Line''
              \<or> self_depreciation_method self = ''Manual''"
    and ord: "idx_in_order (depreciation_schedule self)"
    and run: "set_accumulated_depreciation self a row None None ign = Inr self'"
  shows "length (depreciation_schedule self') = length (depreciation_schedule self)
     \<and> (\<forall>i<length (depreciation_schedule self).
          depreciation_amount (depreciation_schedule self' ! i) =
            (if processed ign (depreciation_schedule self ! i) then
               flt_prec (depreciation_amount (depreciation_schedule self ! i))
                 (precision_depreciation_amount self)
               + (if Suc i = length (depreciation_schedule self)
                  then flt_prec (value_after_depreciation row
                                   - deducted self ign (depreciation_schedule self)
                                   - expected_value_after_useful_life row)
                         (precision_depreciation_amount self)
                  else 0)
             else depreciation_amount (depreciation_schedule self ! i)))"
  using assms by (rule sad_amounts)

theorem reconciler_adjusts_last_row_witness:
  "(self_depreciation_method ex_self_sl = ''Straight Line''
      \<or> self_depreciation_method ex_self_sl = ''Manual'')
   \<and> idx_in_order (depreciation_schedule ex_self_sl)
   \<and> set_accumulated_depreciation ex_self_sl ex_asset ex_row_sl None None False
        = Inr ex_self_sl_reconciled
   \<and> depreciation_amount (depreciation_schedule ex_self_sl_reconciled ! 2) =
        flt_prec (depreciation_amount (depreciation_schedule ex_self_sl ! 2))
          (precision_depreciation_amount ex_self_sl)
        + flt_prec (value_after_depreciation ex_row_sl
                      - deducted ex_self_sl False (depreciation_schedule ex_self_sl)
                      - expected_value_after_useful_life ex_row_sl)
            (precision_depreciation_amount ex_self_sl)"
proof -
  have h1: "self_depreciation_method ex_self_sl = ''Straight Line''
      \<or> self_depreciation_method ex_self_sl = ''Manual''"
    by (simp add: ex_self_sl_def)
  have h2: "idx_in_order (depreciation_schedule ex_self_sl)"
    by code_simp
  have h3: "set_accumulated_depreciation ex_self_sl ex_asset ex_row_sl None None False
        = Inr ex_self_sl_reconciled"
    by code_simp
  have len: "length (depreciation_schedule ex_self_sl) = 3"
    by (simp add: ex_self_sl_def ex_rows3_def)
  from reconciler_adjusts_last_row[OF h1 h2 h3] len
  have c: "depreciation_amount (depreciation_schedule ex_self_sl_reconciled ! 2) =
        flt_prec (depreciation_amount (depreciation_schedule ex_self_sl ! 2))
          (precision_depreciation_amount ex_self_sl)
        + flt_prec (value_after_depreciation ex_row_sl
                      - deducted ex_self_sl False (depreciation_schedule ex_self_sl)
                      - expected_value_after_useful_life ex_row_sl)
            (precision_depreciation_amount ex_self_sl)"
    by (simp add: processed_def)
  show ?thesis using h1 h2 h3 c by blast
qed

text \<open>
  C8 as stated fails: of three rows of 100 reconciled against a value of 400, it is the
  last row that absorbs the difference of 100; the penultimate row keeps its amount.
\<close>

theorem reconciler_adjusts_last_not_penultimate:
  "reconciled_amounts
     (set_accumulated_depreciation ex_self_sl ex_asset ex_row_sl None None False)
     = Inr [100, 100, 200]"
  by code_simp

text \<open>
  C3, as the code has it. Regeneration (\<^verbatim>\<open>make_depr_schedule\<close> followed by
  \<^verbatim>\<open>set_accumulated_depreciation\<close>) keeps every row of the leading run of booked
  rows at its position, with its schedule date and its journal entry. Its depreciation
  amount is unchanged when \<open>ignore_booked_entry\<close> is passed; otherwise the reconciler
  rewrites it rounded to the precision of the depreciation amount (shown here for
  schedules numbered by position, for a row that is not the last or when a disposal or
  return date is given). Rows after the first unbooked row are not kept, booked or not.
\<close>

theorem booked_prefix_kept:
  assumes run: "regenerate validate today self asset_doc row dod dor arg ign = Inr self'"
    and i: "i < length (takeWhile has_journal_entry (depreciation_schedule self))"
  shows "i < length (depreciation_schedule self')
     \<and> schedule_date (depreciation_schedule self' ! i)
           = schedule_date (depreciation_schedule self ! i)
     \<and> journal_entry (depreciation_schedule self' ! i)
           = journal_entry (depreciation_schedule self ! i)
     \<and> (ign \<longrightarrow> depreciation_amount (depreciation_schedule self' ! i)
                   = depreciation_amount (depreciation_schedule self ! i))
     \<and> (\<not> ign \<and> (dod \<noteq> None \<or> dor \<noteq> None \<or> Suc i < length (depreciation_schedule self'))
           \<and> idx_in_order (depreciation_schedule self)
         \<longrightarrow> depreciation_amount (depreciation_schedule self' ! i)
               = flt_prec (depreciation_amount (depreciation_schedule self ! i))
                   (precision_depreciation_amount self))"
proof -
  let ?rows = "depreciation_schedule self"
  let ?kept = "self\<lparr>depreciation_schedule := takeWhile has_journal_entry ?rows\<rparr>"
  from run obtain self2 asset2 row2 where
    mk: "make_depr_schedule validate today self asset_doc row dod arg = Inr (self2, asset2, row2)"
    and rc: "set_accumulated_depreciation self2 asset2 row2 dod dor ign = Inr self'"
    by (rule regenerate_Inr)
  have booked: "has_journal_entry (?rows ! i)" using i by (rule takeWhile_nth_holds)
  have il: "i < length ?rows"
    using i length_takeWhile_le[of has_journal_entry ?rows] by simp
  have kept_i: "takeWhile has_journal_entry ?rows ! i = ?rows ! i"
    using i by (rule takeWhile_nth)
  have row2: "depreciation_schedule self2 ! i = ?rows ! i \<and> i < length (depreciation_schedule self2)
              \<and> precision_depreciation_amount self2 = precision_depreciation_amount self
              \<and> (idx_in_order ?rows \<longrightarrow> idx_in_order (depreciation_schedule self2))"
  proof -
    from make_depr_schedule_extends[OF mk] show ?thesis
    proof
      assume "self2 = self"
      then show ?thesis using il by simp
    next
      assume ext: "extends ?kept self2"
      have "i < length (depreciation_schedule ?kept)" using i by simp
      from extends_prefix[OF ext this] kept_i extends_fields(2)[OF ext]
        extends_idx_in_order[OF ext]
      show ?thesis by (simp add: idx_in_order_takeWhile)
    qed
  qed
  then have r2: "depreciation_schedule self2 ! i = ?rows ! i"
    and i2: "i < length (depreciation_schedule self2)"
    and p2: "precision_depreciation_amount self2 = precision_depreciation_amount self"
    and o2: "idx_in_order ?rows \<Longrightarrow> idx_in_order (depreciation_schedule self2)"
    by simp_all
  note kept = sad_row_kept[OF rc i2]
  have len': "length (depreciation_schedule self') = length (depreciation_schedule self2)"
  proof -
    from rc obtain s where
      loop: "set_accumulated_depreciation_loop self2 asset2 row2 dod dor ign
         (straight_line_idx self2) [0..<length (depreciation_schedule self2)]
         \<lparr>as_rows = depreciation_schedule self2, as_accumulated_depreciation = None,
          as_value_after_depreciation = value_after_depreciation row2\<rparr> = Inr s"
      and self': "self' = self2\<lparr>depreciation_schedule := as_rows s\<rparr>"
      by (rule sad_Inr)
    from sad_loop_length[OF loop] self' show ?thesis by simp
  qed
  have a1: "ign \<longrightarrow> depreciation_amount (depreciation_schedule self' ! i)
                   = depreciation_amount (?rows ! i)"
    using kept(5) booked r2 by (simp add: processed_def)
  have a2: "\<not> ign \<and> (dod \<noteq> None \<or> dor \<noteq> None \<or> Suc i < length (depreciation_schedule self'))
           \<and> idx_in_order ?rows
         \<longrightarrow> depreciation_amount (depreciation_schedule self' ! i)
               = flt_prec (depreciation_amount (?rows ! i)) (precision_depreciation_amount self)"
  proof
    assume h: "\<not> ign \<and> (dod \<noteq> None \<or> dor \<noteq> None \<or> Suc i < length (depreciation_schedule self'))
           \<and> idx_in_order ?rows"
    then have "\<not> (is_max_straight_line_idx (straight_line_idx self2) i \<and> dod = None \<and> dor = None)"
      using is_max_straight_line_idx_last[OF o2, of i] len' by auto
    with kept(5) h r2 p2 show "depreciation_amount (depreciation_schedule self' ! i)
               = flt_prec (depreciation_amount (?rows ! i)) (precision_depreciation_amount self)"
      by (simp add: processed_def)
  qed
  from kept(1,2,3) r2 a1 a2 show ?thesis by simp
qed

theorem booked_prefix_kept_witness:
  "regenerate validate_ok ex_today ex_self_booked ex_asset ex_row None None 0 True
     = Inr ex_self_booked_regenerated
   \<and> 0 < length (takeWhile has_journal_entry (depreciation_schedule ex_self_booked))
   \<and> 0 < length (depreciation_schedule ex_self_booked_regenerated)
   \<and> schedule_date (depreciation_schedule ex_self_booked_regenerated ! 0)
        = schedule_date (depreciation_schedule ex_self_booked ! 0)
   \<and> journal_entry (depreciation_schedule ex_self_booked_regenerated ! 0)
        = journal_entry (depreciation_schedule ex_self_booked ! 0)
   \<and> depreciation_amount (depreciation_schedule ex_self_booked_regenerated ! 0)
        = depreciation_amount (depreciation_schedule ex_self_booked ! 0)"
proof -
  have mk: "make_depr_schedule validate_ok ex_today ex_self_booked ex_asset ex_row None 0
        = Inr (ex_self\<lparr>depreciation_schedule :=
                 [\<lparr>idx = 1, schedule_date = Date 2020 12 31, depreciation_amount = 100,
                   accumulated_depreciation_amount = Some 100,
                   journal_entry = Some ''JE-0001''\<rparr>,
                  \<lparr>idx = 2, schedule_date = Date 2021 12 31, depreciation_amount = 500,
                   accumulated_depreciation_amount = None, journal_entry = None\<rparr>]\<rparr>,
               ex_asset, ex_row\<lparr>value_after_depreciation := 1000\<rparr>)"
    by code_simp
  have rc: "set_accumulated_depreciation
              (ex_self\<lparr>depreciation_schedule :=
                 [\<lparr>idx = 1, schedule_date = Date 2020 12 31, depreciation_amount = 100,
                   accumulated_depreciation_amount = Some 100,
                   journal_entry = Some ''JE-0001''\<rparr>,
                  \<lparr>idx = 2, schedule_date = Date 2021 12 31, depreciation_amount = 500,
                   accumulated_depreciation_amount = None, journal_entry = None\<rparr>]\<rparr>)
              ex_asset (ex_row\<lparr>value_after_depreciation := 1000\<rparr>) None None True
        = Inr ex_self_booked_regenerated"
    by code_simp
  have h1: "regenerate validate_ok ex_today ex_self_booked ex_asset ex_row None None 0 True
     = Inr ex_self_booked_regenerated"
    by (simp add: regenerate_def mk rc)
  have h2: "0 < length (takeWhile has_journal_entry (depreciation_schedule ex_self_booked))"
    by (simp add: ex_self_booked_def ex_rows_booked_def has_journal_entry_def)
  from booked_prefix_kept[OF h1 h2]
  have c: "0 < length (depreciation_schedule ex_self_booked_regenerated)
   \<and> schedule_date (depreciation_schedule ex_self_booked_regenerated ! 0)
        = schedule_date (depreciation_schedule ex_self_booked ! 0)
   \<and> journal_entry (depreciation_schedule ex_self_booked_regenerated ! 0)
        = journal_entry (depreciation_schedule ex_self_booked ! 0)
   \<and> depreciation_amount (depreciation_schedule ex_self_booked_regenerated ! 0)
        = depreciation_amount (depreciation_schedule ex_self_booked ! 0)"
    by simp
  show ?thesis using h1 h2 c by blast
qed

text \<open>
  C3 as stated fails for a booked row that follows an unbooked one: the row booked as
  JE-0003 (150 on 30 June 2022) is discarded and a fresh third row is generated in its
  place.
\<close>

theorem booked_row_after_gap_is_dropped:
  "reconciled_bookings
     (regenerate validate_ok ex_today ex_self_gap ex_asset300 ex_row_sl3 None None 0 False)
     = Inr [(Date 2020 12 31, 100, Some ''JE-0001''),
            (Date 2021 12 31, 100, None),
            (Date 2022 12 31, 100, None)]"
proof -
  have mk: "make_depr_schedule validate_ok ex_today ex_self_gap ex_asset300 ex_row_sl3 None 0
        = Inr (ex_self\<lparr>self_depreciation_method := ''Straight Line'',
                 depreciation_schedule :=
                 [\<lparr>idx = 1, schedule_date = Date 2020 12 31, depreciation_amount = 100,
                   accumulated_depreciation_amount = Some 100,
                   journal_entry = Some ''JE-0001''\<rparr>,
                  \<lparr>idx = 2, schedule_date = Date 2021 12 31, depreciation_amount = 100,
                   accumulated_depreciation_amount = None, journal_entry = None\<rparr>,
                  \<lparr>idx = 3, schedule_date = Date 2022 12 31, depreciation_amount = 100,
                   accumulated_depreciation_amount = None, journal_entry = None\<rparr>]\<rparr>,
               ex_asset300, ex_row_sl3\<lparr>value_after_depreciation := 300\<rparr>)"
    by code_simp
  have rc: "reconciled_bookings (set_accumulated_depreciation
              (ex_self\<lparr>self_depreciation_method := ''Straight Line'',
                 depreciation_schedule :=
                 [\<lparr>idx = 1, schedule_date = Date 2020 12 31, depreciation_amount = 100,
                   accumulated_depreciation_amount = Some 100,
                   journal_entry = Some ''JE-0001''\<rparr>,
                  \<lparr>idx = 2, schedule_date = Date 2021 12 31, depreciation_amount = 100,
                   accumulated_depreciation_amount = None, journal_entry = None\<rparr>,
                  \<lparr>idx = 3, schedule_date = Date 2022 12 31, depreciation_amount = 100,
                   accumulated_depreciation_amount = None, journal_entry = None\<rparr>]\<rparr>)
              ex_asset300 (ex_row_sl3\<lparr>value_after_depreciation := 300\<rparr>) None None False)
     = Inr [(Date 2020 12 31, 100, Some ''JE-0001''),
            (Date 2021 12 31, 100, None),
            (Date 2022 12 31, 100, None)]"
    by code_simp
  show ?thesis using rc by (simp add: regenerate_def mk)
qed

text \<open>
  C5, as the code has it. A generation call with a disposal date, for an asset with an
  available-for-use date that passes validation. When at least one period is left to
  generate (\<open>start < final_number_of_depreciations\<close>) and the period that ends at the
  disposal date has a non-zero length: the result is the kept rows followed by at most
  one new row. The row is appended exactly when its amount is positive; its schedule
  date is the disposal date and its amount is the period amount of the first pending
  period times the days from the last kept row's schedule date (or, when no row is
  kept, from the available-for-use date moved on by the booked periods) to the disposal
  date, over the days of the period that ends at the disposal date. The loop stops
  there, whatever periods remain. When no period is left to generate, the loop body is
  never entered and the result is the kept rows, with no new row.
\<close>

theorem disposal_appends_one_row:
  assumes avail: "available_for_use_date asset_doc \<noteq> None"
    and v: "validate asset_doc row = Inr (asset_v, row_v)"
    and cl: "clear_depr_schedule self = (start, self_c)"
    and V: "V = (if arg = 0 then get_value_after_depreciation_for_making_schedule asset_v row_v
                 else arg)"
    and row_m: "row_m = row_v\<lparr>value_after_depreciation := V\<rparr>"
    and L: "L = init_loop_locals today self_c asset_v row_m start"
    and prev: "prev = (if 0 < start \<and> start - 1 < int (length (depreciation_schedule self_c))
                       then depreciation_amount (depreciation_schedule self_c ! nat (start - 1))
                       else 0)"
    and share: "share = amount
                  * of_int (date_diff date_of_disposal
                              (disposal_from_date today asset_v row_m self_c))
                  / of_int (get_total_days date_of_disposal (frequency_of_depreciation row_m))"
  shows "(start < final_number_of_depreciations L
          \<and> get_depreciation_amount today asset_v V row_m start prev
                (has_wdv_or_dd_non_yearly_pro_rata L) (number_of_pending_depreciations L)
              = Inr amount
          \<and> get_total_days date_of_disposal (frequency_of_depreciation row_m) \<noteq> 0
          \<longrightarrow> make_depr_schedule validate today self asset_doc row (Some date_of_disposal) arg =
                Inr (if 0 < share then add_depr_schedule_row self_c date_of_disposal share
                     else self_c,
                     asset_v, row_m))
       \<and> (final_number_of_depreciations L \<le> start
          \<longrightarrow> make_depr_schedule validate today self asset_doc row (Some date_of_disposal) arg =
                Inr (self_c, asset_v, row_m))"
proof (rule conjI; rule impI)
  assume h: "start < final_number_of_depreciations L
          \<and> get_depreciation_amount today asset_v V row_m start prev
                (has_wdv_or_dd_non_yearly_pro_rata L) (number_of_pending_depreciations L)
              = Inr amount
          \<and> get_total_days date_of_disposal (frequency_of_depreciation row_m) \<noteq> 0"
  then have remaining: "start < final_number_of_depreciations L"
    and amt: "get_depreciation_amount today asset_v V row_m start prev
                (has_wdv_or_dd_non_yearly_pro_rata L) (number_of_pending_depreciations L)
              = Inr amount"
    and td: "get_total_days date_of_disposal (frequency_of_depreciation row_m) \<noteq> 0"
    by simp_all
  show "make_depr_schedule validate today self asset_doc row (Some date_of_disposal) arg =
          Inr (if 0 < share then add_depr_schedule_row self_c date_of_disposal share else self_c,
               asset_v, row_m)"
    using avail v cl V row_m L remaining prev amt td share by (rule disposal_one_row)
next
  assume "final_number_of_depreciations L \<le> start"
  with avail v cl V row_m L
  show "make_depr_schedule validate today self asset_doc row (Some date_of_disposal) arg =
          Inr (self_c, asset_v, row_m)"
    by (rule disposal_no_pending_period)
qed

theorem disposal_appends_one_row_witness:
  "available_for_use_date ex_asset \<noteq> None
   \<and> validate_ok ex_asset ex_row = Inr (ex_asset, ex_row)
   \<and> clear_depr_schedule ex_self = (0, ex_self)
   \<and> (1000::rat) = (if (0::rat) = 0
                     then get_value_after_depreciation_for_making_schedule ex_asset ex_row
                     else 0)
   \<and> ex_row_made = ex_row\<lparr>value_after_depreciation := 1000\<rparr>
   \<and> ex_locals = init_loop_locals ex_today ex_self ex_asset ex_row_made 0
   \<and> 0 < final_number_of_depreciations ex_locals
   \<and> (0::rat) = (if (0::int) < 0 \<and> 0 - 1 < int (length (depreciation_schedule ex_self))
                  then depreciation_amount (depreciation_schedule ex_self ! nat (0 - 1))
                  else 0)
   \<and> get_depreciation_amount ex_today ex_asset 1000 ex_row_made 0 0
         (has_wdv_or_dd_non_yearly_pro_rata ex_locals) (number_of_pending_depreciations ex_locals)
       = Inr 500
   \<and> get_total_days ex_disposal (frequency_of_depreciation ex_row_made) \<noteq> 0
   \<and> (45500 / 183 :: rat) = 500
        * of_int (date_diff ex_disposal (disposal_from_date ex_today ex_asset ex_row_made ex_self))
        / of_int (get_total_days ex_disposal (frequency_of_depreciation ex_row_made))
   \<and> make_depr_schedule validate_ok ex_today ex_self ex_asset ex_row (Some ex_disposal) 0 =
        Inr (add_depr_schedule_row ex_self ex_disposal (45500 / 183), ex_asset, ex_row_made)
   \<and> validate_ok ex_asset ex_row_no_period = Inr (ex_asset, ex_row_no_period)
   \<and> (1000::rat) = (if (0::rat) = 0
                     then get_value_after_depreciation_for_making_schedule ex_asset
                            ex_row_no_period
                     else 0)
   \<and> ex_row_no_period_made = ex_row_no_period\<lparr>value_after_depreciation := 1000\<rparr>
   \<and> ex_locals_no_period = init_loop_locals ex_today ex_self ex_asset ex_row_no_period_made 0
   \<and> (45500 / 183 :: rat) = 500
        * of_int (date_diff ex_disposal
                    (disposal_from_date ex_today ex_asset ex_row_no_period_made ex_self))
        / of_int (get_total_days ex_disposal (frequency_of_depreciation ex_row_no_period_made))
   \<and> final_number_of_depreciations ex_locals_no_period \<le> 0
   \<and> make_depr_schedule validate_ok ex_today ex_self ex_asset ex_row_no_period
        (Some ex_disposal) 0 = Inr (ex_self, ex_asset, ex_row_no_period_made)"
proof -
  have h1: "available_for_use_date ex_asset \<noteq> None" by (simp add: ex_asset_def)
  have h2: "validate_ok ex_asset ex_row = Inr (ex_asset, ex_row)" by (simp add: validate_ok_def)
  have h3: "clear_depr_schedule ex_self = (0, ex_self)"
    by (simp add: clear_depr_schedule_def ex_self_def)
  have h4: "(1000::rat) = (if (0::rat) = 0
                     then get_value_after_depreciation_for_making_schedule ex_asset ex_row
                     else 0)"
    by (simp add: get_value_after_depreciation_for_making_schedule_def ex_asset_def)
  have h5: "ex_row_made = ex_row\<lparr>value_after_depreciation := 1000\<rparr>"
    by (simp add: ex_row_made_def)
  have h6: "ex_locals = init_loop_locals ex_today ex_self ex_asset ex_row_made 0"
    by (simp add: ex_locals_def)
  have h7: "0 < final_number_of_depreciations ex_locals" by code_simp
  have h8: "(0::rat) = (if (0::int) < 0 \<and> 0 - 1 < int (length (depreciation_schedule ex_self))
                  then depreciation_amount (depreciation_schedule ex_self ! nat (0 - 1))
                  else 0)"
    by simp
  have h9: "get_depreciation_amount ex_today ex_asset 1000 ex_row_made 0 0
         (has_wdv_or_dd_non_yearly_pro_rata ex_locals) (number_of_pending_depreciations ex_locals)
       = Inr 500"
    by code_simp
  have h10: "get_total_days ex_disposal (frequency_of_depreciation ex_row_made) \<noteq> 0"
    by code_simp
  have h11: "(45500 / 183 :: rat) = 500
        * of_int (date_diff ex_disposal (disposal_from_date ex_today ex_asset ex_row_made ex_self))
        / of_int (get_total_days ex_disposal (frequency_of_depreciation ex_row_made))"
    by code_simp
  from disposal_appends_one_row[where validate = validate_ok and asset_doc = ex_asset
         and row = ex_row and asset_v = ex_asset and row_v = ex_row and self = ex_self
         and start = 0 and self_c = ex_self and V = 1000 and arg = 0 and row_m = ex_row_made
         and L = ex_locals and today = ex_today and prev = 0 and amount = 500
         and date_of_disposal = ex_disposal and share = "45500 / 183",
         OF h1 h2 h3 h4 h5 h6 h8 h11] h7 h9 h10
  have c: "make_depr_schedule validate_ok ex_today ex_self ex_asset ex_row (Some ex_disposal) 0 =
        Inr (add_depr_schedule_row ex_self ex_disposal (45500 / 183), ex_asset, ex_row_made)"
    by simp
  have g2: "validate_ok ex_asset ex_row_no_period = Inr (ex_asset, ex_row_no_period)"
    by (simp add: validate_ok_def)
  have g4: "(1000::rat) = (if (0::rat) = 0
                     then get_value_after_depreciation_for_making_schedule ex_asset
                            ex_row_no_period
                     else 0)"
    by (simp add: get_value_after_depreciation_for_making_schedule_def ex_asset_def)
  have g5: "ex_row_no_period_made = ex_row_no_period\<lparr>value_after_depreciation := 1000\<rparr>"
    by (simp add: ex_row_no_period_made_def)
  have g6: "ex_locals_no_period
              = init_loop_locals ex_today ex_self ex_asset ex_row_no_period_made 0"
    by (simp add: ex_locals_no_period_def)
  have g7: "final_number_of_depreciations ex_locals_no_period \<le> 0" by code_simp
  have g11: "(45500 / 183 :: rat) = 500
        * of_int (date_diff ex_disposal
                    (disposal_from_date ex_today ex_asset ex_row_no_period_made ex_self))
        / of_int (get_total_days ex_disposal (frequency_of_depreciation ex_row_no_period_made))"
    by code_simp
  from disposal_appends_one_row[where validate = validate_ok and asset_doc = ex_asset
         and row = ex_row_no_period and asset_v = ex_asset and row_v = ex_row_no_period
         and self = ex_self and start = 0 and self_c = ex_self and V = 1000 and arg = 0
         and row_m = ex_row_no_period_made and L = ex_locals_no_period and today = ex_today
         and prev = 0 and amount = 500 and date_of_disposal = ex_disposal
         and share = "45500 / 183",
         OF h1 g2 h3 g4 g5 g6 h8 g11] g7
  have c2: "make_depr_schedule validate_ok ex_today ex_self ex_asset ex_row_no_period
        (Some ex_disposal) 0 = Inr (ex_self, ex_asset, ex_row_no_period_made)"
    by simp
  show ?thesis using h1 h2 h3 h4 h5 h6 h7 h8 h9 h10 h11 c g2 g4 g5 g6 g11 g7 c2 by blast
qed

text \<open>
  C5 as stated fails. For the policy with no period to generate, the pro-rata share of
  the period amount (500) for the days up to the disposal date is positive, but the
  period loop is not entered and no row is appended.
\<close>

theorem disposal_with_no_period_left_appends_nothing:
  "made_amounts (make_depr_schedule validate_ok ex_today ex_self ex_asset ex_row_no_period
                   (Some ex_disposal) 0) = Inr []
   \<and> get_depreciation_amount ex_today ex_asset 1000 ex_row_no_period_made 0 0 False 0 = Inr 500
   \<and> disposal_from_date ex_today ex_asset ex_row_no_period_made ex_self = Date 2020 1 1
   \<and> (500::rat) * of_int (date_diff ex_disposal (Date 2020 1 1))
        / of_int (get_total_days ex_disposal (frequency_of_depreciation ex_row_no_period_made))
      = 45500 / 183"
proof -
  have a: "made_amounts (make_depr_schedule validate_ok ex_today ex_self ex_asset
                   ex_row_no_period (Some ex_disposal) 0) = Inr []"
    by code_simp
  have b: "get_depreciation_amount ex_today ex_asset 1000 ex_row_no_period_made 0 0 False 0
             = Inr 500"
    by code_simp
  have c: "disposal_from_date ex_today ex_asset ex_row_no_period_made ex_self = Date 2020 1 1"
    by code_simp
  have d: "(500::rat) * of_int (date_diff ex_disposal (Date 2020 1 1))
        / of_int (get_total_days ex_disposal (frequency_of_depreciation ex_row_no_period_made))
      = 45500 / 183"
    by code_simp
  show ?thesis using a b c d by blast
qed




text \<open>
  C10, as the code has it. Generation from period 0, with a partial first period
  detected (\<open>has_pro_rata\<close>) but a schedule whose opening accumulated depreciation is not
  zero, outside the non-yearly pro-rata case of the rate-based methods and with no
  disposal date. \<open>has_pro_rata\<close> has added one period to
  \<open>final_number_of_depreciations\<close>; that number being above 1, period 0 is not the last
  period as well. Then no pro-rata share is taken for period 0. When the policy has no
  expected value after useful life, or the value left after the period is not below it,
  the row of period 0 carries the full amount that the period amount calculator
  returned. Otherwise the residual adjustment applies: the amount is changed by the
  difference between the value left and the expected value, and \<open>skip_row\<close> is set. In
  both cases the row is dated at the depreciation start date (moved to the end of its
  month when that date is a month end) and is appended when the amount is not zero and
  its rounded value is positive; the running value is reduced by the rounded period
  amount.
\<close>

theorem first_period_unprorated_with_opening:
  assumes L: "L = init_loop_locals today self asset_doc row 0"
    and s: "s = \<lparr>ls_self = self, ls_asset_doc = asset_doc, ls_value_after_depreciation = V,
                 ls_skip_row = False, ls_schedule_date = None, ls_break = False\<rparr>"
    and pr: "has_pro_rata L" and nw: "\<not> has_wdv_or_dd_non_yearly_pro_rata L"
    and op: "self_opening_accumulated_depreciation self \<noteq> 0"
    and fin: "1 < final_number_of_depreciations L"
    and amt: "get_depreciation_amount today asset_doc V row 0 0 False
                (number_of_pending_depreciations L) = Inr amount"
    and d: "d = (if should_get_last_day L
                 then get_last_day (add_months (depreciation_start_date row) 0)
                 else add_months (depreciation_start_date row) 0)"
    and V': "V' = V - flt_prec amount (precision_gross_purchase_amount asset_doc)"
    and adj: "adjust = (expected_value_after_useful_life row \<noteq> 0
                        \<and> V' < expected_value_after_useful_life row)"
    and amt': "amount' = (if adjust then amount + (V' - expected_value_after_useful_life row)
                          else amount)"
  shows "final_number_of_depreciations L =
           total_number_of_depreciations row - self_number_of_depreciations_booked self + 1
         \<and> depr_schedule_iteration today row None L 0 s =
           Inr \<lparr>ls_self =
                  (if amount \<noteq> 0
                      \<and> 0 < flt_prec amount' (precision_gross_purchase_amount asset_doc)
                   then self\<lparr>depreciation_schedule :=
                          depreciation_schedule self @
                            [\<lparr>idx = int (length (depreciation_schedule self)) + 1,
                              schedule_date = d,
                              depreciation_amount = amount',
                              accumulated_depreciation_amount = None,
                              journal_entry = None\<rparr>]\<rparr>
                   else self),
                ls_asset_doc = asset_doc,
                ls_value_after_depreciation = (if amount = 0 then V else V'),
                ls_skip_row = (amount \<noteq> 0 \<and> adjust),
                ls_schedule_date = Some d, ls_break = False\<rparr>"
proof -
  have fn: "final_number_of_depreciations L =
           total_number_of_depreciations row - self_number_of_depreciations_booked self + 1"
    using pr unfolding L by (simp add: init_loop_locals_def Let_def split: if_splits)
  have op': "self_opening_accumulated_depreciation (ls_self s) \<noteq> 0" using op by (simp add: s)
  have ns: "\<not> ls_skip_row s" by (simp add: s)
  have amt0: "get_depreciation_amount today (ls_asset_doc s) (ls_value_after_depreciation s)
                row 0 0 False (number_of_pending_depreciations L) = Inr amount"
    using amt by (simp add: s)
  have it: "depr_schedule_iteration today row None L 0 s =
              append_iteration row L 0 amount (s\<lparr>ls_schedule_date := Some d\<rparr>)"
    using pr nw op' ns fin amt0 d by (rule depr_schedule_iteration_first_plain)
  have s1: "s\<lparr>ls_schedule_date := Some d\<rparr> =
              \<lparr>ls_self = self, ls_asset_doc = asset_doc, ls_value_after_depreciation = V,
               ls_skip_row = False, ls_schedule_date = Some d, ls_break = False\<rparr>"
    by (simp add: s)
  show ?thesis
    unfolding it s1 using fn append_iteration_first[OF fin V' adj amt'] by simp
qed

theorem first_period_unprorated_with_opening_witness:
  "ex_locals_existing
     = init_loop_locals ex_today ex_self_existing ex_asset_existing ex_row_existing 0
   \<and> ex_state_existing =
       \<lparr>ls_self = ex_self_existing, ls_asset_doc = ex_asset_existing,
        ls_value_after_depreciation = 900, ls_skip_row = False,
        ls_schedule_date = None, ls_break = False\<rparr>
   \<and> has_pro_rata ex_locals_existing
   \<and> \<not> has_wdv_or_dd_non_yearly_pro_rata ex_locals_existing
   \<and> self_opening_accumulated_depreciation ex_self_existing \<noteq> 0
   \<and> 1 < final_number_of_depreciations ex_locals_existing
   \<and> get_depreciation_amount ex_today ex_asset_existing 900 ex_row_existing 0 0 False
         (number_of_pending_depreciations ex_locals_existing) = Inr 450
   \<and> Date 2020 12 31 =
        (if should_get_last_day ex_locals_existing
         then get_last_day (add_months (depreciation_start_date ex_row_existing) 0)
         else add_months (depreciation_start_date ex_row_existing) 0)
   \<and> (450::rat) = 900 - flt_prec 450 (precision_gross_purchase_amount ex_asset_existing)
   \<and> False = (expected_value_after_useful_life ex_row_existing \<noteq> 0
               \<and> 450 < expected_value_after_useful_life ex_row_existing)
   \<and> (450::rat) = (if False then 450 + (450 - expected_value_after_useful_life ex_row_existing)
                    else 450)
   \<and> final_number_of_depreciations ex_locals_existing
        = total_number_of_depreciations ex_row_existing
            - self_number_of_depreciations_booked ex_self_existing + 1
   \<and> depr_schedule_iteration ex_today ex_row_existing None ex_locals_existing 0
        ex_state_existing =
        Inr \<lparr>ls_self =
               ex_self_existing\<lparr>depreciation_schedule :=
                 [\<lparr>idx = 1, schedule_date = Date 2020 12 31, depreciation_amount = 450,
                   accumulated_depreciation_amount = None, journal_entry = None\<rparr>]\<rparr>,
             ls_asset_doc = ex_asset_existing, ls_value_after_depreciation = 450,
             ls_skip_row = False, ls_schedule_date = Some (Date 2020 12 31),
             ls_break = False\<rparr>"
proof -
  have h1: "ex_locals_existing
     = init_loop_locals ex_today ex_self_existing ex_asset_existing ex_row_existing 0"
    by (simp add: ex_locals_existing_def)
  have h2: "ex_state_existing =
       \<lparr>ls_self = ex_self_existing, ls_asset_doc = ex_asset_existing,
        ls_value_after_depreciation = 900, ls_skip_row = False,
        ls_schedule_date = None, ls_break = False\<rparr>"
    by (simp add: ex_state_existing_def)
  have h3: "has_pro_rata ex_locals_existing" by code_simp
  have h4: "\<not> has_wdv_or_dd_non_yearly_pro_rata ex_locals_existing" by code_simp
  have h5: "self_opening_accumulated_depreciation ex_self_existing \<noteq> 0"
    by (simp add: ex_self_existing_def)
  have h6: "1 < final_number_of_depreciations ex_locals_existing" by code_simp
  have h7: "get_depreciation_amount ex_today ex_asset_existing 900 ex_row_existing 0 0 False
         (number_of_pending_depreciations ex_locals_existing) = Inr 450"
    by code_simp
  have h8: "Date 2020 12 31 =
        (if should_get_last_day ex_locals_existing
         then get_last_day (add_months (depreciation_start_date ex_row_existing) 0)
         else add_months (depreciation_start_date ex_row_existing) 0)"
    by code_simp
  have h9: "(450::rat) = 900 - flt_prec 450 (precision_gross_purchase_amount ex_asset_existing)"
    by code_simp
  have E: "expected_value_after_useful_life ex_row_existing = 0"
    by (simp add: ex_row_existing_def ex_row_sl2_def ex_row_def)
  have h10: "False = (expected_value_after_useful_life ex_row_existing \<noteq> 0
               \<and> 450 < expected_value_after_useful_life ex_row_existing)"
    by (simp add: E)
  have h11: "(450::rat) = (if False then 450 + (450 - expected_value_after_useful_life ex_row_existing)
                    else 450)"
    by simp
  have p: "0 < flt_prec 450 (precision_gross_purchase_amount ex_asset_existing)"
    by code_simp
  have rows: "depreciation_schedule ex_self_existing = []"
    by (simp add: ex_self_existing_def ex_self_def)
  from first_period_unprorated_with_opening[where L = ex_locals_existing and today = ex_today
         and self = ex_self_existing and asset_doc = ex_asset_existing and row = ex_row_existing
         and s = ex_state_existing and V = 900 and amount = 450 and d = "Date 2020 12 31"
         and V' = 450 and adjust = False and amount' = 450,
         OF h1 h2 h3 h4 h5 h6 h7 h8 h9 h10 h11]
  have c: "final_number_of_depreciations ex_locals_existing
        = total_number_of_depreciations ex_row_existing
            - self_number_of_depreciations_booked ex_self_existing + 1
   \<and> depr_schedule_iteration ex_today ex_row_existing None ex_locals_existing 0
        ex_state_existing =
        Inr \<lparr>ls_self =
               ex_self_existing\<lparr>depreciation_schedule :=
                 [\<lparr>idx = 1, schedule_date = Date 2020 12 31, depreciation_amount = 450,
                   accumulated_depreciation_amount = None, journal_entry = None\<rparr>]\<rparr>,
             ls_asset_doc = ex_asset_existing, ls_value_after_depreciation = 450,
             ls_skip_row = False, ls_schedule_date = Some (Date 2020 12 31),
             ls_break = False\<rparr>"
    using p rows by simp
  show ?thesis using h1 h2 h3 h4 h5 h6 h7 h8 h9 h10 h11 c by blast
qed

text \<open>
  C10 as stated fails. Under the written-down-value policy of 95 percent with a residual
  value of 100, on a running value of 900, a partial first period is detected and the
  opening accumulated depreciation is not zero; the period amount is 855, but the value
  left (45) is below the residual value, and the row of period 0 carries 800.
\<close>

theorem first_period_clipped_by_residual_value:
  "has_pro_rata ex_locals_wdv95
   \<and> \<not> has_wdv_or_dd_non_yearly_pro_rata ex_locals_wdv95
   \<and> self_opening_accumulated_depreciation ex_self_residual = 100
   \<and> final_number_of_depreciations ex_locals_wdv95 = 3
   \<and> get_depreciation_amount ex_today ex_asset_existing 900
        (ex_row_wdv95\<lparr>value_after_depreciation := 900\<rparr>) 0 0 False
        (number_of_pending_depreciations ex_locals_wdv95) = Inr 855
   \<and> made_amounts (make_depr_schedule validate_ok ex_today ex_self_residual
        ex_asset_existing ex_row_wdv95 None 0) = Inr [800]"
proof -
  have a: "has_pro_rata ex_locals_wdv95" by code_simp
  have b: "\<not> has_wdv_or_dd_non_yearly_pro_rata ex_locals_wdv95" by code_simp
  have c: "self_opening_accumulated_depreciation ex_self_residual = 100"
    by (simp add: ex_self_residual_def)
  have d: "final_number_of_depreciations ex_locals_wdv95 = 3" by code_simp
  have e: "get_depreciation_amount ex_today ex_asset_existing 900
        (ex_row_wdv95\<lparr>value_after_depreciation := 900\<rparr>) 0 0 False
        (number_of_pending_depreciations ex_locals_wdv95) = Inr 855"
    by code_simp
  have f: "made_amounts (make_depr_schedule validate_ok ex_today ex_self_residual
        ex_asset_existing ex_row_wdv95 None 0) = Inr [800]"
    by code_simp
  show ?thesis using a b c d e f by blast
qed

text \<open>
  C9. Over a table of stored schedules that holds at most one non-cancelled schedule for
  each asset and finance book: validation raises the duplicate-schedule error for a
  schedule whenever another non-cancelled schedule (one stored under another name) exists
  for the same asset and finance book, and raising, it lets nothing be written; and when
  validation passes for a schedule that is not yet stored, storing it keeps the table at
  no more than one non-cancelled schedule for each asset and finance book. So the
  invariant holds at any time along validated insertions.
\<close>

theorem duplicate_schedule_rejected:
  "(at_most_one_schedule table \<and> other \<in> set table \<and> same_pair other self
      \<and> non_cancelled other \<and> name other \<noteq> name self \<and> name other \<noteq> []
      \<longrightarrow> validate_another_asset_depr_schedule_does_not_exist table self
            = Inl DuplicateScheduleError)
   \<and> (at_most_one_schedule table' \<and> (\<forall>d\<in>set table'. name d \<noteq> [] \<and> name d \<noteq> name self')
        \<and> validate_another_asset_depr_schedule_does_not_exist table' self' = Inr ()
      \<longrightarrow> at_most_one_schedule (table' @ [self']))"
proof (intro conjI impI)
  assume a: "at_most_one_schedule table \<and> other \<in> set table \<and> same_pair other self
      \<and> non_cancelled other \<and> name other \<noteq> name self \<and> name other \<noteq> []"
  let ?P = "\<lambda>doc. same_pair doc self \<and> non_cancelled doc"
  from a have "\<exists>x\<in>set table. ?P x" by blast
  then obtain d where f: "find ?P table = Some d"
    by (cases "find ?P table") (auto simp: find_None_iff)
  then have d: "d \<in> set table" "same_pair d self" "non_cancelled d"
    by (auto simp: find_Some_iff)
  from d(2) a have "same_pair d other" by (blast intro: same_pair_sym_trans)
  with a d have "name d = name other" unfolding at_most_one_schedule_def by blast
  with a f show "validate_another_asset_depr_schedule_does_not_exist table self
            = Inl DuplicateScheduleError"
    by (simp add: validate_another_unfold)
next
  assume a: "at_most_one_schedule table' \<and> (\<forall>d\<in>set table'. name d \<noteq> [] \<and> name d \<noteq> name self')
        \<and> validate_another_asset_depr_schedule_does_not_exist table' self' = Inr ()"
  let ?P = "\<lambda>doc. same_pair doc self' \<and> non_cancelled doc"
  have none: "find ?P table' = None"
  proof (cases "find ?P table'")
    case None
    then show ?thesis .
  next
    case (Some d)
    then have "d \<in> set table'" by (auto simp: find_Some_iff)
    with a have "name d \<noteq> [] \<and> name d \<noteq> name self'" by blast
    with a Some show ?thesis by (simp add: validate_another_unfold)
  qed
  then have no: "\<forall>d\<in>set table'. \<not> (same_pair d self' \<and> non_cancelled d)"
    by (simp add: find_None_iff)
  have sym: "\<And>x y. same_pair x y \<Longrightarrow> same_pair y x" by (simp add: same_pair_def)
  show "at_most_one_schedule (table' @ [self'])"
    unfolding at_most_one_schedule_def
  proof (intro ballI impI)
    fix d1 d2
    assume m: "d1 \<in> set (table' @ [self'])" "d2 \<in> set (table' @ [self'])"
      and p: "same_pair d1 d2 \<and> non_cancelled d1 \<and> non_cancelled d2"
    consider "d1 \<in> set table'" "d2 \<in> set table'" | "d1 = self'" "d2 = self'"
      | "d1 \<in> set table'" "d2 = self'" | "d1 = self'" "d2 \<in> set table'"
      using m by auto
    then show "name d1 = name d2"
    proof cases
      case 1
      with a p show ?thesis unfolding at_most_one_schedule_def by blast
    next
      case 2
      then show ?thesis by simp
    next
      case 3
      with no p show ?thesis by blast
    next
      case 4
      with no p sym show ?thesis by blast
    qed
  qed
qed

theorem duplicate_schedule_rejected_witness:
  "at_most_one_schedule [ex_other] \<and> ex_other \<in> set [ex_other] \<and> same_pair ex_other ex_self
   \<and> non_cancelled ex_other \<and> name ex_other \<noteq> name ex_self \<and> name ex_other \<noteq> []
   \<and> validate_another_asset_depr_schedule_does_not_exist [ex_other] ex_self
        = Inl DuplicateScheduleError
   \<and> at_most_one_schedule []
   \<and> list_all (\<lambda>d. name d \<noteq> [] \<and> name d \<noteq> name ex_self) []
   \<and> validate_another_asset_depr_schedule_does_not_exist [] ex_self = Inr ()
   \<and> at_most_one_schedule ([] @ [ex_self])"
proof -
  have h1: "at_most_one_schedule [ex_other]" by (simp add: at_most_one_schedule_def)
  have h2: "ex_other \<in> set [ex_other]" by simp
  have h3: "same_pair ex_other ex_self" by (simp add: same_pair_def ex_other_def)
  have h4: "non_cancelled ex_other" by (simp add: non_cancelled_def ex_other_def ex_self_def)
  have h5: "name ex_other \<noteq> name ex_self" by (simp add: ex_other_def ex_self_def)
  have h6: "name ex_other \<noteq> []" by (simp add: ex_other_def)
  have g1: "at_most_one_schedule []" by (simp add: at_most_one_schedule_def)
  have g2: "\<forall>d\<in>set []. name d \<noteq> [] \<and> name d \<noteq> name ex_self" by simp
  have g3: "validate_another_asset_depr_schedule_does_not_exist [] ex_self = Inr ()"
    by (simp add: validate_another_asset_depr_schedule_does_not_exist_def db_exists_def)
  note t = duplicate_schedule_rejected[where table = "[ex_other]" and other = ex_other
             and self = ex_self and table' = "[]" and self' = ex_self]
  from t h1 h2 h3 h4 h5 h6 have c1:
    "validate_another_asset_depr_schedule_does_not_exist [ex_other] ex_self
        = Inl DuplicateScheduleError" by blast
  from t g1 g2 g3 have c2: "at_most_one_schedule ([] @ [ex_self])" by blast
  have g2': "list_all (\<lambda>d. name d \<noteq> [] \<and> name d \<noteq> name ex_self) []" by simp
  show ?thesis using h1 h2 h3 h4 h5 h6 g1 g2' g3 c1 c2 by blast
qed

end
